(* ===== verification/Tuic_Prelude.thy ===== *)
theory Tuic_Prelude
  imports Main "HOL-Library.Word"
begin

text \<open>
  Shared vocabulary of the development: the machine types of the Rust code, the two ways
  an operation can fail (an error value, modelled as the left of a sum, and a panic,
  modelled as a value of \<open>outcome\<close>), the checked and wrapping machine arithmetic, and the
  generic lemmas on lists, maps and permutations that the components share.
\<close>

unbundle bit_operations_syntax

type_synonym u8 = "8 word"
type_synonym u16 = "16 word"
type_synonym u32 = "32 word"
type_synonym u64 = "64 word"
type_synonym bytes = "u8 list"

named_theorems wire_simps \<open>lengths and decodings of encoded values\<close>
named_theorems outcome_simps \<open>equations of the error and panic plumbing\<close>

section \<open>Errors: the question mark operator\<close>

text \<open>The operator \<open>?\<close>: an error returns early, a value goes on.\<close>

definition try_bind :: "'e + 'a \<Rightarrow> ('a \<Rightarrow> 'e + 'b) \<Rightarrow> 'e + 'b" where
  "try_bind m f = (case m of Inl e \<Rightarrow> Inl e | Inr a \<Rightarrow> f a)"

definition map_err :: "('e \<Rightarrow> 'f) \<Rightarrow> 'e + 'a \<Rightarrow> 'f + 'a" where
  "map_err g m = (case m of Inl e \<Rightarrow> Inl (g e) | Inr a \<Rightarrow> Inr a)"

lemma try_bind_simps [simp, outcome_simps]:
  "try_bind (Inl e) f = Inl e"
  "try_bind (Inr a) f = f a"
  by (simp_all add: try_bind_def)

lemma map_err_simps [simp, outcome_simps]:
  "map_err g (Inl e) = Inl (g e)"
  "map_err g (Inr a) = Inr a"
  by (simp_all add: map_err_def)

lemma try_bind_eq_Inr: "try_bind m f = Inr b \<longleftrightarrow> (\<exists>a. m = Inr a \<and> f a = Inr b)"
  by (cases m) auto

lemma map_err_eq_Inr [simp]: "map_err g m = Inr a \<longleftrightarrow> m = Inr a"
  by (cases m) auto

section \<open>Panics\<close>

text \<open>
  What the code does when a Rust panic unwinds the task: an assertion, an index or a slice
  out of range, an arithmetic overflow in a build with overflow checks, an \<open>unwrap\<close> or
  \<open>expect\<close> of nothing or of an error, a division by zero, an \<open>unreachable!()\<close>.
\<close>

datatype panic = AssertFailed | IndexOutOfBounds | SliceOutOfRange | ArithmeticOverflow
  | DivideByZero | UnwrapNone | UnwrapErr | Unreachable

datatype 'a outcome = Returns 'a | Panics panic

definition outcome_bind :: "'a outcome \<Rightarrow> ('a \<Rightarrow> 'b outcome) \<Rightarrow> 'b outcome" where
  "outcome_bind m f = (case m of Returns a \<Rightarrow> f a | Panics p \<Rightarrow> Panics p)"

lemma outcome_bind_simps [simp, outcome_simps]:
  "outcome_bind (Returns a) f = f a"
  "outcome_bind (Panics p) f = Panics p"
  by (simp_all add: outcome_bind_def)

lemma outcome_bind_eq_Returns:
  "outcome_bind m f = Returns b \<longleftrightarrow> (\<exists>a. m = Returns a \<and> f a = Returns b)"
  by (cases m) auto

definition panics :: "'a outcome \<Rightarrow> bool" where
  "panics m = (case m of Returns _ \<Rightarrow> False | Panics _ \<Rightarrow> True)"

lemma panics_simps [simp, outcome_simps]:
  "panics (Returns a) = False"
  "panics (Panics p) = True"
  by (simp_all add: panics_def)

lemma panics_iff: "panics m \<longleftrightarrow> (\<exists>p. m = Panics p)"
  by (cases m) auto

section \<open>Machine arithmetic\<close>

text \<open>
  \<open>usize\<close> is modelled by \<open>nat\<close> below \<open>2 ^ 64\<close>. The flag \<open>oc\<close> is the build's
  \<open>overflow-checks\<close>: on in the dev profile, off in the release profile of Cargo.toml. With the
  checks an overflow panics, without them the value wraps.
\<close>

definition usize_modulus :: nat where
  "usize_modulus = 18446744073709551616"

definition usize_sub :: "bool \<Rightarrow> nat \<Rightarrow> nat \<Rightarrow> nat outcome" where
  "usize_sub oc a b =
     (if b \<le> a then Returns (a - b)
      else if oc then Panics ArithmeticOverflow
      else Returns (a + usize_modulus - b))"

definition usize_add :: "bool \<Rightarrow> nat \<Rightarrow> nat \<Rightarrow> nat outcome" where
  "usize_add oc a b =
     (if a + b < usize_modulus then Returns (a + b)
      else if oc then Panics ArithmeticOverflow
      else Returns (a + b - usize_modulus))"

definition usize_div :: "nat \<Rightarrow> nat \<Rightarrow> nat outcome" where
  "usize_div a b = (if b = 0 then Panics DivideByZero else Returns (a div b))"

lemma usize_sub_Returns [simp]: "b \<le> a \<Longrightarrow> usize_sub oc a b = Returns (a - b)"
  by (simp add: usize_sub_def)

lemma usize_add_Returns [simp]: "a + b < usize_modulus \<Longrightarrow> usize_add oc a b = Returns (a + b)"
  by (simp add: usize_add_def)

lemma usize_div_Returns [simp]: "0 < b \<Longrightarrow> usize_div a b = Returns (a div b)"
  by (simp add: usize_div_def)

text \<open>\<open>n * 2\<close> on \<open>u32\<close>, for the stream limits.\<close>

definition u32_double :: "bool \<Rightarrow> u32 \<Rightarrow> u32 outcome" where
  "u32_double oc n = (if oc \<and> 2 ^ 31 \<le> n then Panics ArithmeticOverflow else Returns (n * 2))"

text \<open>Narrowing casts: \<open>x as u8\<close> and \<open>x as u16\<close> keep the low bits.\<close>

lemma unat_of_nat_u8 [simp]: "n < 256 \<Longrightarrow> unat (of_nat n :: u8) = n"
  by (simp add: unat_of_nat)

lemma unat_of_nat_u16 [simp]: "n < 65536 \<Longrightarrow> unat (of_nat n :: u16) = n"
  by (simp add: unat_of_nat)

lemma unat_u8_less [simp]: "unat (w :: u8) < 256"
  using unsigned_less [of w] by simp

lemma unat_u8_le [simp]: "unat (w :: u8) \<le> 255"
  using unat_u8_less [of w] by linarith

lemma unat_u16_less [simp]: "unat (w :: u16) < 65536"
  using unsigned_less [of w] by simp

lemma unat_u8_Suc: "unat (w :: u8) < 255 \<Longrightarrow> unat (w + 1) = Suc (unat w)"
  by (simp add: unat_word_ariths)

lemma unat_u8_Suc_less: "(w :: u8) < v \<Longrightarrow> unat (w + 1) = Suc (unat w)"
proof -
  assume "w < v"
  then have "unat w < unat v" by (simp add: word_less_nat_alt)
  then have "unat w < 255" using unat_u8_less [of v] by linarith
  then show ?thesis by (rule unat_u8_Suc)
qed

section \<open>Lists, options and maps\<close>

lemma take_append_length [simp]: "n = length xs \<Longrightarrow> take n (xs @ ys) = xs"
  by simp

lemma drop_append_length [simp]: "n = length xs \<Longrightarrow> drop n (xs @ ys) = ys"
  by simp

lemma Cons_nth_drop: "n < length xs \<Longrightarrow> drop n xs = xs ! n # drop (Suc n) xs"
  by (rule Cons_nth_drop_Suc [symmetric])

text \<open>The number of filled slots of a list of options.\<close>

definition count_some :: "'a option list \<Rightarrow> nat" where
  "count_some xs = length (filter (\<lambda>x. x \<noteq> None) xs)"

lemma count_some_simps [simp]:
  "count_some [] = 0"
  "count_some (None # xs) = count_some xs"
  "count_some (Some x # xs) = Suc (count_some xs)"
  by (simp_all add: count_some_def)

lemma count_some_replicate_None [simp]: "count_some (replicate n None) = 0"
  by (induction n) simp_all

lemma count_some_le_length [simp]: "count_some xs \<le> length xs"
  by (simp add: count_some_def)

lemma count_some_update_None:
  "i < length xs \<Longrightarrow> xs ! i = None \<Longrightarrow> count_some (xs[i := Some x]) = Suc (count_some xs)"
proof (induction xs arbitrary: i)
  case Nil
  then show ?case by simp
next
  case (Cons y ys)
  then show ?case by (cases i; cases y) auto
qed

lemma count_some_eq_length_iff: "count_some xs = length xs \<longleftrightarrow> None \<notin> set xs"
proof (induction xs)
  case Nil
  then show ?case by simp
next
  case (Cons x xs)
  have "count_some xs < Suc (length xs)" by (simp add: less_Suc_eq_le)
  with Cons show ?case by (cases x) auto
qed

lemma count_some_less_length: "None \<in> set xs \<Longrightarrow> count_some xs < length xs"
  using count_some_eq_length_iff [of xs] count_some_le_length [of xs] by linarith

section \<open>Transition systems\<close>

text \<open>
  The states a system reaches from its initial ones by its steps, and the contract of an
  invariant: the initial states have it and every step keeps it. The stateful components state
  their invariants as interpretations of \<open>invariant_system\<close>.
\<close>

inductive reachable :: "('s \<Rightarrow> bool) \<Rightarrow> ('s \<Rightarrow> 's \<Rightarrow> bool) \<Rightarrow> 's \<Rightarrow> bool"
  for init :: "'s \<Rightarrow> bool" and step :: "'s \<Rightarrow> 's \<Rightarrow> bool" where
  reachable_init: "init s \<Longrightarrow> reachable init step s"
| reachable_step: "reachable init step s \<Longrightarrow> step s s' \<Longrightarrow> reachable init step s'"

locale invariant_system =
  fixes init :: "'s \<Rightarrow> bool" and step :: "'s \<Rightarrow> 's \<Rightarrow> bool" and inv :: "'s \<Rightarrow> bool"
  assumes inv_init: "init s \<Longrightarrow> inv s"
    and inv_step: "inv s \<Longrightarrow> step s s' \<Longrightarrow> inv s'"
begin

lemma reachable_inv: "reachable init step s \<Longrightarrow> inv s"
  by (induction rule: reachable.induct) (auto intro: inv_init inv_step)

lemma steps_inv: "step\<^sup>*\<^sup>* s s' \<Longrightarrow> inv s \<Longrightarrow> inv s'"
  by (induction rule: rtranclp_induct) (auto intro: inv_step)

end

text \<open>
  A refinement: an abstraction of the states of a system with an invariant, such that each of its
  steps is a step of the specification. What the specification reaches is then all it shows.
\<close>

locale refinement = invariant_system init step inv
  for init :: "'s \<Rightarrow> bool" and step :: "'s \<Rightarrow> 's \<Rightarrow> bool" and inv :: "'s \<Rightarrow> bool" +
  fixes spec_init :: "'a \<Rightarrow> bool" and spec_step :: "'a \<Rightarrow> 'a \<Rightarrow> bool" and abs :: "'s \<Rightarrow> 'a"
  assumes abs_init: "init s \<Longrightarrow> spec_init (abs s)"
    and abs_step: "inv s \<Longrightarrow> step s s' \<Longrightarrow> spec_step (abs s) (abs s')"
begin

lemma refines: "reachable init step s \<Longrightarrow> reachable spec_init spec_step (abs s)"
proof (induction rule: reachable.induct)
  case (reachable_init s)
  then show ?case by (intro reachable.reachable_init abs_init)
next
  case (reachable_step s s')
  then show ?case by (blast intro: reachable.reachable_step abs_step reachable_inv)
qed

end

end
