(* ===== verification/Tuic_Wire.thy ===== *)
theory Tuic_Wire
  imports Tuic_Prelude
begin

text \<open>
  The byte level: big-endian integers (\<open>u16::from_be_bytes\<close>, \<open>BufMut::put_u16\<close>), the
  UTF-8 check of \<open>String::from_utf8\<close>, and the byte streams a header is read from. A Rust
  \<open>String\<close> is modelled by its UTF-8 bytes. The interface a header parser needs of a stream
  is the locale \<open>byte_reader\<close>; its two instances are \<open>std::io::Cursor\<close> (a datagram) and a
  chunked asynchronous stream (a QUIC stream that delivers its bytes piecewise).
\<close>

section \<open>Big-endian integers\<close>

definition u16_to_be_bytes :: "u16 \<Rightarrow> bytes" where
  "u16_to_be_bytes w = [ucast (drop_bit 8 w), ucast w]"

definition u16_from_be_bytes :: "u8 \<Rightarrow> u8 \<Rightarrow> u16" where
  "u16_from_be_bytes hi lo = push_bit 8 (ucast hi) OR ucast lo"

lemma length_u16_to_be_bytes [simp, wire_simps]: "length (u16_to_be_bytes w) = 2"
  by (simp add: u16_to_be_bytes_def)

lemma u16_from_be_to_be [simp, wire_simps]:
  "u16_from_be_bytes (ucast (drop_bit 8 w)) (ucast w) = w"
  unfolding u16_from_be_bytes_def
  by (rule bit_eqI) (auto simp: bit_simps)

lemma u16_to_be_from_be [simp, wire_simps]:
  "u16_to_be_bytes (u16_from_be_bytes hi lo) = [hi, lo]"
proof -
  have "ucast (drop_bit 8 (u16_from_be_bytes hi lo)) = hi"
    unfolding u16_from_be_bytes_def
    by (rule bit_eqI) (auto simp: bit_simps dest: bit_imp_le_length)
  moreover have "ucast (u16_from_be_bytes hi lo) = lo"
    unfolding u16_from_be_bytes_def
    by (rule bit_eqI) (auto simp: bit_simps dest: bit_imp_le_length)
  ultimately show ?thesis by (simp add: u16_to_be_bytes_def)
qed

section \<open>UTF-8\<close>

text \<open>
  \<open>String::from_utf8\<close> accepts exactly the well-formed byte sequences of the Unicode
  standard: no overlong form, no surrogate, nothing above U+10FFFF.
\<close>

definition utf8_cont :: "u8 \<Rightarrow> bool" where
  "utf8_cont b \<longleftrightarrow> 0x80 \<le> b \<and> b \<le> 0xBF"

fun utf8_valid :: "bytes \<Rightarrow> bool" where
  "utf8_valid [] = True"
| "utf8_valid (a # r0) =
     (if a \<le> 0x7F then utf8_valid r0
      else case r0 of
        [] \<Rightarrow> False
      | b # r1 \<Rightarrow>
          if 0xC2 \<le> a \<and> a \<le> 0xDF then utf8_cont b \<and> utf8_valid r1
          else case r1 of
            [] \<Rightarrow> False
          | c # r2 \<Rightarrow>
              if a = 0xE0 then 0xA0 \<le> b \<and> b \<le> 0xBF \<and> utf8_cont c \<and> utf8_valid r2
              else if a = 0xED then 0x80 \<le> b \<and> b \<le> 0x9F \<and> utf8_cont c \<and> utf8_valid r2
              else if 0xE1 \<le> a \<and> a \<le> 0xEF
                then utf8_cont b \<and> utf8_cont c \<and> utf8_valid r2
              else case r2 of
                [] \<Rightarrow> False
              | d # r3 \<Rightarrow>
                  if a = 0xF0 then 0x90 \<le> b \<and> b \<le> 0xBF \<and> utf8_cont c \<and> utf8_cont d
                    \<and> utf8_valid r3
                  else if 0xF1 \<le> a \<and> a \<le> 0xF3
                    then utf8_cont b \<and> utf8_cont c \<and> utf8_cont d \<and> utf8_valid r3
                  else if a = 0xF4 then 0x80 \<le> b \<and> b \<le> 0x8F \<and> utf8_cont c
                    \<and> utf8_cont d \<and> utf8_valid r3
                  else False)"

definition string_from_utf8 :: "bytes \<Rightarrow> bytes + bytes" where
  "string_from_utf8 bs = (if utf8_valid bs then Inr bs else Inl bs)"

lemma utf8_valid_ascii: "\<forall>b \<in> set bs. b \<le> 0x7F \<Longrightarrow> utf8_valid bs"
  by (induction bs) auto

lemma string_from_utf8_Inr_iff [simp]:
  "string_from_utf8 bs = Inr s \<longleftrightarrow> s = bs \<and> utf8_valid bs"
  by (auto simp: string_from_utf8_def)

section \<open>I/O errors and readers\<close>

text \<open>
  The kinds of \<open>std::io::Error\<close> the code makes or sees; what a transport reports beyond them
  is \<open>OtherError\<close> with its message.
\<close>

datatype io_error = UnexpectedEof | NotFound string | InvalidInput string | OtherError string

text \<open>
  A reader takes a stream and returns an error or a value, and the stream after it. The
  operator \<open>?\<close> is \<open>reader_bind\<close>: an error ends the function, the stream stays where it was.
\<close>

type_synonym ('s, 'e, 'a) reader = "'s \<Rightarrow> ('e + 'a) \<times> 's"

definition reader_bind :: "('s, 'e, 'a) reader \<Rightarrow> ('a \<Rightarrow> ('s, 'e, 'b) reader) \<Rightarrow> ('s, 'e, 'b) reader"
  where
  "reader_bind m f s = (case m s of (Inl e, s') \<Rightarrow> (Inl e, s') | (Inr a, s') \<Rightarrow> f a s')"

definition reader_return :: "'e + 'a \<Rightarrow> ('s, 'e, 'a) reader" where
  "reader_return r s = (r, s)"

text \<open>\<open>s.read_exact(&mut buf)?\<close> with the error converted by \<open>From\<close>.\<close>

definition reader_io :: "(io_error \<Rightarrow> 'e) \<Rightarrow> ('s, io_error, 'a) reader \<Rightarrow> ('s, 'e, 'a) reader" where
  "reader_io conv m s = (case m s of (r, s') \<Rightarrow> (map_err conv r, s'))"

lemma reader_return_simp [simp]: "reader_return r s = (r, s)"
  by (simp add: reader_return_def)

lemma reader_bind_Inl: "m s = (Inl e, s') \<Longrightarrow> reader_bind m f s = (Inl e, s')"
  by (simp add: reader_bind_def)

lemma reader_bind_Inr: "m s = (Inr a, s') \<Longrightarrow> reader_bind m f s = f a s'"
  by (simp add: reader_bind_def)

lemma reader_bind_eq_Inr:
  "reader_bind m f s = (Inr b, t) \<longleftrightarrow> (\<exists>a s'. m s = (Inr a, s') \<and> f a s' = (Inr b, t))"
  by (auto simp: reader_bind_def split: prod.splits sum.splits)

text \<open>
  \<open>yields unread m s a ys\<close>: the reader \<open>m\<close> returns \<open>a\<close> on the stream \<open>s\<close> and leaves \<open>ys\<close> to
  be read.
\<close>

definition yields :: "('s \<Rightarrow> bytes) \<Rightarrow> ('s, 'e, 'a) reader \<Rightarrow> 's \<Rightarrow> 'a \<Rightarrow> bytes \<Rightarrow> bool" where
  "yields unread m s a ys \<longleftrightarrow> (\<exists>s'. m s = (Inr a, s') \<and> unread s' = ys)"

lemma yieldsE:
  assumes "yields unread m s a ys"
  obtains s' where "m s = (Inr a, s')" and "unread s' = ys"
  using assms by (auto simp: yields_def)

subsection \<open>The interface of a byte stream\<close>

text \<open>
  \<open>read_exact n\<close> either returns the next \<open>n\<close> bytes and goes past them or fails, and it fails
  exactly when the stream ends before them. \<open>unread\<close> is what the stream still delivers.
\<close>

locale byte_reader =
  fixes read_exact :: "nat \<Rightarrow> ('s, io_error, bytes) reader"
    and unread :: "'s \<Rightarrow> bytes"
  assumes read_enough: "n \<le> length (unread s) \<Longrightarrow>
      \<exists>s'. read_exact n s = (Inr (take n (unread s)), s') \<and> unread s' = drop n (unread s)"
    and read_short: "length (unread s) < n \<Longrightarrow> \<exists>e s'. read_exact n s = (Inl e, s')"
begin

lemma read_exact_append:
  assumes "unread s = xs @ ys" and "length xs = n"
  obtains s' where "reader_io conv (read_exact n) s = (Inr xs, s')" and "unread s' = ys"
proof -
  from assms have "n \<le> length (unread s)" by simp
  from read_enough [OF this] assms that show thesis
    by (auto simp: reader_io_def)
qed

lemma read_exact_u8:
  assumes "unread s = b # ys"
  obtains s' where "reader_io conv (read_exact 1) s = (Inr [b], s')" and "unread s' = ys"
  using read_exact_append [of s "[b]" ys 1] assms by auto

lemma read_exact_Inr:
  assumes "reader_io conv (read_exact n) s = (Inr xs, s')"
  shows "unread s = xs @ unread s' \<and> length xs = n"
proof (cases "n \<le> length (unread s)")
  case True
  from read_enough [OF True] assms True show ?thesis
    by (auto simp: reader_io_def min_absorb2)
next
  case False
  then have "length (unread s) < n" by simp
  from read_short [OF this] assms show ?thesis
    by (auto simp: reader_io_def)
qed

lemma read_exact_short:
  assumes "length (unread s) < n"
  obtains e s' where "reader_io conv (read_exact n) s = (Inl (conv e), s')"
  using read_short [OF assms] by (auto simp: reader_io_def)

end

subsection \<open>A cursor over a datagram\<close>

text \<open>\<open>std::io::Cursor<Bytes>\<close>: a short read moves to the end and fails.\<close>

record cursor =
  cursor_inner :: bytes
  cursor_position :: nat

definition cursor_new :: "bytes \<Rightarrow> cursor" where
  "cursor_new b = \<lparr>cursor_inner = b, cursor_position = 0\<rparr>"

definition cursor_unread :: "cursor \<Rightarrow> bytes" where
  "cursor_unread c = drop (cursor_position c) (cursor_inner c)"

definition cursor_read_exact :: "nat \<Rightarrow> (cursor, io_error, bytes) reader" where
  "cursor_read_exact n c =
     (if n \<le> length (cursor_unread c)
      then (Inr (take n (cursor_unread c)), c\<lparr>cursor_position := cursor_position c + n\<rparr>)
      else (Inl UnexpectedEof, c\<lparr>cursor_position := length (cursor_inner c)\<rparr>))"

lemma cursor_unread_new [simp]: "cursor_unread (cursor_new b) = b"
  by (simp add: cursor_unread_def cursor_new_def)

lemma cursor_read_exact_inner:
  "cursor_read_exact n c = (r, c') \<Longrightarrow> cursor_inner c' = cursor_inner c"
  by (auto simp: cursor_read_exact_def split: if_splits)

lemma cursor_read_exact_position:
  "cursor_read_exact n c = (r, c') \<Longrightarrow> cursor_position c \<le> length (cursor_inner c) \<Longrightarrow>
   cursor_position c' \<le> length (cursor_inner c')"
  by (auto simp: cursor_read_exact_def cursor_unread_def split: if_splits)

interpretation cursor_reader: byte_reader cursor_read_exact cursor_unread
  by unfold_locales (auto simp: cursor_read_exact_def cursor_unread_def drop_drop add.commute)

subsection \<open>A chunked asynchronous stream\<close>

text \<open>
  An asynchronous receive stream hands out its bytes in the pieces the transport delivers them:
  each poll returns bytes of the first piece. After the last piece the stream ends with
  \<open>stream_end\<close>: \<open>UnexpectedEof\<close> when the peer finished it, another error when it was reset.
\<close>

record recv_stream =
  stream_chunks :: "bytes list"
  stream_end :: io_error

fun chunks_read_exact :: "nat \<Rightarrow> bytes list \<Rightarrow> bytes option \<times> bytes list" where
  "chunks_read_exact n [] = (if n = 0 then Some [] else None, [])"
| "chunks_read_exact n (c # cs) =
     (if n = 0 then (Some [], c # cs)
      else if length c \<le> n
        then (case chunks_read_exact (n - length c) cs of
                (r, cs') \<Rightarrow> (map_option (\<lambda>b. c @ b) r, cs'))
      else (Some (take n c), drop n c # cs))"

definition stream_read_exact :: "nat \<Rightarrow> (recv_stream, io_error, bytes) reader" where
  "stream_read_exact n s =
     (case chunks_read_exact n (stream_chunks s) of
        (None, cs) \<Rightarrow> (Inl (stream_end s), s\<lparr>stream_chunks := cs\<rparr>)
      | (Some b, cs) \<Rightarrow> (Inr b, s\<lparr>stream_chunks := cs\<rparr>))"

definition stream_unread :: "recv_stream \<Rightarrow> bytes" where
  "stream_unread s = concat (stream_chunks s)"

lemma chunks_read_enough:
  "n \<le> length (concat cs) \<Longrightarrow>
   \<exists>cs'. chunks_read_exact n cs = (Some (take n (concat cs)), cs')
     \<and> concat cs' = drop n (concat cs)"
proof (induction n cs rule: chunks_read_exact.induct)
  case (1 n)
  then show ?case by simp
next
  case (2 n c cs)
  show ?case
  proof (cases "n = 0 \<or> length c > n")
    case True
    then show ?thesis by auto
  next
    case False
    with "2.prems" have "n - length c \<le> length (concat cs)" by auto
    with "2.IH" False obtain cs' where
      "chunks_read_exact (n - length c) cs = (Some (take (n - length c) (concat cs)), cs')"
      and "concat cs' = drop (n - length c) (concat cs)"
      by auto
    with False show ?thesis by auto
  qed
qed

lemma chunks_read_short:
  "length (concat cs) < n \<Longrightarrow> chunks_read_exact n cs = (None, [])"
proof (induction n cs rule: chunks_read_exact.induct)
  case (1 n)
  then show ?case by simp
next
  case (2 n c cs)
  then show ?case by auto
qed

interpretation stream_reader: byte_reader stream_read_exact stream_unread
proof unfold_locales
  fix n :: nat and s :: recv_stream
  assume "n \<le> length (stream_unread s)"
  then have "n \<le> length (concat (stream_chunks s))" by (simp add: stream_unread_def)
  from chunks_read_enough [OF this]
  show "\<exists>s'. stream_read_exact n s = (Inr (take n (stream_unread s)), s')
      \<and> stream_unread s' = drop n (stream_unread s)"
    by (auto simp: stream_read_exact_def stream_unread_def)
next
  fix n :: nat and s :: recv_stream
  assume "length (stream_unread s) < n"
  then have "chunks_read_exact n (stream_chunks s) = (None, [])"
    by (simp add: stream_unread_def chunks_read_short)
  then show "\<exists>e s'. stream_read_exact n s = (Inl e, s')"
    by (simp add: stream_read_exact_def)
qed

end
