(* ===== verification/Tuic_Protocol.thy ===== *)
theory Tuic_Protocol
  imports Tuic_Wire
begin

text \<open>
  The protocol data of \<^verbatim>\<open>tuic/src/protocol\<close>: the address, the five command headers, their
  type codes and serialized lengths. The socket addresses are those of \<open>std::net\<close>. The crate
  \<^verbatim>\<open>uuid\<close> is not part of the repository: its type is the type variable \<open>'u\<close> and its two
  functions the code calls are the record \<open>uuid_lib\<close>, an argument of the definitions that use
  them.
\<close>

section \<open>The standard library's socket addresses\<close>

datatype ipv4 = Ipv4 u8 u8 u8 u8

datatype ipv6 = Ipv6 u16 u16 u16 u16 u16 u16 u16 u16

datatype ip_addr = IpV4 ipv4 | IpV6 ipv6

text \<open>\<open>SocketV6\<close> carries the flow information and the scope id of \<open>SocketAddrV6\<close>.\<close>

datatype socket_addr = SocketV4 ipv4 u16 | SocketV6 ipv6 u16 u32 u32

fun ipv4_octets :: "ipv4 \<Rightarrow> bytes" where
  "ipv4_octets (Ipv4 a b c d) = [a, b, c, d]"

fun ipv6_segments :: "ipv6 \<Rightarrow> u16 list" where
  "ipv6_segments (Ipv6 a b c d e f g h) = [a, b, c, d, e, f, g, h]"

text \<open>\<open>SocketAddr::from((ip, port))\<close>: no flow information, scope 0.\<close>

fun socket_addr_from :: "ip_addr \<Rightarrow> u16 \<Rightarrow> socket_addr" where
  "socket_addr_from (IpV4 ip) port = SocketV4 ip port"
| "socket_addr_from (IpV6 ip) port = SocketV6 ip port 0 0"

fun socket_addr_is_v6 :: "socket_addr \<Rightarrow> bool" where
  "socket_addr_is_v6 (SocketV4 _ _) = False"
| "socket_addr_is_v6 (SocketV6 _ _ _ _) = True"

lemma length_ipv4_octets [simp, wire_simps]: "length (ipv4_octets ip) = 4"
  by (cases ip) simp

lemma length_ipv6_segments [simp, wire_simps]: "length (ipv6_segments ip) = 8"
  by (cases ip) simp

section \<open>The address\<close>

datatype address = NoAddress | DomainAddress bytes u16 | SocketAddress socket_addr

definition TYPE_CODE_DOMAIN :: u8 where "TYPE_CODE_DOMAIN = 0x00"
definition TYPE_CODE_IPV4 :: u8 where "TYPE_CODE_IPV4 = 0x01"
definition TYPE_CODE_IPV6 :: u8 where "TYPE_CODE_IPV6 = 0x02"
definition TYPE_CODE_NONE :: u8 where "TYPE_CODE_NONE = 0xff"

lemmas address_type_codes [wire_simps] =
  TYPE_CODE_DOMAIN_def TYPE_CODE_IPV4_def TYPE_CODE_IPV6_def TYPE_CODE_NONE_def

fun address_type_code :: "address \<Rightarrow> u8" where
  "address_type_code NoAddress = TYPE_CODE_NONE"
| "address_type_code (DomainAddress _ _) = TYPE_CODE_DOMAIN"
| "address_type_code (SocketAddress (SocketV4 _ _)) = TYPE_CODE_IPV4"
| "address_type_code (SocketAddress (SocketV6 _ _ _ _)) = TYPE_CODE_IPV6"

fun address_len :: "address \<Rightarrow> nat" where
  "address_len NoAddress = 1 + 0"
| "address_len (DomainAddress addr _) = 1 + (1 + length addr + 2)"
| "address_len (SocketAddress (SocketV4 _ _)) = 1 + (4 + 2)"
| "address_len (SocketAddress (SocketV6 _ _ _ _)) = 1 + (16 + 2)"

text \<open>\<open>take\<close> moves the address out: the value taken and what is left.\<close>

definition address_take :: "address \<Rightarrow> address \<times> address" where
  "address_take a = (a, NoAddress)"

fun address_is_none :: "address \<Rightarrow> bool" where
  "address_is_none NoAddress = True"
| "address_is_none _ = False"

fun address_is_domain :: "address \<Rightarrow> bool" where
  "address_is_domain (DomainAddress _ _) = True"
| "address_is_domain _ = False"

fun address_is_ipv4 :: "address \<Rightarrow> bool" where
  "address_is_ipv4 (SocketAddress (SocketV4 _ _)) = True"
| "address_is_ipv4 _ = False"

fun address_is_ipv6 :: "address \<Rightarrow> bool" where
  "address_is_ipv6 (SocketAddress (SocketV6 _ _ _ _)) = True"
| "address_is_ipv6 _ = False"

lemma address_is_none_iff [simp]: "address_is_none a \<longleftrightarrow> a = NoAddress"
  by (cases a) simp_all

lemma address_len_pos [simp]: "0 < address_len a"
  by (cases a rule: address_len.cases) simp_all

lemma address_len_NoAddress_le: "address_len NoAddress \<le> address_len a"
  by (cases a rule: address_len.cases) simp_all

section \<open>The uuid crate\<close>

record 'u uuid_lib =
  uuid_as_bytes :: "'u \<Rightarrow> bytes"
  uuid_from_slice :: "bytes \<Rightarrow> 'u option"

text \<open>
  The documented behaviour: \<open>from_slice\<close> accepts exactly the slices of 16 bytes and the value
  it makes has these bytes.
\<close>

definition uuid_lib_ok :: "'u uuid_lib \<Rightarrow> bool" where
  "uuid_lib_ok U \<longleftrightarrow>
     (\<forall>bs. (length bs = 16 \<longrightarrow> uuid_from_slice U bs \<noteq> None)
       \<and> (\<forall>u. uuid_from_slice U bs = Some u \<longrightarrow> length bs = 16 \<and> uuid_as_bytes U u = bs))"

definition uuid_ok :: "'u uuid_lib \<Rightarrow> 'u \<Rightarrow> bool" where
  "uuid_ok U u \<longleftrightarrow> length (uuid_as_bytes U u) = 16 \<and> uuid_from_slice U (uuid_as_bytes U u) = Some u"

lemma uuid_lib_okD:
  assumes "uuid_lib_ok U" and "uuid_from_slice U bs = Some u"
  shows "uuid_as_bytes U u = bs" and "length bs = 16" and "uuid_ok U u"
  using assms by (auto simp: uuid_lib_ok_def uuid_ok_def)

lemma uuid_lib_ok_total:
  assumes "uuid_lib_ok U" and "length bs = 16"
  obtains u where "uuid_from_slice U bs = Some u"
  using assms by (auto simp: uuid_lib_ok_def)

text \<open>A library of this kind exists: the sixteen bytes themselves.\<close>

definition bytes_uuid_lib :: "bytes uuid_lib" where
  "bytes_uuid_lib = \<lparr>uuid_as_bytes = (\<lambda>u. u),
     uuid_from_slice = (\<lambda>bs. if length bs = 16 then Some bs else None)\<rparr>"

lemma bytes_uuid_lib_ok: "uuid_lib_ok bytes_uuid_lib"
  by (simp add: uuid_lib_ok_def bytes_uuid_lib_def)

section \<open>The command headers\<close>

record 'u authenticate_header =
  ah_uuid :: 'u
  ah_token :: bytes

record connect_header =
  ch_addr :: address

record packet_header =
  ph_assoc_id :: u16
  ph_pkt_id :: u16
  ph_frag_total :: u8
  ph_frag_id :: u8
  ph_size :: u16
  ph_addr :: address

record dissociate_header =
  dh_assoc_id :: u16

datatype heartbeat_header = HeartbeatHeader

definition VERSION :: u8 where "VERSION = 0x05"

definition authenticate_type_code :: u8 where "authenticate_type_code = 0x00"
definition connect_type_code :: u8 where "connect_type_code = 0x01"
definition packet_type_code :: u8 where "packet_type_code = 0x02"
definition dissociate_type_code :: u8 where "dissociate_type_code = 0x03"
definition heartbeat_type_code :: u8 where "heartbeat_type_code = 0x04"

lemmas command_type_codes [wire_simps] =
  authenticate_type_code_def connect_type_code_def packet_type_code_def
  dissociate_type_code_def heartbeat_type_code_def

definition authenticate_len :: "'u authenticate_header \<Rightarrow> nat" where
  "authenticate_len _ = 16 + 32"

definition connect_len :: "connect_header \<Rightarrow> nat" where
  "connect_len h = address_len (ch_addr h)"

definition packet_len :: "packet_header \<Rightarrow> nat" where
  "packet_len h = 2 + 2 + 1 + 1 + 2 + address_len (ph_addr h)"

definition dissociate_len :: "dissociate_header \<Rightarrow> nat" where
  "dissociate_len _ = 2"

definition heartbeat_len :: "heartbeat_header \<Rightarrow> nat" where
  "heartbeat_len _ = 0"

lemmas command_lens [wire_simps] =
  authenticate_len_def connect_len_def packet_len_def dissociate_len_def heartbeat_len_def

text \<open>The conversions \<open>From<Header> for (fields)\<close>.\<close>

definition authenticate_into :: "'u authenticate_header \<Rightarrow> 'u \<times> bytes" where
  "authenticate_into h = (ah_uuid h, ah_token h)"

definition connect_into :: "connect_header \<Rightarrow> address" where
  "connect_into h = ch_addr h"

definition packet_into :: "packet_header \<Rightarrow> u16 \<times> u16 \<times> u8 \<times> u8 \<times> u16 \<times> address" where
  "packet_into h =
     (ph_assoc_id h, ph_pkt_id h, ph_frag_total h, ph_frag_id h, ph_size h, ph_addr h)"

definition dissociate_into :: "dissociate_header \<Rightarrow> u16" where
  "dissociate_into h = dh_assoc_id h"

definition packet_header_new :: "u16 \<Rightarrow> u16 \<Rightarrow> u8 \<Rightarrow> u8 \<Rightarrow> u16 \<Rightarrow> address \<Rightarrow> packet_header" where
  "packet_header_new assoc_id pkt_id frag_total frag_id sz addr =
     \<lparr>ph_assoc_id = assoc_id, ph_pkt_id = pkt_id, ph_frag_total = frag_total,
      ph_frag_id = frag_id, ph_size = sz, ph_addr = addr\<rparr>"

datatype 'u header =
    Authenticate "'u authenticate_header"
  | Connect connect_header
  | Packet packet_header
  | Dissociate dissociate_header
  | Heartbeat heartbeat_header

fun header_type_code :: "'u header \<Rightarrow> u8" where
  "header_type_code (Authenticate _) = authenticate_type_code"
| "header_type_code (Connect _) = connect_type_code"
| "header_type_code (Packet _) = packet_type_code"
| "header_type_code (Dissociate _) = dissociate_type_code"
| "header_type_code (Heartbeat _) = heartbeat_type_code"

fun header_len :: "'u header \<Rightarrow> nat" where
  "header_len (Authenticate auth) = 2 + authenticate_len auth"
| "header_len (Connect conn) = 2 + connect_len conn"
| "header_len (Packet packet) = 2 + packet_len packet"
| "header_len (Dissociate dissociate) = 2 + dissociate_len dissociate"
| "header_len (Heartbeat heartbeat) = 2 + heartbeat_len heartbeat"

section \<open>Well-formed headers\<close>

text \<open>
  The values a Rust program can hold and the wire can carry: a domain is UTF-8 and at most 255
  bytes (its length is one byte on the wire), an IPv6 address has no flow information and no
  scope (the wire carries neither), a token is 32 bytes.
\<close>

fun wf_address :: "address \<Rightarrow> bool" where
  "wf_address NoAddress = True"
| "wf_address (DomainAddress domain _) = (utf8_valid domain \<and> length domain \<le> 255)"
| "wf_address (SocketAddress (SocketV4 _ _)) = True"
| "wf_address (SocketAddress (SocketV6 _ _ flow scope)) = (flow = 0 \<and> scope = 0)"

fun wf_header :: "'u uuid_lib \<Rightarrow> 'u header \<Rightarrow> bool" where
  "wf_header U (Authenticate h) = (uuid_ok U (ah_uuid h) \<and> length (ah_token h) = 32)"
| "wf_header U (Connect h) = wf_address (ch_addr h)"
| "wf_header U (Packet h) = wf_address (ph_addr h)"
| "wf_header U (Dissociate _) = True"
| "wf_header U (Heartbeat _) = True"

end
