(* ===== verification/Tuic_Marshal.thy ===== *)
theory Tuic_Marshal
  imports Tuic_Protocol
begin

text \<open>
  Serialization of headers (\<^verbatim>\<open>tuic/src/marshal.rs\<close>). The write functions append to a buffer
  (\<open>BufMut\<close>), modelled by the bytes written so far.
\<close>

section \<open>The buffer operations\<close>

definition put_u8 :: "bytes \<Rightarrow> u8 \<Rightarrow> bytes" where
  "put_u8 buf b = buf @ [b]"

definition put_u16 :: "bytes \<Rightarrow> u16 \<Rightarrow> bytes" where
  "put_u16 buf w = buf @ u16_to_be_bytes w"

definition put_slice :: "bytes \<Rightarrow> bytes \<Rightarrow> bytes" where
  "put_slice buf s = buf @ s"

lemmas put_defs [wire_simps] = put_u8_def put_u16_def put_slice_def

section \<open>Writing the parts of a header\<close>

fun address_write :: "address \<Rightarrow> bytes \<Rightarrow> bytes" where
  "address_write NoAddress buf = put_u8 buf (address_type_code NoAddress)"
| "address_write (DomainAddress domain port) buf =
     (let buf = put_u8 buf (address_type_code (DomainAddress domain port));
          buf = put_u8 buf (of_nat (length domain));
          buf = put_slice buf domain
      in put_u16 buf port)"
| "address_write (SocketAddress (SocketV4 ip port)) buf =
     (let buf = put_u8 buf (address_type_code (SocketAddress (SocketV4 ip port)));
          buf = put_slice buf (ipv4_octets ip)
      in put_u16 buf port)"
| "address_write (SocketAddress (SocketV6 ip port flow scope)) buf =
     (let buf = put_u8 buf (address_type_code (SocketAddress (SocketV6 ip port flow scope)));
          buf = foldl put_u16 buf (ipv6_segments ip)
      in put_u16 buf port)"

definition authenticate_write :: "'u uuid_lib \<Rightarrow> 'u authenticate_header \<Rightarrow> bytes \<Rightarrow> bytes" where
  "authenticate_write U h buf =
     (let buf = put_slice buf (uuid_as_bytes U (ah_uuid h)) in put_slice buf (ah_token h))"

definition connect_write :: "connect_header \<Rightarrow> bytes \<Rightarrow> bytes" where
  "connect_write h buf = address_write (ch_addr h) buf"

definition packet_write :: "packet_header \<Rightarrow> bytes \<Rightarrow> bytes" where
  "packet_write h buf =
     (let buf = put_u16 buf (ph_assoc_id h);
          buf = put_u16 buf (ph_pkt_id h);
          buf = put_u8 buf (ph_frag_total h);
          buf = put_u8 buf (ph_frag_id h);
          buf = put_u16 buf (ph_size h)
      in address_write (ph_addr h) buf)"

definition dissociate_write :: "dissociate_header \<Rightarrow> bytes \<Rightarrow> bytes" where
  "dissociate_write h buf = put_u16 buf (dh_assoc_id h)"

definition heartbeat_write :: "heartbeat_header \<Rightarrow> bytes \<Rightarrow> bytes" where
  "heartbeat_write _ buf = buf"

definition header_write :: "'u uuid_lib \<Rightarrow> 'u header \<Rightarrow> bytes \<Rightarrow> bytes" where
  "header_write U h buf =
     (let buf = put_u8 buf VERSION;
          buf = put_u8 buf (header_type_code h)
      in case h of
           Authenticate auth \<Rightarrow> authenticate_write U auth buf
         | Connect conn \<Rightarrow> connect_write conn buf
         | Packet packet \<Rightarrow> packet_write packet buf
         | Dissociate dissociate \<Rightarrow> dissociate_write dissociate buf
         | Heartbeat heartbeat \<Rightarrow> heartbeat_write heartbeat buf)"

text \<open>
  \<open>marshal\<close> and \<open>async_marshal\<close> write the header to a fresh buffer and hand it to the sink in
  one \<open>write_all\<close>, whose result is theirs. The sink is a parameter: its state, and
  \<open>write_all\<close> on it.
\<close>

definition marshal :: "'u uuid_lib \<Rightarrow> (bytes \<Rightarrow> 's \<Rightarrow> (io_error + unit) \<times> 's) \<Rightarrow>
    'u header \<Rightarrow> 's \<Rightarrow> (io_error + unit) \<times> 's" where
  "marshal U write_all h s = (let buf = header_write U h [] in write_all buf s)"

definition async_marshal :: "'u uuid_lib \<Rightarrow> (bytes \<Rightarrow> 's \<Rightarrow> (io_error + unit) \<times> 's) \<Rightarrow>
    'u header \<Rightarrow> 's \<Rightarrow> (io_error + unit) \<times> 's" where
  "async_marshal U write_all h s = (let buf = header_write U h [] in write_all buf s)"

section \<open>Writing appends\<close>

text \<open>Every write function appends bytes that do not depend on the buffer.\<close>

lemma foldl_put_u16: "foldl put_u16 buf ws = buf @ concat (map u16_to_be_bytes ws)"
  by (induction ws arbitrary: buf) (simp_all add: put_u16_def)

lemma address_write_append: "address_write a buf = buf @ address_write a []"
  by (cases a rule: address_type_code.cases) (simp_all add: put_defs foldl_put_u16 Let_def)

lemma packet_write_append: "packet_write h buf = buf @ packet_write h []"
  unfolding packet_write_def Let_def put_defs
  by (subst (1 2) address_write_append) simp

lemma header_write_append: "header_write U h buf = buf @ header_write U h []"
proof (cases h)
  case (Connect c)
  then show ?thesis
    unfolding header_write_def connect_write_def Let_def put_defs
    by (simp, subst (1 2) address_write_append) simp
next
  case (Packet p)
  then show ?thesis
    unfolding header_write_def Let_def put_defs
    by (simp, subst (1 2) packet_write_append) simp
qed (simp_all add: header_write_def authenticate_write_def dissociate_write_def
      heartbeat_write_def put_defs Let_def)

section \<open>The announced length is the length written\<close>

lemma length_concat_u16 [simp, wire_simps]: "length (concat (map u16_to_be_bytes ws)) = 2 * length ws"
  by (induction ws) simp_all

lemma length_address_write: "length (address_write a buf) = length buf + address_len a"
  by (cases a rule: address_type_code.cases) (simp_all add: put_defs foldl_put_u16 Let_def)

lemma length_packet_write: "length (packet_write h buf) = length buf + packet_len h"
  by (simp add: packet_write_def packet_len_def put_defs length_address_write Let_def)

lemma length_header_write_Packet [simp, wire_simps]:
  "length (header_write U (Packet p) buf) = length buf + header_len (Packet p)"
  by (simp add: header_write_def put_defs length_packet_write Let_def)

lemma length_header_write_Dissociate [simp, wire_simps]:
  "length (header_write U (Dissociate d) buf) = length buf + header_len (Dissociate d)"
  by (simp add: header_write_def dissociate_write_def put_defs dissociate_len_def Let_def)

text \<open>A \<open>Uuid\<close> has 16 bytes and a token is a \<open>[u8; 32]\<close>: what the Rust types say of a header.\<close>

fun header_arrays :: "'u uuid_lib \<Rightarrow> 'u header \<Rightarrow> bool" where
  "header_arrays U (Authenticate h) =
     (length (uuid_as_bytes U (ah_uuid h)) = 16 \<and> length (ah_token h) = 32)"
| "header_arrays U _ = True"

text \<open>
  C39: \<open>Header::len\<close>, from which the code sizes its buffers and its fragments, is the number
  of bytes \<open>Header::write\<close> appends, for every header a Rust program can hold: a domain name
  of any length included.
\<close>

theorem header_len_is_written_length:
  assumes "header_arrays U h"
  shows "length (header_write U h buf) = length buf + header_len h"
proof (cases h)
  case (Authenticate auth)
  with assms show ?thesis
    by (simp add: header_write_def authenticate_write_def put_defs Let_def authenticate_len_def)
qed (simp_all add: header_write_def connect_write_def heartbeat_write_def
      dissociate_write_def put_defs length_address_write length_packet_write command_lens Let_def)

theorem header_len_is_written_length_witness:
  "length (header_write bytes_uuid_lib
     (Authenticate \<lparr>ah_uuid = replicate 16 7, ah_token = replicate 32 9\<rparr>) []) = 0 + 50"
proof -
  let ?h = "Authenticate \<lparr>ah_uuid = replicate 16 7, ah_token = replicate 32 9\<rparr>"
  have "header_arrays bytes_uuid_lib ?h" by (simp add: bytes_uuid_lib_def)
  from header_len_is_written_length [OF this, of "[]"] show ?thesis
    by (simp add: authenticate_len_def)
qed

end
