(* ===== verification/Tuic_Unmarshal.thy ===== *)
theory Tuic_Unmarshal
  imports Tuic_Marshal
begin

text \<open>
  Parsing of headers (\<^verbatim>\<open>tuic/src/unmarshal.rs\<close>). Every function exists twice in the source, over
  \<open>AsyncRead\<close> and over \<open>Read\<close>; both are translated. Each takes the \<open>read_exact\<close> of its stream
  as an argument, as the source is generic in the stream. The lemmas are proved once for any
  stream that satisfies \<open>byte_reader\<close> and instantiated for the two streams of \<^verbatim>\<open>tuic-quinn\<close>.
\<close>

datatype unmarshal_error =
    Io io_error
  | InvalidVersion u8
  | InvalidCommand u8
  | InvalidUuid
  | InvalidAddressType u8
  | AddressParse bytes

section \<open>The synchronous functions\<close>

definition address_read :: "(nat \<Rightarrow> ('s, io_error, bytes) reader) \<Rightarrow> ('s, unmarshal_error, address) reader"
  where
  "address_read rd =
     reader_bind (reader_io Io (rd 1)) (\<lambda>buf.
     let type_code = buf ! 0 in
     if type_code = TYPE_CODE_NONE then reader_return (Inr NoAddress)
     else if type_code = TYPE_CODE_DOMAIN then
       reader_bind (reader_io Io (rd 1)) (\<lambda>buf.
       let len = unat (buf ! 0) in
       reader_bind (reader_io Io (rd (len + 2))) (\<lambda>buf.
       let port = u16_from_be_bytes (buf ! len) (buf ! (len + 1));
           buf = take len buf in
       reader_bind (reader_return (map_err AddressParse (string_from_utf8 buf))) (\<lambda>domain.
       reader_return (Inr (DomainAddress domain port)))))
     else if type_code = TYPE_CODE_IPV4 then
       reader_bind (reader_io Io (rd 6)) (\<lambda>buf.
       let ip = Ipv4 (buf ! 0) (buf ! 1) (buf ! 2) (buf ! 3);
           port = u16_from_be_bytes (buf ! 4) (buf ! 5) in
       reader_return (Inr (SocketAddress (socket_addr_from (IpV4 ip) port))))
     else if type_code = TYPE_CODE_IPV6 then
       reader_bind (reader_io Io (rd 18)) (\<lambda>buf.
       let ip = Ipv6
             (u16_from_be_bytes (buf ! 0) (buf ! 1))
             (u16_from_be_bytes (buf ! 2) (buf ! 3))
             (u16_from_be_bytes (buf ! 4) (buf ! 5))
             (u16_from_be_bytes (buf ! 6) (buf ! 7))
             (u16_from_be_bytes (buf ! 8) (buf ! 9))
             (u16_from_be_bytes (buf ! 10) (buf ! 11))
             (u16_from_be_bytes (buf ! 12) (buf ! 13))
             (u16_from_be_bytes (buf ! 14) (buf ! 15));
           port = u16_from_be_bytes (buf ! 16) (buf ! 17) in
       reader_return (Inr (SocketAddress (socket_addr_from (IpV6 ip) port))))
     else reader_return (Inl (InvalidAddressType type_code)))"

definition authenticate_read :: "'u uuid_lib \<Rightarrow> (nat \<Rightarrow> ('s, io_error, bytes) reader) \<Rightarrow>
    ('s, unmarshal_error, 'u authenticate_header) reader" where
  "authenticate_read U rd =
     reader_bind (reader_io Io (rd 48)) (\<lambda>buf.
     reader_bind (reader_return (case uuid_from_slice U (take 16 buf) of
         None \<Rightarrow> Inl InvalidUuid | Some uuid \<Rightarrow> Inr uuid)) (\<lambda>uuid.
     let token = drop 16 buf in
     reader_return (Inr \<lparr>ah_uuid = uuid, ah_token = token\<rparr>)))"

definition connect_read :: "(nat \<Rightarrow> ('s, io_error, bytes) reader) \<Rightarrow>
    ('s, unmarshal_error, connect_header) reader" where
  "connect_read rd =
     reader_bind (address_read rd) (\<lambda>addr. reader_return (Inr \<lparr>ch_addr = addr\<rparr>))"

definition packet_read :: "(nat \<Rightarrow> ('s, io_error, bytes) reader) \<Rightarrow>
    ('s, unmarshal_error, packet_header) reader" where
  "packet_read rd =
     reader_bind (reader_io Io (rd 8)) (\<lambda>buf.
     let assoc_id = u16_from_be_bytes (buf ! 0) (buf ! 1);
         pkt_id = u16_from_be_bytes (buf ! 2) (buf ! 3);
         frag_total = buf ! 4;
         frag_id = buf ! 5;
         sz = u16_from_be_bytes (buf ! 6) (buf ! 7) in
     reader_bind (address_read rd) (\<lambda>addr.
     reader_return (Inr (packet_header_new assoc_id pkt_id frag_total frag_id sz addr))))"

definition dissociate_read :: "(nat \<Rightarrow> ('s, io_error, bytes) reader) \<Rightarrow>
    ('s, unmarshal_error, dissociate_header) reader" where
  "dissociate_read rd =
     reader_bind (reader_io Io (rd 2)) (\<lambda>buf.
     let assoc_id = u16_from_be_bytes (buf ! 0) (buf ! 1) in
     reader_return (Inr \<lparr>dh_assoc_id = assoc_id\<rparr>))"

definition heartbeat_read :: "(nat \<Rightarrow> ('s, io_error, bytes) reader) \<Rightarrow>
    ('s, unmarshal_error, heartbeat_header) reader" where
  "heartbeat_read rd = reader_return (Inr HeartbeatHeader)"

text \<open>\<open>.map(Self::Variant)\<close>: the result of a header's reader under a constructor.\<close>

definition reader_map :: "('a \<Rightarrow> 'b) \<Rightarrow> ('s, 'e, 'a) reader \<Rightarrow> ('s, 'e, 'b) reader" where
  "reader_map f m = reader_bind m (\<lambda>a. reader_return (Inr (f a)))"

definition unmarshal :: "'u uuid_lib \<Rightarrow> (nat \<Rightarrow> ('s, io_error, bytes) reader) \<Rightarrow>
    ('s, unmarshal_error, 'u header) reader" where
  "unmarshal U rd =
     reader_bind (reader_io Io (rd 1)) (\<lambda>buf.
     let ver = buf ! 0 in
     if ver \<noteq> VERSION then reader_return (Inl (InvalidVersion ver))
     else
       reader_bind (reader_io Io (rd 1)) (\<lambda>buf.
       let cmd = buf ! 0 in
       if cmd = authenticate_type_code then reader_map Authenticate (authenticate_read U rd)
       else if cmd = connect_type_code then reader_map Connect (connect_read rd)
       else if cmd = packet_type_code then reader_map Packet (packet_read rd)
       else if cmd = dissociate_type_code then reader_map Dissociate (dissociate_read rd)
       else if cmd = heartbeat_type_code then reader_map Heartbeat (heartbeat_read rd)
       else reader_return (Inl (InvalidCommand cmd))))"

section \<open>The asynchronous functions\<close>

definition address_async_read :: "(nat \<Rightarrow> ('s, io_error, bytes) reader) \<Rightarrow>
    ('s, unmarshal_error, address) reader" where
  "address_async_read rd =
     reader_bind (reader_io Io (rd 1)) (\<lambda>buf.
     let type_code = buf ! 0 in
     if type_code = TYPE_CODE_NONE then reader_return (Inr NoAddress)
     else if type_code = TYPE_CODE_DOMAIN then
       reader_bind (reader_io Io (rd 1)) (\<lambda>buf.
       let len = unat (buf ! 0) in
       reader_bind (reader_io Io (rd (len + 2))) (\<lambda>buf.
       let port = u16_from_be_bytes (buf ! len) (buf ! (len + 1));
           buf = take len buf in
       reader_bind (reader_return (map_err AddressParse (string_from_utf8 buf))) (\<lambda>domain.
       reader_return (Inr (DomainAddress domain port)))))
     else if type_code = TYPE_CODE_IPV4 then
       reader_bind (reader_io Io (rd 6)) (\<lambda>buf.
       let ip = Ipv4 (buf ! 0) (buf ! 1) (buf ! 2) (buf ! 3);
           port = u16_from_be_bytes (buf ! 4) (buf ! 5) in
       reader_return (Inr (SocketAddress (socket_addr_from (IpV4 ip) port))))
     else if type_code = TYPE_CODE_IPV6 then
       reader_bind (reader_io Io (rd 18)) (\<lambda>buf.
       let ip = Ipv6
             (u16_from_be_bytes (buf ! 0) (buf ! 1))
             (u16_from_be_bytes (buf ! 2) (buf ! 3))
             (u16_from_be_bytes (buf ! 4) (buf ! 5))
             (u16_from_be_bytes (buf ! 6) (buf ! 7))
             (u16_from_be_bytes (buf ! 8) (buf ! 9))
             (u16_from_be_bytes (buf ! 10) (buf ! 11))
             (u16_from_be_bytes (buf ! 12) (buf ! 13))
             (u16_from_be_bytes (buf ! 14) (buf ! 15));
           port = u16_from_be_bytes (buf ! 16) (buf ! 17) in
       reader_return (Inr (SocketAddress (socket_addr_from (IpV6 ip) port))))
     else reader_return (Inl (InvalidAddressType type_code)))"

definition authenticate_async_read :: "'u uuid_lib \<Rightarrow> (nat \<Rightarrow> ('s, io_error, bytes) reader) \<Rightarrow>
    ('s, unmarshal_error, 'u authenticate_header) reader" where
  "authenticate_async_read U rd =
     reader_bind (reader_io Io (rd 48)) (\<lambda>buf.
     reader_bind (reader_return (case uuid_from_slice U (take 16 buf) of
         None \<Rightarrow> Inl InvalidUuid | Some uuid \<Rightarrow> Inr uuid)) (\<lambda>uuid.
     let token = drop 16 buf in
     reader_return (Inr \<lparr>ah_uuid = uuid, ah_token = token\<rparr>)))"

definition connect_async_read :: "(nat \<Rightarrow> ('s, io_error, bytes) reader) \<Rightarrow>
    ('s, unmarshal_error, connect_header) reader" where
  "connect_async_read rd =
     reader_bind (address_async_read rd) (\<lambda>addr. reader_return (Inr \<lparr>ch_addr = addr\<rparr>))"

definition packet_async_read :: "(nat \<Rightarrow> ('s, io_error, bytes) reader) \<Rightarrow>
    ('s, unmarshal_error, packet_header) reader" where
  "packet_async_read rd =
     reader_bind (reader_io Io (rd 8)) (\<lambda>buf.
     let assoc_id = u16_from_be_bytes (buf ! 0) (buf ! 1);
         pkt_id = u16_from_be_bytes (buf ! 2) (buf ! 3);
         frag_total = buf ! 4;
         frag_id = buf ! 5;
         sz = u16_from_be_bytes (buf ! 6) (buf ! 7) in
     reader_bind (address_async_read rd) (\<lambda>addr.
     reader_return (Inr (packet_header_new assoc_id pkt_id frag_total frag_id sz addr))))"

definition dissociate_async_read :: "(nat \<Rightarrow> ('s, io_error, bytes) reader) \<Rightarrow>
    ('s, unmarshal_error, dissociate_header) reader" where
  "dissociate_async_read rd =
     reader_bind (reader_io Io (rd 2)) (\<lambda>buf.
     let assoc_id = u16_from_be_bytes (buf ! 0) (buf ! 1) in
     reader_return (Inr \<lparr>dh_assoc_id = assoc_id\<rparr>))"

definition heartbeat_async_read :: "(nat \<Rightarrow> ('s, io_error, bytes) reader) \<Rightarrow>
    ('s, unmarshal_error, heartbeat_header) reader" where
  "heartbeat_async_read rd = reader_return (Inr HeartbeatHeader)"

definition async_unmarshal :: "'u uuid_lib \<Rightarrow> (nat \<Rightarrow> ('s, io_error, bytes) reader) \<Rightarrow>
    ('s, unmarshal_error, 'u header) reader" where
  "async_unmarshal U rd =
     reader_bind (reader_io Io (rd 1)) (\<lambda>buf.
     let ver = buf ! 0 in
     if ver \<noteq> VERSION then reader_return (Inl (InvalidVersion ver))
     else
       reader_bind (reader_io Io (rd 1)) (\<lambda>buf.
       let cmd = buf ! 0 in
       if cmd = authenticate_type_code then reader_map Authenticate (authenticate_async_read U rd)
       else if cmd = connect_type_code then reader_map Connect (connect_async_read rd)
       else if cmd = packet_type_code then reader_map Packet (packet_async_read rd)
       else if cmd = dissociate_type_code then reader_map Dissociate (dissociate_async_read rd)
       else if cmd = heartbeat_type_code then reader_map Heartbeat (heartbeat_async_read rd)
       else reader_return (Inl (InvalidCommand cmd))))"

text \<open>The two copies of the source agree function by function.\<close>

lemmas read_defs =
  address_read_def authenticate_read_def connect_read_def packet_read_def
  dissociate_read_def heartbeat_read_def

lemmas async_read_defs =
  address_async_read_def authenticate_async_read_def connect_async_read_def
  packet_async_read_def dissociate_async_read_def heartbeat_async_read_def

lemma async_unmarshal_eq: "async_unmarshal = unmarshal"
  by (intro ext) (simp only: async_unmarshal_def unmarshal_def read_defs async_read_defs)

section \<open>Parsing what was written\<close>

lemma reader_map_Inr:
  "m s = (Inr a, s') \<Longrightarrow> reader_map f m s = (Inr (f a), s')"
  by (simp add: reader_map_def reader_bind_def)

lemma reader_map_eq_Inr:
  "reader_map f m s = (Inr b, s') \<longleftrightarrow> (\<exists>a. m s = (Inr a, s') \<and> b = f a)"
  by (auto simp: reader_map_def reader_bind_eq_Inr)

text \<open>After a good version byte the command byte selects the reader of the rest.\<close>

lemma unmarshal_dispatch:
  assumes "reader_io Io (rd 1) s = (Inr [VERSION], s1)"
    and "reader_io Io (rd 1) s1 = (Inr [cmd], s2)"
  shows "unmarshal U rd s =
     (if cmd = authenticate_type_code then reader_map Authenticate (authenticate_read U rd)
      else if cmd = connect_type_code then reader_map Connect (connect_read rd)
      else if cmd = packet_type_code then reader_map Packet (packet_read rd)
      else if cmd = dissociate_type_code then reader_map Dissociate (dissociate_read rd)
      else if cmd = heartbeat_type_code then reader_map Heartbeat (heartbeat_read rd)
      else reader_return (Inl (InvalidCommand cmd))) s2"
  unfolding unmarshal_def reader_bind_def [abs_def] Let_def
  using assms by simp

context byte_reader
begin

lemma yields_address_none:
  assumes "unread s = TYPE_CODE_NONE # ys"
  shows "yields unread (address_read read_exact) s NoAddress ys"
proof -
  obtain s1 where "reader_io Io (read_exact 1) s = (Inr [TYPE_CODE_NONE], s1)" and "unread s1 = ys"
    by (rule read_exact_u8 [OF assms])
  then show ?thesis
    by (simp add: yields_def address_read_def reader_bind_def del: One_nat_def)
qed

lemma yields_address_domain:
  assumes s: "unread s = TYPE_CODE_DOMAIN # of_nat (length domain) # domain @ u16_to_be_bytes port @ ys"
    and "utf8_valid domain" and "length domain \<le> 255"
  shows "yields unread (address_read read_exact) s (DomainAddress domain port) ys"
proof -
  have len: "unat (of_nat (length domain) :: u8) = length domain" using assms(3) by simp
  obtain s1 where r1: "reader_io Io (read_exact 1) s = (Inr [TYPE_CODE_DOMAIN], s1)"
    and u1: "unread s1 = of_nat (length domain) # domain @ u16_to_be_bytes port @ ys"
    by (rule read_exact_u8 [OF s])
  obtain s2 where r2: "reader_io Io (read_exact 1) s1 = (Inr [of_nat (length domain)], s2)"
    and u2: "unread s2 = (domain @ u16_to_be_bytes port) @ ys"
    using read_exact_u8 [OF u1] by auto
  obtain s3 where r3: "reader_io Io (read_exact (length domain + 2)) s2
      = (Inr (domain @ u16_to_be_bytes port), s3)" and u3: "unread s3 = ys"
    by (rule read_exact_append [OF u2, where conv = Io and n = "length domain + 2"]) simp_all
  have "TYPE_CODE_DOMAIN \<noteq> TYPE_CODE_NONE" by (simp add: address_type_codes)
  with r1 r2 r3 u3 len \<open>utf8_valid domain\<close> show ?thesis
    by (simp add: yields_def address_read_def reader_bind_def Let_def nth_append
        string_from_utf8_def u16_to_be_bytes_def del: One_nat_def)
qed

lemma yields_address_ipv4:
  assumes s: "unread s = TYPE_CODE_IPV4 # ipv4_octets ip @ u16_to_be_bytes port @ ys"
  shows "yields unread (address_read read_exact) s (SocketAddress (SocketV4 ip port)) ys"
proof -
  obtain s1 where r1: "reader_io Io (read_exact 1) s = (Inr [TYPE_CODE_IPV4], s1)"
    and u1: "unread s1 = (ipv4_octets ip @ u16_to_be_bytes port) @ ys"
    using read_exact_u8 [OF s] by auto
  obtain s2 where r2: "reader_io Io (read_exact 6) s1 = (Inr (ipv4_octets ip @ u16_to_be_bytes port), s2)"
    and u2: "unread s2 = ys"
    by (rule read_exact_append [OF u1]) simp
  have "TYPE_CODE_IPV4 \<noteq> TYPE_CODE_NONE" "TYPE_CODE_IPV4 \<noteq> TYPE_CODE_DOMAIN"
    by (simp_all add: address_type_codes)
  with r1 r2 u2 show ?thesis
    by (cases ip) (simp add: yields_def address_read_def reader_bind_def Let_def
        u16_to_be_bytes_def del: One_nat_def)
qed

lemma yields_address_ipv6:
  assumes s: "unread s = TYPE_CODE_IPV6 # concat (map u16_to_be_bytes (ipv6_segments ip))
      @ u16_to_be_bytes port @ ys"
  shows "yields unread (address_read read_exact) s (SocketAddress (SocketV6 ip port 0 0)) ys"
proof -
  let ?buf = "concat (map u16_to_be_bytes (ipv6_segments ip)) @ u16_to_be_bytes port"
  obtain s1 where r1: "reader_io Io (read_exact 1) s = (Inr [TYPE_CODE_IPV6], s1)"
    and u1: "unread s1 = ?buf @ ys"
    using read_exact_u8 [OF s] by auto
  obtain s2 where r2: "reader_io Io (read_exact 18) s1 = (Inr ?buf, s2)" and u2: "unread s2 = ys"
    by (rule read_exact_append [OF u1]) simp
  have "TYPE_CODE_IPV6 \<noteq> TYPE_CODE_NONE" "TYPE_CODE_IPV6 \<noteq> TYPE_CODE_DOMAIN"
    "TYPE_CODE_IPV6 \<noteq> TYPE_CODE_IPV4"
    by (simp_all add: address_type_codes)
  with r1 r2 u2 show ?thesis
    by (cases ip) (simp add: yields_def address_read_def reader_bind_def Let_def
        u16_to_be_bytes_def del: One_nat_def)
qed

lemma yields_address_read:
  assumes "unread s = address_write a [] @ ys" and "wf_address a"
  shows "yields unread (address_read read_exact) s a ys"
proof (cases a rule: address_type_code.cases)
  case 1
  with assms show ?thesis by (auto simp: put_defs intro: yields_address_none)
next
  case 2
  with assms show ?thesis by (auto simp: put_defs intro: yields_address_domain)
next
  case 3
  with assms show ?thesis by (auto simp: put_defs intro: yields_address_ipv4)
next
  case 4
  with assms show ?thesis by (auto simp: put_defs foldl_put_u16 intro: yields_address_ipv6)
qed

lemma yields_packet_read:
  assumes "unread s = packet_write h [] @ ys" and "wf_address (ph_addr h)"
  shows "yields unread (packet_read read_exact) s h ys"
proof -
  let ?buf = "u16_to_be_bytes (ph_assoc_id h) @ u16_to_be_bytes (ph_pkt_id h)
    @ [ph_frag_total h, ph_frag_id h] @ u16_to_be_bytes (ph_size h)"
  have "packet_write h [] = ?buf @ address_write (ph_addr h) []"
    unfolding packet_write_def Let_def put_defs by (subst address_write_append) simp
  with assms have s: "unread s = ?buf @ address_write (ph_addr h) [] @ ys" by simp
  obtain s1 where r1: "reader_io Io (read_exact 8) s = (Inr ?buf, s1)"
    and u1: "unread s1 = address_write (ph_addr h) [] @ ys"
    by (rule read_exact_append [OF s]) simp
  obtain s2 where r2: "address_read read_exact s1 = (Inr (ph_addr h), s2)" and u2: "unread s2 = ys"
    using yields_address_read [OF u1 assms(2)] by (rule yieldsE)
  from r1 r2 u2 show ?thesis
    by (simp add: yields_def packet_read_def reader_bind_def Let_def packet_header_new_def
        u16_to_be_bytes_def)
qed

lemma yields_connect_read:
  assumes "unread s = connect_write h [] @ ys" and "wf_address (ch_addr h)"
  shows "yields unread (connect_read read_exact) s h ys"
proof -
  obtain s1 where "address_read read_exact s = (Inr (ch_addr h), s1)" and "unread s1 = ys"
    using assms yields_address_read [of s "ch_addr h" ys] by (auto simp: connect_write_def elim: yieldsE)
  then show ?thesis by (simp add: yields_def connect_read_def reader_bind_def)
qed

lemma yields_authenticate_read:
  assumes "unread s = authenticate_write U h [] @ ys"
    and "uuid_ok U (ah_uuid h)" and "length (ah_token h) = 32"
  shows "yields unread (authenticate_read U read_exact) s h ys"
proof -
  let ?buf = "uuid_as_bytes U (ah_uuid h) @ ah_token h"
  from assms(1) have s: "unread s = ?buf @ ys"
    by (simp add: authenticate_write_def put_defs)
  obtain s1 where r1: "reader_io Io (read_exact 48) s = (Inr ?buf, s1)" and u1: "unread s1 = ys"
    by (rule read_exact_append [OF s]) (use assms in \<open>simp add: uuid_ok_def\<close>)
  from r1 u1 assms(2) show ?thesis
    by (simp add: yields_def authenticate_read_def reader_bind_def Let_def uuid_ok_def)
qed

lemma yields_dissociate_read:
  assumes s: "unread s = dissociate_write h [] @ ys"
  shows "yields unread (dissociate_read read_exact) s h ys"
proof -
  from s have s': "unread s = u16_to_be_bytes (dh_assoc_id h) @ ys"
    by (simp add: dissociate_write_def put_defs)
  obtain s1 where r1: "reader_io Io (read_exact 2) s = (Inr (u16_to_be_bytes (dh_assoc_id h)), s1)"
    and u1: "unread s1 = ys"
    by (rule read_exact_append [OF s']) simp
  from r1 u1 show ?thesis
    by (simp add: yields_def dissociate_read_def reader_bind_def Let_def u16_to_be_bytes_def)
qed

lemma yields_unmarshal:
  assumes "unread s = header_write U h [] @ ys" and "wf_header U h"
  shows "yields unread (unmarshal U read_exact) s h ys"
proof -
  define body where "body = (case h of
      Authenticate auth \<Rightarrow> authenticate_write U auth []
    | Connect conn \<Rightarrow> connect_write conn []
    | Packet packet \<Rightarrow> packet_write packet []
    | Dissociate dissociate \<Rightarrow> dissociate_write dissociate []
    | Heartbeat heartbeat \<Rightarrow> heartbeat_write heartbeat [])"
  have "header_write U h [] = VERSION # header_type_code h # body"
  proof (cases h)
    case (Connect c)
    then show ?thesis
      unfolding header_write_def connect_write_def body_def Let_def put_defs
      by (simp add: connect_write_def, subst address_write_append) simp
  next
    case (Packet p)
    then show ?thesis
      unfolding header_write_def body_def Let_def put_defs
      by (simp, subst packet_write_append) simp
  qed (simp_all add: header_write_def authenticate_write_def dissociate_write_def
        heartbeat_write_def put_defs Let_def body_def)
  with assms have s: "unread s = VERSION # header_type_code h # body @ ys" by simp
  obtain s1 where r1: "reader_io Io (read_exact 1) s = (Inr [VERSION], s1)"
    and u1: "unread s1 = header_type_code h # body @ ys"
    by (rule read_exact_u8 [OF s])
  obtain s2 where r2: "reader_io Io (read_exact 1) s1 = (Inr [header_type_code h], s2)"
    and u2: "unread s2 = body @ ys"
    by (rule read_exact_u8 [OF u1])
  note prefix = unmarshal_dispatch [where rd = read_exact, OF r1 r2, of U]
  show ?thesis
  proof (cases h)
    case (Authenticate auth)
    with u2 assms(2) have "yields unread (authenticate_read U read_exact) s2 auth ys"
      by (intro yields_authenticate_read) (simp_all add: body_def)
    with Authenticate prefix show ?thesis
      by (auto simp: yields_def command_type_codes reader_map_Inr)
  next
    case (Connect conn)
    with u2 assms(2) have "yields unread (connect_read read_exact) s2 conn ys"
      by (intro yields_connect_read) (simp_all add: body_def)
    with Connect prefix show ?thesis
      by (auto simp: yields_def command_type_codes reader_map_Inr)
  next
    case (Packet packet)
    with u2 assms(2) have "yields unread (packet_read read_exact) s2 packet ys"
      by (intro yields_packet_read) (simp_all add: body_def)
    with Packet prefix show ?thesis
      by (auto simp: yields_def command_type_codes reader_map_Inr)
  next
    case (Dissociate dissociate)
    with u2 have "yields unread (dissociate_read read_exact) s2 dissociate ys"
      by (intro yields_dissociate_read) (simp_all add: body_def)
    with Dissociate prefix show ?thesis
      by (auto simp: yields_def command_type_codes reader_map_Inr)
  next
    case (Heartbeat heartbeat)
    with u2 have "unread s2 = ys" and "heartbeat = HeartbeatHeader"
      by (simp_all add: body_def heartbeat_write_def, cases heartbeat, simp)
    with Heartbeat prefix show ?thesis
      by (simp add: yields_def command_type_codes reader_map_def reader_bind_def heartbeat_read_def)
  qed
qed

text \<open>The converse: what is accepted is exactly what \<open>write\<close> produces.\<close>

lemma address_read_sound:
  assumes "address_read read_exact s = (Inr a, s')"
  shows "unread s = address_write a [] @ unread s' \<and> wf_address a"
proof -
  from assms obtain b s1 where r1: "reader_io Io (read_exact 1) s = (Inr b, s1)"
    unfolding address_read_def reader_bind_eq_Inr by blast
  from read_exact_Inr [OF r1] obtain tc where b: "b = [tc]" and u1: "unread s = tc # unread s1"
    by (cases b) auto
  consider (none) "tc = TYPE_CODE_NONE" | (domain) "tc = TYPE_CODE_DOMAIN"
    | (ipv4) "tc = TYPE_CODE_IPV4" | (ipv6) "tc = TYPE_CODE_IPV6"
    using assms r1 b
    by (auto simp: address_read_def reader_bind_def Let_def split: if_splits simp del: One_nat_def)
  then show ?thesis
  proof cases
    case none
    with assms r1 b u1 show ?thesis
      by (auto simp: address_read_def reader_bind_def put_defs simp del: One_nat_def)
  next
    case domain
    then have ne: "tc \<noteq> TYPE_CODE_NONE" by (simp add: address_type_codes)
    from assms r1 b domain ne obtain l s2 buf s3 where
      r2: "reader_io Io (read_exact 1) s1 = (Inr l, s2)" and
      r3: "reader_io Io (read_exact (unat (l ! 0) + 2)) s2 = (Inr buf, s3)" and
      utf8: "utf8_valid (take (unat (l ! 0)) buf)" and
      a: "a = DomainAddress (take (unat (l ! 0)) buf)
            (u16_from_be_bytes (buf ! unat (l ! 0)) (buf ! (unat (l ! 0) + 1)))" and s': "s' = s3"
      by (auto simp: address_read_def reader_bind_eq_Inr Let_def simp del: One_nat_def)
    from read_exact_Inr [OF r2] obtain n where l: "l = [n]" and u2: "unread s1 = n # unread s2"
      by (cases l) auto
    from read_exact_Inr [OF r3] l have u3: "unread s2 = buf @ unread s3"
      and len: "length buf = unat n + 2" by auto
    have "drop (unat n) buf = [buf ! unat n, buf ! (unat n + 1)]"
      using len by (simp add: Cons_nth_drop)
    then have "take (unat n) buf @ [buf ! unat n, buf ! (unat n + 1)] = buf"
      by (metis append_take_drop_id)
    moreover have "length (take (unat n) buf) = unat n" and "unat n \<le> 255"
      using len by auto
    ultimately show ?thesis
      using a l u1 u2 u3 utf8 domain s' by (simp add: put_defs Let_def)
  next
    case ipv4
    then have ne: "tc \<noteq> TYPE_CODE_NONE" "tc \<noteq> TYPE_CODE_DOMAIN"
      by (simp_all add: address_type_codes)
    from assms r1 b ipv4 ne obtain buf s2 where
      r2: "reader_io Io (read_exact 6) s1 = (Inr buf, s2)" and
      a: "a = SocketAddress (SocketV4 (Ipv4 (buf ! 0) (buf ! 1) (buf ! 2) (buf ! 3))
            (u16_from_be_bytes (buf ! 4) (buf ! 5)))" and s': "s' = s2"
      by (auto simp: address_read_def reader_bind_eq_Inr Let_def simp del: One_nat_def)
    from read_exact_Inr [OF r2] obtain b0 b1 b2 b3 b4 b5 where "buf = [b0, b1, b2, b3, b4, b5]"
      by (auto simp: length_Suc_conv numeral_eq_Suc)
    with a s' u1 ipv4 read_exact_Inr [OF r2] show ?thesis by (simp add: put_defs)
  next
    case ipv6
    then have ne: "tc \<noteq> TYPE_CODE_NONE" "tc \<noteq> TYPE_CODE_DOMAIN" "tc \<noteq> TYPE_CODE_IPV4"
      by (simp_all add: address_type_codes)
    define segs where "segs buf i = u16_from_be_bytes (buf ! (2 * i)) (buf ! (2 * i + 1))"
      for buf :: bytes and i :: nat
    from assms r1 b ipv6 ne obtain buf s2 where
      r2: "reader_io Io (read_exact 18) s1 = (Inr buf, s2)" and
      a: "a = SocketAddress (SocketV6 (Ipv6 (segs buf 0) (segs buf 1) (segs buf 2) (segs buf 3)
            (segs buf 4) (segs buf 5) (segs buf 6) (segs buf 7)) (segs buf 8) 0 0)" and s': "s' = s2"
      by (auto simp: address_read_def reader_bind_eq_Inr Let_def segs_def eval_nat_numeral)
    from read_exact_Inr [OF r2] have "length buf = 18" by simp
    then obtain b0 b1 b2 b3 b4 b5 b6 b7 b8 b9 c0 c1 c2 c3 c4 c5 c6 c7 where
      "buf = [b0, b1, b2, b3, b4, b5, b6, b7, b8, b9, c0, c1, c2, c3, c4, c5, c6, c7]"
      by (auto simp: length_Suc_conv numeral_eq_Suc)
    with a s' u1 ipv6 read_exact_Inr [OF r2] show ?thesis
      by (simp add: put_defs segs_def foldl_put_u16)
  qed
qed

lemma packet_read_sound:
  assumes "packet_read read_exact s = (Inr h, s')"
  shows "unread s = packet_write h [] @ unread s' \<and> wf_address (ph_addr h)"
proof -
  from assms obtain buf s1 addr where
    r1: "reader_io Io (read_exact 8) s = (Inr buf, s1)" and
    r2: "address_read read_exact s1 = (Inr addr, s')" and
    h: "h = packet_header_new (u16_from_be_bytes (buf ! 0) (buf ! 1))
          (u16_from_be_bytes (buf ! 2) (buf ! 3)) (buf ! 4) (buf ! 5)
          (u16_from_be_bytes (buf ! 6) (buf ! 7)) addr"
    by (auto simp: packet_read_def reader_bind_eq_Inr Let_def)
  from read_exact_Inr [OF r1] have "length buf = 8" by simp
  then obtain b0 b1 b2 b3 b4 b5 b6 b7 where "buf = [b0, b1, b2, b3, b4, b5, b6, b7]"
    by (auto simp: length_Suc_conv numeral_eq_Suc)
  with read_exact_Inr [OF r1] address_read_sound [OF r2] h show ?thesis
    by (simp add: packet_write_def packet_header_new_def put_defs Let_def
        address_write_append [of addr "[_, _, _, _, _, _, _, _]"])
qed

lemma connect_read_sound:
  assumes "connect_read read_exact s = (Inr h, s')"
  shows "unread s = connect_write h [] @ unread s' \<and> wf_address (ch_addr h)"
  using assms by (auto simp: connect_read_def reader_bind_eq_Inr connect_write_def
      dest: address_read_sound)

lemma authenticate_read_sound:
  assumes "authenticate_read U read_exact s = (Inr h, s')" and "uuid_lib_ok U"
  shows "unread s = authenticate_write U h [] @ unread s'
    \<and> uuid_ok U (ah_uuid h) \<and> length (ah_token h) = 32"
proof -
  from assms(1) obtain buf uuid where
    r1: "reader_io Io (read_exact 48) s = (Inr buf, s')" and
    u: "uuid_from_slice U (take 16 buf) = Some uuid" and
    h: "h = \<lparr>ah_uuid = uuid, ah_token = drop 16 buf\<rparr>"
    by (auto simp: authenticate_read_def reader_bind_eq_Inr Let_def split: option.splits)
  from read_exact_Inr [OF r1] uuid_lib_okD [OF assms(2) u] h show ?thesis
    by (simp add: authenticate_write_def put_defs)
qed

lemma dissociate_read_sound:
  assumes "dissociate_read read_exact s = (Inr h, s')"
  shows "unread s = dissociate_write h [] @ unread s'"
proof -
  from assms obtain buf where
    r1: "reader_io Io (read_exact 2) s = (Inr buf, s')" and
    h: "h = \<lparr>dh_assoc_id = u16_from_be_bytes (buf ! 0) (buf ! 1)\<rparr>"
    by (auto simp: dissociate_read_def reader_bind_eq_Inr Let_def)
  from read_exact_Inr [OF r1] obtain b0 b1 where "buf = [b0, b1]"
    by (auto simp: length_Suc_conv numeral_eq_Suc)
  with read_exact_Inr [OF r1] h show ?thesis
    by (simp add: dissociate_write_def put_defs)
qed

lemma unmarshal_sound:
  assumes "unmarshal U read_exact s = (Inr h, s')" and "uuid_lib_ok U"
  shows "unread s = header_write U h [] @ unread s' \<and> wf_header U h"
proof -
  from assms(1) obtain v s1 where r1: "reader_io Io (read_exact 1) s = (Inr v, s1)"
    unfolding unmarshal_def reader_bind_eq_Inr by blast
  from read_exact_Inr [OF r1] obtain ver where v: "v = [ver]" and u1: "unread s = ver # unread s1"
    by (cases v) auto
  from assms(1) r1 v have ver: "ver = VERSION"
    by (auto simp: unmarshal_def reader_bind_def split: if_splits simp del: One_nat_def)
  from assms(1) r1 v ver obtain c s2 where r2: "reader_io Io (read_exact 1) s1 = (Inr c, s2)"
    by (auto simp: unmarshal_def reader_bind_eq_Inr Let_def simp del: One_nat_def)
  from read_exact_Inr [OF r2] obtain cmd where c: "c = [cmd]" and u2: "unread s1 = cmd # unread s2"
    by (cases c) auto
  note dispatch = unmarshal_dispatch [where rd = read_exact, OF r1 [unfolded v ver] r2 [unfolded c], of U]
  note ux = u1 [unfolded ver] u2
  from assms(1) consider
      (auth) a where "cmd = authenticate_type_code" "h = Authenticate a"
        "authenticate_read U read_exact s2 = (Inr a, s')"
    | (conn) a where "cmd = connect_type_code" "h = Connect a" "connect_read read_exact s2 = (Inr a, s')"
    | (pkt) a where "cmd = packet_type_code" "h = Packet a" "packet_read read_exact s2 = (Inr a, s')"
    | (dis) a where "cmd = dissociate_type_code" "h = Dissociate a"
        "dissociate_read read_exact s2 = (Inr a, s')"
    | (hb) a where "cmd = heartbeat_type_code" "h = Heartbeat a" "s' = s2"
    by (auto simp: dispatch reader_map_eq_Inr heartbeat_read_def split: if_splits)
  then show ?thesis
  proof cases
    case auth
    with ux authenticate_read_sound [OF auth(3) assms(2)] show ?thesis
      by (simp add: header_write_def authenticate_write_def put_defs Let_def)
  next
    case conn
    with ux connect_read_sound [OF conn(3)] show ?thesis
      by (simp add: header_write_def connect_write_def put_defs Let_def
          address_write_append [of _ "[_, _]"])
  next
    case pkt
    with ux packet_read_sound [OF pkt(3)] show ?thesis
      by (simp add: header_write_def put_defs Let_def packet_write_append [of _ "[_, _]"])
  next
    case dis
    with ux dissociate_read_sound [OF dis(3)] show ?thesis
      by (simp add: header_write_def dissociate_write_def put_defs Let_def)
  next
    case hb
    with ux show ?thesis
      by (simp add: header_write_def heartbeat_write_def put_defs Let_def)
  qed
qed

end

section \<open>What a parser does to its stream\<close>

text \<open>
  \<open>traced R rd m\<close>: the reader \<open>m\<close> moves its stream only along \<open>R\<close>, and an I/O error it returns
  is one that \<open>rd\<close> returned on a stream it had moved to.
\<close>

definition traced :: "('s \<Rightarrow> 's \<Rightarrow> bool) \<Rightarrow> (nat \<Rightarrow> ('s, io_error, bytes) reader) \<Rightarrow>
    ('s, unmarshal_error, 'a) reader \<Rightarrow> bool" where
  "traced R rd m \<longleftrightarrow> (\<forall>s r s'. m s = (r, s') \<longrightarrow> R s s'
     \<and> (\<forall>e. r = Inl (Io e) \<longrightarrow> (\<exists>n t t'. R s t \<and> rd n t = (Inl e, t'))))"

text \<open>
  \<open>extensible unread m\<close>: more bytes after those of the stream change nothing, unless the reader
  ran into the end of the stream.
\<close>

definition extensible :: "('s \<Rightarrow> bytes) \<Rightarrow> ('s, unmarshal_error, 'a) reader \<Rightarrow> bool" where
  "extensible unread m \<longleftrightarrow> (\<forall>s t xs r s'. unread t = unread s @ xs \<longrightarrow> m s = (r, s') \<longrightarrow>
     (\<forall>e. r \<noteq> Inl (Io e)) \<longrightarrow>
     (\<exists>t'. m t = (r, t') \<and> (\<forall>a. r = Inr a \<longrightarrow> unread t' = unread s' @ xs)))"

named_theorems reader_rules \<open>rules that take a property of readers through their combinators\<close>

lemma traced_return [reader_rules]:
  assumes "reflp R" and "\<And>e. r \<noteq> Inl (Io e)"
  shows "traced R rd (reader_return r)"
  using assms by (auto simp: traced_def reflp_def)

lemma tracedD:
  assumes "traced R rd m" and "m s = (r, s')"
  shows "R s s'" and "r = Inl (Io e) \<Longrightarrow> \<exists>n t t'. R s t \<and> rd n t = (Inl e, t')"
  using assms unfolding traced_def by blast+

lemma traced_bind [reader_rules]:
  assumes "transp R" and "traced R rd m" and "\<And>a. traced R rd (f a)"
  shows "traced R rd (reader_bind m f)"
  unfolding traced_def
proof (intro allI impI)
  fix s r s'
  assume run: "reader_bind m f s = (r, s')"
  obtain q s1 where m: "m s = (q, s1)" by (cases "m s")
  note R1 = tracedD [OF assms(2) m]
  show "R s s' \<and> (\<forall>e. r = Inl (Io e) \<longrightarrow> (\<exists>n t t'. R s t \<and> rd n t = (Inl e, t')))"
  proof (cases q)
    case (Inl e)
    with run m R1 show ?thesis by (auto simp: reader_bind_def)
  next
    case (Inr a)
    with run m have fa: "f a s1 = (r, s')" by (simp add: reader_bind_def)
    note R2 = tracedD [OF assms(3) fa]
    from R1(1) R2 assms(1) show ?thesis by (blast dest: transpD)
  qed
qed

lemma traced_read [reader_rules]:
  assumes "reflp R" and "\<And>n s r s'. rd n s = (r, s') \<Longrightarrow> R s s'"
  shows "traced R rd (reader_io Io (rd n))"
  unfolding traced_def reader_io_def
proof (intro allI impI conjI)
  fix s r s'
  assume run: "(case rd n s of (r, s') \<Rightarrow> (map_err Io r, s')) = (r, s')"
  then obtain q where q: "rd n s = (q, s')" and r: "r = map_err Io q" by (auto split: prod.splits)
  from assms(2) q show "R s s'" .
  fix e assume "r = Inl (Io e)"
  with r have "q = Inl e" by (cases q) auto
  with q assms(1) show "\<exists>n t t'. R s t \<and> rd n t = (Inl e, t')" by (auto dest: reflpD)
qed

lemma traced_if [reader_rules]:
  "traced R rd m \<Longrightarrow> traced R rd n \<Longrightarrow> traced R rd (if b then m else n)"
  by simp

lemma traced_unmarshal:
  assumes "reflp R" and "transp R" and "\<And>n s r s'. rd n s = (r, s') \<Longrightarrow> R s s'"
  shows "traced R rd (unmarshal U rd)"
  unfolding unmarshal_def read_defs reader_map_def Let_def
  by (intro reader_rules assms) (auto simp: string_from_utf8_def split: option.splits)

lemma extensibleD:
  assumes "extensible unread m" and "unread t = unread s @ xs" and "m s = (r, s')"
    and "\<forall>e. r \<noteq> Inl (Io e)"
  obtains t' where "m t = (r, t')" and "\<forall>a. r = Inr a \<longrightarrow> unread t' = unread s' @ xs"
  using assms(1) [unfolded extensible_def, THEN spec, THEN spec, THEN spec, THEN spec, THEN spec,
      THEN mp, OF assms(2), THEN mp, OF assms(3), THEN mp, OF assms(4)] that by blast

lemma extensible_return [reader_rules]: "extensible unread (reader_return r)"
  by (auto simp: extensible_def)

lemma extensible_bind [reader_rules]:
  assumes "extensible unread m" and "\<And>a. extensible unread (f a)"
  shows "extensible unread (reader_bind m f)"
  unfolding extensible_def
proof (intro allI impI)
  fix s t xs r s'
  assume t: "unread t = unread s @ xs" and run: "reader_bind m f s = (r, s')"
    and no_io: "\<forall>e. r \<noteq> Inl (Io e)"
  obtain q s1 where m: "m s = (q, s1)" by (cases "m s")
  show "\<exists>t'. reader_bind m f t = (r, t') \<and> (\<forall>a. r = Inr a \<longrightarrow> unread t' = unread s' @ xs)"
  proof (cases q)
    case (Inl e)
    with run m have "r = Inl e" by (simp add: reader_bind_def)
    with no_io have "\<forall>e. q \<noteq> Inl (Io e)" using Inl by simp
    with assms(1) t m Inl obtain t' where "m t = (Inl e, t')"
      by (auto elim: extensibleD)
    with \<open>r = Inl e\<close> show ?thesis by (simp add: reader_bind_def)
  next
    case (Inr a)
    with assms(1) t m obtain t1 where t1: "m t = (Inr a, t1)" "unread t1 = unread s1 @ xs"
      by (auto elim: extensibleD)
    from run m Inr have fa: "f a s1 = (r, s')" by (simp add: reader_bind_def)
    obtain t' where "f a t1 = (r, t')" and "\<forall>b. r = Inr b \<longrightarrow> unread t' = unread s' @ xs"
      by (rule extensibleD [OF assms(2) t1(2) fa no_io])
    with t1(1) show ?thesis by (auto simp: reader_bind_def)
  qed
qed

lemma extensible_if [reader_rules]:
  "extensible unread m \<Longrightarrow> extensible unread n \<Longrightarrow> extensible unread (if b then m else n)"
  by simp

context byte_reader
begin

lemma extensible_read: "extensible unread (reader_io Io (read_exact n))"
  unfolding extensible_def
proof (intro allI impI)
  fix s t xs r s'
  assume t: "unread t = unread s @ xs" and run: "reader_io Io (read_exact n) s = (r, s')"
    and no_io: "\<forall>e. r \<noteq> Inl (Io e)"
  have "n \<le> length (unread s)"
  proof (rule ccontr)
    assume "\<not> n \<le> length (unread s)"
    then have short: "length (unread s) < n" by simp
    obtain e s1 where "reader_io Io (read_exact n) s = (Inl (Io e), s1)"
      by (rule read_exact_short [OF short])
    with run no_io show False by auto
  qed
  from read_enough [OF this] run obtain b where r: "r = Inr b" by (auto simp: reader_io_def)
  from run read_exact_Inr [of Io n s b s'] r have s: "unread s = b @ unread s'" "length b = n" by auto
  with t have "unread t = b @ unread s' @ xs" by simp
  from this s(2) obtain t' where "reader_io Io (read_exact n) t = (Inr b, t')" "unread t' = unread s' @ xs"
    by (rule read_exact_append)
  with r show "\<exists>t'. reader_io Io (read_exact n) t = (r, t')
      \<and> (\<forall>a. r = Inr a \<longrightarrow> unread t' = unread s' @ xs)" by blast
qed

lemma extensible_unmarshal: "extensible unread (unmarshal U read_exact)"
  unfolding unmarshal_def read_defs reader_map_def Let_def
  by (intro reader_rules extensible_read)

text \<open>A strict prefix of a header cannot be parsed, and only for want of bytes.\<close>

lemma unmarshal_truncated:
  assumes "wf_header U h" and "unread s @ xs = header_write U h []" and "xs \<noteq> []"
    and "unread t = header_write U h []"
  shows "\<exists>e s'. unmarshal U read_exact s = (Inl (Io e), s')"
proof (rule ccontr)
  assume no_io: "\<nexists>e s'. unmarshal U read_exact s = (Inl (Io e), s')"
  obtain r s' where run: "unmarshal U read_exact s = (r, s')" by (cases "unmarshal U read_exact s")
  with no_io have r: "\<forall>e. r \<noteq> Inl (Io e)" by auto
  from assms(2,4) have t: "unread t = unread s @ xs" by simp
  obtain t' where t': "unmarshal U read_exact t = (r, t')"
    and ext: "\<forall>a. r = Inr a \<longrightarrow> unread t' = unread s' @ xs"
    by (rule extensibleD [OF extensible_unmarshal t run r])
  from assms(1,4) have "yields unread (unmarshal U read_exact) t h []"
    by (intro yields_unmarshal) simp_all
  then obtain t'' where "unmarshal U read_exact t = (Inr h, t'')" and u: "unread t'' = []"
    by (rule yieldsE)
  with t' have "r = Inr h" and "t' = t''" by simp_all
  with ext u assms(3) show False by simp
qed

end

section \<open>The two streams of the transport\<close>

lemma cursor_traced:
  "traced (\<lambda>s t. cursor_inner t = cursor_inner s
       \<and> (cursor_position s \<le> length (cursor_inner s) \<longrightarrow> cursor_position t \<le> length (cursor_inner t)))
     cursor_read_exact (unmarshal U cursor_read_exact)"
  by (rule traced_unmarshal)
     (auto intro!: reflpI transpI simp: cursor_read_exact_def cursor_unread_def split: if_splits)

lemma cursor_unmarshal_inner:
  assumes "unmarshal U cursor_read_exact (cursor_new dg) = (r, c)"
  shows "cursor_inner c = dg" and "cursor_position c \<le> length dg"
  using tracedD(1) [OF cursor_traced assms] by (auto simp: cursor_new_def)

lemma cursor_unmarshal_Io:
  assumes "unmarshal U cursor_read_exact s = (Inl (Io e), c)"
  shows "e = UnexpectedEof"
  using tracedD(2) [OF cursor_traced assms refl]
  by (auto simp: cursor_read_exact_def split: if_splits)

lemma stream_read_exact_end:
  "stream_read_exact n s = (r, t) \<Longrightarrow> stream_end t = stream_end s \<and> (\<forall>e. r = Inl e \<longrightarrow> e = stream_end s)"
  by (auto simp: stream_read_exact_def split: prod.splits option.splits)

lemma stream_traced:
  "traced (\<lambda>s t. stream_end t = stream_end s) stream_read_exact (unmarshal U stream_read_exact)"
  by (rule traced_unmarshal)
     (auto intro!: reflpI transpI dest: stream_read_exact_end)

lemma stream_unmarshal_end:
  assumes "unmarshal U stream_read_exact s = (r, s')"
  shows "stream_end s' = stream_end s" and "r = Inl (Io e) \<Longrightarrow> e = stream_end s"
  using tracedD [OF stream_traced assms] by (auto dest: stream_read_exact_end)

text \<open>A datagram that starts with a written header: the header and the position after it.\<close>

lemma cursor_unmarshal_written:
  assumes "wf_header U h"
  shows "unmarshal U cursor_read_exact (cursor_new (header_write U h [] @ payload)) =
    (Inr h, \<lparr>cursor_inner = header_write U h [] @ payload,
             cursor_position = length (header_write U h [])\<rparr>)"
proof -
  let ?dg = "header_write U h [] @ payload"
  have "yields cursor_unread (unmarshal U cursor_read_exact) (cursor_new ?dg) h payload"
    using assms by (intro cursor_reader.yields_unmarshal) simp_all
  then obtain c where run: "unmarshal U cursor_read_exact (cursor_new ?dg) = (Inr h, c)"
    and c: "cursor_unread c = payload"
    by (rule yieldsE)
  from cursor_unmarshal_inner [OF run] c
  have inner: "cursor_inner c = ?dg" and "cursor_position c \<le> length ?dg"
    and "drop (cursor_position c) ?dg = payload"
    by (simp_all add: cursor_unread_def)
  then have "cursor_position c = length (header_write U h [])"
    by (metis add_diff_cancel_right' diff_diff_cancel length_append length_drop)
  with inner have "c = \<lparr>cursor_inner = ?dg, cursor_position = length (header_write U h [])\<rparr>"
    by simp
  with run show ?thesis by simp
qed

lemma stream_unmarshal_written:
  assumes "wf_header U h" and "concat chunks = header_write U h [] @ payload"
  obtains rest where "async_unmarshal U stream_read_exact \<lparr>stream_chunks = chunks, stream_end = e\<rparr> =
      (Inr h, \<lparr>stream_chunks = rest, stream_end = e\<rparr>)" and "concat rest = payload"
proof -
  let ?s = "\<lparr>stream_chunks = chunks, stream_end = e\<rparr>"
  have "yields stream_unread (unmarshal U stream_read_exact) ?s h payload"
    using assms by (intro stream_reader.yields_unmarshal) (simp_all add: stream_unread_def)
  then obtain s' where run: "unmarshal U stream_read_exact ?s = (Inr h, s')"
    and s': "stream_unread s' = payload"
    by (rule yieldsE)
  from stream_unmarshal_end(1) [OF run] have "s' = \<lparr>stream_chunks = stream_chunks s', stream_end = e\<rparr>"
    by simp
  with run s' that [of "stream_chunks s'"] show thesis
    by (simp add: async_unmarshal_eq stream_unread_def)
qed

section \<open>Properties\<close>

text \<open>
  C11: a header that was marshalled is unmarshalled to itself from a QUIC stream, however the
  transport cuts the stream into pieces, and exactly the payload behind it is left to be read.
\<close>

theorem header_stream_roundtrip:
  assumes "wf_header U h" and "concat chunks = header_write U h [] @ payload"
  shows "\<exists>rest. async_unmarshal U stream_read_exact \<lparr>stream_chunks = chunks, stream_end = e\<rparr> =
      (Inr h, \<lparr>stream_chunks = rest, stream_end = e\<rparr>) \<and> concat rest = payload"
  using stream_unmarshal_written [OF assms] by metis

theorem header_stream_roundtrip_witness:
  "\<exists>rest. async_unmarshal bytes_uuid_lib stream_read_exact
      \<lparr>stream_chunks = [[5], [3, 1], [2, 9], [8]], stream_end = UnexpectedEof\<rparr> =
      (Inr (Dissociate \<lparr>dh_assoc_id = 258\<rparr>), \<lparr>stream_chunks = rest, stream_end = UnexpectedEof\<rparr>)
      \<and> concat rest = [9, 8]"
proof -
  let ?h = "Dissociate \<lparr>dh_assoc_id = 258\<rparr>"
  have "concat [[5], [3, 1], [2, 9], [8]] = header_write bytes_uuid_lib ?h [] @ [9, 8]"
    by (simp add: header_write_def dissociate_write_def put_defs VERSION_def
        dissociate_type_code_def u16_to_be_bytes_def drop_bit_eq_div)
  from header_stream_roundtrip [OF _ this] show ?thesis by simp
qed

text \<open>
  C22: the parser accepts canonical bytes only. If a datagram parses as a header then the datagram
  is what writing this header produces, followed by the bytes after the cursor, and the header is
  well formed: no two encodings of one header, no value the encoder could not have sent.
\<close>

theorem header_parse_canonical:
  assumes "uuid_lib_ok U" and "unmarshal U cursor_read_exact (cursor_new dg) = (Inr h, c)"
  shows "wf_header U h \<and> dg = header_write U h [] @ drop (cursor_position c) dg"
proof -
  have "cursor_unread (cursor_new dg) = header_write U h [] @ cursor_unread c \<and> wf_header U h"
    using cursor_reader.unmarshal_sound [OF assms(2,1)] .
  with cursor_unmarshal_inner [OF assms(2)] show ?thesis
    by (simp add: cursor_unread_def cursor_new_def)
qed

theorem header_parse_canonical_witness:
  "wf_header bytes_uuid_lib (Heartbeat HeartbeatHeader)
   \<and> [5, 4, 77] = header_write bytes_uuid_lib (Heartbeat HeartbeatHeader) [] @ drop 2 [5, 4, 77]"
proof -
  have "unmarshal bytes_uuid_lib cursor_read_exact (cursor_new [5, 4, 77]) =
      (Inr (Heartbeat HeartbeatHeader), \<lparr>cursor_inner = [5, 4, 77], cursor_position = 2\<rparr>)"
    using cursor_unmarshal_written [of bytes_uuid_lib "Heartbeat HeartbeatHeader" "[77]"]
    by (simp add: header_write_def heartbeat_write_def put_defs VERSION_def heartbeat_type_code_def)
  from header_parse_canonical [OF bytes_uuid_lib_ok this] show ?thesis by simp
qed

text \<open>
  A header cut off anywhere is reported as the end of the stream: the datagram parser says
  \<open>UnexpectedEof\<close>, the stream parser the error the stream ended with, and never a value or a
  protocol error.
\<close>

theorem header_truncated_is_io_error:
  assumes "wf_header U h" and "n < length (header_write U h [])"
  shows "fst (unmarshal U cursor_read_exact (cursor_new (take n (header_write U h []))))
           = Inl (Io UnexpectedEof)
    \<and> (\<forall>chunks e. concat chunks = take n (header_write U h []) \<longrightarrow>
        fst (async_unmarshal U stream_read_exact \<lparr>stream_chunks = chunks, stream_end = e\<rparr>)
           = Inl (Io e))"
proof (intro conjI allI impI)
  let ?w = "header_write U h []"
  have split: "take n ?w @ drop n ?w = ?w" "drop n ?w \<noteq> []" using assms(2) by auto
  have "\<exists>e s'. unmarshal U cursor_read_exact (cursor_new (take n ?w)) = (Inl (Io e), s')"
    by (rule cursor_reader.unmarshal_truncated [where t = "cursor_new ?w", OF assms(1) _ split(2)])
       (simp_all add: split)
  then show "fst (unmarshal U cursor_read_exact (cursor_new (take n ?w))) = Inl (Io UnexpectedEof)"
    using cursor_unmarshal_Io by fastforce
  fix chunks e
  assume chunks: "concat chunks = take n ?w"
  let ?s = "\<lparr>stream_chunks = chunks, stream_end = e\<rparr>"
  have "\<exists>e' s'. unmarshal U stream_read_exact ?s = (Inl (Io e'), s')"
    by (rule stream_reader.unmarshal_truncated [OF assms(1) _ split(2),
          where t = "\<lparr>stream_chunks = [?w], stream_end = e\<rparr>"])
       (simp_all add: stream_unread_def chunks split)
  then show "fst (async_unmarshal U stream_read_exact ?s) = Inl (Io e)"
    using stream_unmarshal_end(2) by (fastforce simp: async_unmarshal_eq)
qed

theorem header_truncated_is_io_error_witness:
  "fst (unmarshal bytes_uuid_lib cursor_read_exact (cursor_new [5, 3, 1])) = Inl (Io UnexpectedEof)"
proof -
  let ?h = "Dissociate \<lparr>dh_assoc_id = 258\<rparr>"
  have w: "header_write bytes_uuid_lib ?h [] = [5, 3, 1, 2]"
    by (simp add: header_write_def dissociate_write_def put_defs VERSION_def
        dissociate_type_code_def u16_to_be_bytes_def drop_bit_eq_div)
  have "wf_header bytes_uuid_lib ?h" and "3 < length (header_write bytes_uuid_lib ?h [])"
    by (simp_all add: w)
  from header_truncated_is_io_error [OF this] show ?thesis by (simp add: w)
qed

text \<open>
  What is rejected, and as what: a first byte other than the version as \<open>InvalidVersion\<close>
  before anything else is looked at, a command byte above 4 as \<open>InvalidCommand\<close>, and in a
  \<open>Connect\<close> an address type that is none of the four as \<open>InvalidAddressType\<close>; each error
  carries the byte.
\<close>

theorem header_rejections:
  "(v \<noteq> VERSION \<longrightarrow>
      fst (unmarshal U cursor_read_exact (cursor_new (v # rest))) = Inl (InvalidVersion v))
   \<and> (4 < cmd \<longrightarrow>
      fst (unmarshal U cursor_read_exact (cursor_new (VERSION # cmd # rest))) = Inl (InvalidCommand cmd))
   \<and> (ty \<notin> {TYPE_CODE_NONE, TYPE_CODE_DOMAIN, TYPE_CODE_IPV4, TYPE_CODE_IPV6} \<longrightarrow>
      fst (unmarshal U cursor_read_exact (cursor_new (VERSION # connect_type_code # ty # rest)))
        = Inl (InvalidAddressType ty))"
proof (intro conjI impI)
  assume "v \<noteq> VERSION"
  then show "fst (unmarshal U cursor_read_exact (cursor_new (v # rest))) = Inl (InvalidVersion v)"
    by (simp add: unmarshal_def reader_bind_def reader_io_def cursor_read_exact_def
        cursor_unread_def cursor_new_def)
next
  assume "4 < cmd"
  then have "cmd \<noteq> 0" "cmd \<noteq> 1" "cmd \<noteq> 2" "cmd \<noteq> 3" "cmd \<noteq> 4" by auto
  then show "fst (unmarshal U cursor_read_exact (cursor_new (VERSION # cmd # rest)))
      = Inl (InvalidCommand cmd)"
    by (simp add: unmarshal_def reader_bind_def reader_io_def cursor_read_exact_def
        cursor_unread_def cursor_new_def command_type_codes Let_def)
next
  assume "ty \<notin> {TYPE_CODE_NONE, TYPE_CODE_DOMAIN, TYPE_CODE_IPV4, TYPE_CODE_IPV6}"
  then show "fst (unmarshal U cursor_read_exact (cursor_new (VERSION # connect_type_code # ty # rest)))
      = Inl (InvalidAddressType ty)"
    by (simp add: unmarshal_def reader_bind_def reader_io_def cursor_read_exact_def
        cursor_unread_def cursor_new_def command_type_codes Let_def reader_map_def
        connect_read_def address_read_def)
qed

theorem header_rejections_witness:
  "fst (unmarshal bytes_uuid_lib cursor_read_exact (cursor_new [4, 0])) = Inl (InvalidVersion 4)
   \<and> fst (unmarshal bytes_uuid_lib cursor_read_exact (cursor_new [VERSION, 9])) = Inl (InvalidCommand 9)
   \<and> fst (unmarshal bytes_uuid_lib cursor_read_exact (cursor_new [VERSION, connect_type_code, 3]))
       = Inl (InvalidAddressType 3)"
  using header_rejections [of 4 bytes_uuid_lib "[0]" 9 3] header_rejections [of 4 bytes_uuid_lib "[]" 9 3]
  by (simp add: VERSION_def address_type_codes)

text \<open>
  \<open>Address::write\<close> stores the length of a domain name in one byte (\<open>domain.len() as u8\<close>).
  A name of 256 bytes or more is therefore written so that the peer reads another target: the
  name's first \<open>length mod 256\<close> bytes, with the two bytes of the name behind them as the port.
\<close>

theorem overlong_domain_is_misparsed:
  fixes domain :: bytes
  defines "n \<equiv> length domain mod 256"
  assumes "256 \<le> length domain" and "utf8_valid (take n domain)"
  shows "fst (unmarshal U cursor_read_exact (cursor_new
      (header_write U (Connect \<lparr>ch_addr = DomainAddress domain port\<rparr>) []))) =
    Inr (Connect \<lparr>ch_addr =
      DomainAddress (take n domain) (u16_from_be_bytes (domain ! n) (domain ! (n + 1)))\<rparr>)"
proof -
  let ?port = "u16_from_be_bytes (domain ! n) (domain ! (n + 1))"
  let ?h = "Connect \<lparr>ch_addr = DomainAddress (take n domain) ?port\<rparr> :: 'a header"
  have n: "n < 256" by (simp add: n_def)
  have "n = (length domain - 256) mod 256" using assms(2) by (simp add: n_def le_mod_geq)
  then have "n \<le> length domain - 256" by simp
  then have n2: "n + 2 \<le> length domain" using assms(2) by linarith
  have len: "(of_nat (length domain) :: u8) = of_nat n"
    by (rule word_eq_iff_unsigned [THEN iffD2]) (simp add: n_def unsigned_of_nat take_bit_nat_def)
  have "drop n domain = domain ! n # domain ! Suc n # drop (Suc (Suc n)) domain"
    using n2 by (simp add: Cons_nth_drop)
  then have dom: "domain = take n domain @ domain ! n # domain ! Suc n # drop (Suc (Suc n)) domain"
    by (metis append_take_drop_id)
  have "header_write U (Connect \<lparr>ch_addr = DomainAddress domain port\<rparr>) [] =
      header_write U ?h [] @ drop (n + 2) domain @ u16_to_be_bytes port"
    using n n2 len
    by (simp add: header_write_def connect_write_def put_defs Let_def min_absorb2, intro dom)
  moreover have "wf_header U ?h" using n assms(3) by simp
  ultimately show ?thesis by (simp add: cursor_unmarshal_written)
qed

theorem overlong_domain_is_misparsed_witness:
  "fst (unmarshal bytes_uuid_lib cursor_read_exact (cursor_new (header_write bytes_uuid_lib
      (Connect \<lparr>ch_addr = DomainAddress (replicate 256 97) 443\<rparr>) []))) =
    Inr (Connect \<lparr>ch_addr = DomainAddress [] (u16_from_be_bytes 97 97)\<rparr>)"
  using overlong_domain_is_misparsed [of "replicate 256 97" bytes_uuid_lib 443] by simp

end
