(* ===== verification/Tuic_Fragments.thy ===== *)
theory Tuic_Fragments
  imports Tuic_Protocol
begin

text \<open>
  Fragmentation of an outgoing UDP packet: the sending half of \<^verbatim>\<open>tuic/src/model/packet.rs\<close>, the
  model of an outgoing \<open>Packet\<close> and the iterator \<open>Fragments\<close>. The iterator is a state with the
  operations \<open>fragments_new\<close> and \<open>fragments_next\<close>; \<open>fragments_run\<close> is the \<open>for\<close> loop of the
  callers over it. The lemmas compare the loop with a reference that cuts the payload into
  chunks.
\<close>

section \<open>The outgoing packet\<close>

record packet_tx =
  ptx_assoc_id :: u16
  ptx_pkt_id :: u16
  ptx_addr :: address
  ptx_max_pkt_size :: nat

definition packet_tx_new :: "u16 \<Rightarrow> u16 \<Rightarrow> address \<Rightarrow> nat \<Rightarrow> packet_tx" where
  "packet_tx_new assoc_id pkt_id addr max_pkt_size =
     \<lparr>ptx_assoc_id = assoc_id, ptx_pkt_id = pkt_id, ptx_addr = addr,
      ptx_max_pkt_size = max_pkt_size\<rparr>"

section \<open>The iterator\<close>

record fragments =
  fr_assoc_id :: u16
  fr_pkt_id :: u16
  fr_addr :: address
  fr_max_pkt_size :: nat
  fr_frag_total :: u8
  fr_next_frag_id :: u8
  fr_next_frag_start :: nat
  fr_payload :: bytes

text \<open>The length of a packet header that carries the address, as \<open>Header::Packet(..).len()\<close>.\<close>

definition packet_header_len :: "address \<Rightarrow> nat" where
  "packet_header_len addr = header_len (Packet (packet_header_new 0 0 0 0 0 addr) :: unit header)"

definition fragments_new :: "bool \<Rightarrow> u16 \<Rightarrow> u16 \<Rightarrow> address \<Rightarrow> nat \<Rightarrow> bytes \<Rightarrow> fragments outcome" where
  "fragments_new oc assoc_id pkt_id addr max_pkt_size payload =
     outcome_bind (usize_sub oc max_pkt_size (packet_header_len addr)) (\<lambda>first_frag_size.
     outcome_bind (usize_sub oc max_pkt_size (packet_header_len NoAddress)) (\<lambda>frag_size_addr_none.
     outcome_bind
       (if first_frag_size < length payload
        then outcome_bind (usize_div (length payload - first_frag_size) frag_size_addr_none)
               (\<lambda>q. Returns (of_nat (1 + q + 1)))
        else Returns 1) (\<lambda>frag_total.
     Returns \<lparr>fr_assoc_id = assoc_id, fr_pkt_id = pkt_id, fr_addr = addr,
       fr_max_pkt_size = max_pkt_size, fr_frag_total = frag_total, fr_next_frag_id = 0,
       fr_next_frag_start = 0, fr_payload = payload\<rparr>)))"

definition into_fragments :: "bool \<Rightarrow> packet_tx \<Rightarrow> bytes \<Rightarrow> fragments outcome" where
  "into_fragments oc tx payload =
     fragments_new oc (ptx_assoc_id tx) (ptx_pkt_id tx) (ptx_addr tx) (ptx_max_pkt_size tx) payload"

text \<open>
  One step. The index expression \<open>self.payload.as_ref()[self.next_frag_start]\<close> panics when the
  start is not inside the payload; the slice made from the raw pointer is the bytes from there.
\<close>

definition fragments_next :: "bool \<Rightarrow> fragments \<Rightarrow> (('u header \<times> bytes) option \<times> fragments) outcome"
  where
  "fragments_next oc f =
     (if fr_next_frag_id f < fr_frag_total f then
        let (addr, left) = address_take (fr_addr f) in
        outcome_bind (usize_sub oc (fr_max_pkt_size f) (packet_header_len addr)) (\<lambda>payload_size.
        outcome_bind (usize_add oc (fr_next_frag_start f) payload_size) (\<lambda>reach.
        let next_frag_end = min reach (length (fr_payload f)) in
        outcome_bind (usize_sub oc next_frag_end (fr_next_frag_start f)) (\<lambda>n.
        let header = Packet (packet_header_new (fr_assoc_id f) (fr_pkt_id f) (fr_frag_total f)
              (fr_next_frag_id f) (of_nat n) addr) in
        if fr_next_frag_start f < length (fr_payload f) then
          Returns (Some (header, take n (drop (fr_next_frag_start f) (fr_payload f))),
            f\<lparr>fr_addr := left, fr_next_frag_id := fr_next_frag_id f + 1,
              fr_next_frag_start := next_frag_end\<rparr>)
        else Panics IndexOutOfBounds)))
      else Returns (None, f))"

definition fragments_len :: "fragments \<Rightarrow> nat" where
  "fragments_len f = unat (fr_frag_total f)"

text \<open>
  The loop \<open>for (header, frag) in fragments\<close>: the items it sees and how it ends, \<open>None\<close> when the
  iterator is exhausted, a panic otherwise.
\<close>

lemma fragments_next_measure:
  assumes "fragments_next oc f = Returns (Some item, f')"
  shows "unat (fr_frag_total f') - unat (fr_next_frag_id f')
    < unat (fr_frag_total f) - unat (fr_next_frag_id f)"
proof -
  from assms have lt: "fr_next_frag_id f < fr_frag_total f"
    by (auto simp: fragments_next_def split: if_splits)
  with assms have "fr_frag_total f' = fr_frag_total f" "fr_next_frag_id f' = fr_next_frag_id f + 1"
    by (auto simp: fragments_next_def address_take_def Let_def outcome_bind_eq_Returns split: if_splits)
  with lt unat_u8_Suc_less [OF lt] show ?thesis by (simp add: word_less_nat_alt)
qed

function fragments_run :: "bool \<Rightarrow> fragments \<Rightarrow> ('u header \<times> bytes) list \<times> panic option" where
  "fragments_run oc f =
     (case fragments_next oc f of
        Panics p \<Rightarrow> ([], Some p)
      | Returns (None, f') \<Rightarrow> ([], None)
      | Returns (Some item, f') \<Rightarrow>
          (case fragments_run oc f' of (items, fin) \<Rightarrow> (item # items, fin)))"
  by pat_completeness auto
termination
  by (relation "measure (\<lambda>(oc, f). unat (fr_frag_total f) - unat (fr_next_frag_id f))")
     (auto dest: fragments_next_measure)

declare fragments_run.simps [simp del]

section \<open>The reference: cutting a payload\<close>

function chunk :: "nat \<Rightarrow> 'a list \<Rightarrow> 'a list list" where
  "chunk n xs = (if xs = [] \<or> n = 0 then [] else take n xs # chunk n (drop n xs))"
  by pat_completeness auto
termination
  by (relation "measure (\<lambda>(n, xs). length xs)") auto

declare chunk.simps [simp del]

lemma chunk_Nil [simp]: "chunk n [] = []"
  by (simp add: chunk.simps)

lemma chunk_step: "xs \<noteq> [] \<Longrightarrow> 0 < n \<Longrightarrow> chunk n xs = take n xs # chunk n (drop n xs)"
  by (simp add: chunk.simps [of n xs])

lemma concat_chunk [simp]: "0 < n \<Longrightarrow> concat (chunk n xs) = xs"
proof (induction n xs rule: chunk.induct)
  case (1 n xs)
  then show ?case by (cases "xs = []") (simp_all add: chunk_step)
qed

lemma chunk_bound: "c \<in> set (chunk n xs) \<Longrightarrow> c \<noteq> [] \<and> length c \<le> n"
proof (induction n xs rule: chunk.induct)
  case (1 n xs)
  then show ?case by (cases "xs = [] \<or> n = 0") (auto simp: chunk.simps [of n xs])
qed

lemma length_chunk: "0 < n \<Longrightarrow> length (chunk n xs) = (length xs + n - 1) div n"
proof (induction n xs rule: chunk.induct)
  case (1 n xs)
  show ?case
  proof (cases "xs = []")
    case True
    with 1 show ?thesis by simp
  next
    case False
    with 1 have "length (chunk n (drop n xs)) = (length xs - n + n - 1) div n" by simp
    moreover obtain m where m: "length xs = Suc m" using False by (cases xs) auto
    moreover have "(length xs - n + n - 1) div n = m div n"
      using m \<open>0 < n\<close> by (cases "n \<le> length xs") simp_all
    moreover have "(length xs + n - 1) div n = Suc (m div n)"
      using m \<open>0 < n\<close> by (simp add: div_add_self2)
    ultimately show ?thesis using False \<open>0 < n\<close> by (simp add: chunk_step)
  qed
qed

lemma ceil_div:
  fixes d n :: nat
  assumes "0 < n"
  shows "(d + n - 1) div n = d div n + (if d mod n = 0 then 0 else 1)"
proof -
  define m where "m = d mod n - 1"
  define x where "x = (if d mod n = 0 then n - 1 else n + m)"
  have m: "m < n" using mod_less_divisor [OF assms, of d] by (simp only: m_def)
  have "d + n - 1 = x + d div n * n"
    using div_mult_mod_eq [of d n] assms by (auto simp: x_def m_def)
  then have "(d + n - 1) div n = d div n + x div n"
    using assms by simp
  moreover have "x div n = (if d mod n = 0 then 0 else 1)"
    using m assms by (simp add: x_def div_add_self1)
  ultimately show ?thesis by simp
qed

lemma length_chunk_mod:
  "0 < n \<Longrightarrow> length (chunk n xs) = length xs div n + (if length xs mod n = 0 then 0 else 1)"
  by (simp only: length_chunk ceil_div)

text \<open>The items a list of chunks makes, numbered from \<open>k\<close>; only the caller's first has an address.\<close>

fun number_items :: "u16 \<Rightarrow> u16 \<Rightarrow> u8 \<Rightarrow> nat \<Rightarrow> address \<Rightarrow> bytes list \<Rightarrow> ('u header \<times> bytes) list" where
  "number_items a p t k addr [] = []"
| "number_items a p t k addr (c # cs) =
     (Packet (packet_header_new a p t (of_nat k) (of_nat (length c)) addr), c)
       # number_items a p t (Suc k) NoAddress cs"

lemma length_number_items [simp]: "length (number_items a p t k addr cs) = length cs"
  by (induction cs arbitrary: k addr) simp_all

lemma map_snd_number_items [simp]: "map snd (number_items a p t k addr cs) = cs"
  by (induction cs arbitrary: k addr) simp_all

lemma nth_number_items:
  "i < length cs \<Longrightarrow> number_items a p t k addr cs ! i =
     (Packet (packet_header_new a p t (of_nat (k + i)) (of_nat (length (cs ! i)))
        (if i = 0 then addr else NoAddress)), cs ! i)"
proof (induction cs arbitrary: k addr i)
  case Nil
  then show ?case by simp
next
  case (Cons c cs)
  then show ?case by (cases i) (simp_all del: of_nat_Suc of_nat_add)
qed

section \<open>One step of the iterator\<close>

lemma packet_header_len_eq: "packet_header_len addr = 10 + address_len addr"
  by (simp add: packet_header_len_def packet_header_new_def packet_len_def)

lemma packet_header_len_NoAddress [simp]: "packet_header_len NoAddress = 11"
  by (simp add: packet_header_len_eq)

lemma packet_header_len_ge [simp]: "11 \<le> packet_header_len addr"
  using address_len_pos [of addr] by (simp add: packet_header_len_eq Suc_le_eq)

lemma header_len_Packet: "header_len (Packet h) = packet_header_len (ph_addr h)"
  by (simp add: packet_header_len_eq packet_len_def)

lemma fragments_next_done:
  "\<not> fr_next_frag_id f < fr_frag_total f \<Longrightarrow> fragments_next oc f = Returns (None, f)"
  by (simp add: fragments_next_def)

lemma fragments_next_item:
  fixes f :: fragments
  defines "c \<equiv> take (fr_max_pkt_size f - packet_header_len (fr_addr f))
      (drop (fr_next_frag_start f) (fr_payload f))"
  assumes "fr_next_frag_id f < fr_frag_total f"
    and "packet_header_len (fr_addr f) \<le> fr_max_pkt_size f"
    and "fr_next_frag_start f < length (fr_payload f)"
    and "length (fr_payload f) + fr_max_pkt_size f < usize_modulus"
  shows "fragments_next oc f = Returns
    (Some (Packet (packet_header_new (fr_assoc_id f) (fr_pkt_id f) (fr_frag_total f)
        (fr_next_frag_id f) (of_nat (length c)) (fr_addr f)), c),
     f\<lparr>fr_addr := NoAddress, fr_next_frag_id := fr_next_frag_id f + 1,
       fr_next_frag_start := fr_next_frag_start f + length c\<rparr>)"
proof -
  let ?start = "fr_next_frag_start f" and ?len = "length (fr_payload f)"
  let ?sz = "fr_max_pkt_size f - packet_header_len (fr_addr f)"
  have len: "length c = min (?len - ?start) ?sz" by (simp add: c_def min.commute)
  have "?start + ?sz < usize_modulus" using assms by linarith
  moreover have "min (?start + ?sz) ?len = ?start + length c"
    using assms(4) len by linarith
  moreover have "take (length c) (drop ?start (fr_payload f)) = c"
    unfolding len by (simp add: c_def min_def)
  ultimately show ?thesis using assms
    by (simp add: fragments_next_def address_take_def Let_def)
qed

lemma fragments_next_beyond:
  assumes "fr_next_frag_id f < fr_frag_total f"
    and "packet_header_len (fr_addr f) \<le> fr_max_pkt_size f"
    and "fr_next_frag_start f = length (fr_payload f)"
    and "length (fr_payload f) + fr_max_pkt_size f < usize_modulus"
  shows "fragments_next oc f = Panics IndexOutOfBounds"
  using assms by (simp add: fragments_next_def address_take_def Let_def)

section \<open>The loop against the reference\<close>

text \<open>
  After the first fragment: of the chunks of what is left as many become items as the announced
  total has numbers left, and when there are too few chunks the loop ends in a panic.
\<close>

definition rest_chunks :: "fragments \<Rightarrow> bytes list" where
  "rest_chunks f = chunk (fr_max_pkt_size f - 11) (drop (fr_next_frag_start f) (fr_payload f))"

lemma fragments_run_tail:
  assumes "r = unat (fr_frag_total f) - unat (fr_next_frag_id f)"
    and "fr_addr f = NoAddress" and "11 < fr_max_pkt_size f"
    and "fr_next_frag_start f \<le> length (fr_payload f)"
    and "length (fr_payload f) + fr_max_pkt_size f < usize_modulus"
  shows "(fragments_run oc f :: ('u header \<times> bytes) list \<times> panic option) =
    (number_items (fr_assoc_id f) (fr_pkt_id f) (fr_frag_total f) (unat (fr_next_frag_id f))
       NoAddress (take r (rest_chunks f)),
     if r \<le> length (rest_chunks f) then None else Some IndexOutOfBounds)"
  using assms
proof (induction r arbitrary: f)
  case 0
  then have "\<not> fr_next_frag_id f < fr_frag_total f" by (simp add: word_less_nat_alt)
  then show ?case by (simp add: fragments_run.simps fragments_next_done)
next
  case (Suc r)
  then have lt: "fr_next_frag_id f < fr_frag_total f" by (simp add: word_less_nat_alt)
  show ?case
  proof (cases "fr_next_frag_start f = length (fr_payload f)")
    case True
    with Suc.prems lt show ?thesis
      by (simp add: fragments_run.simps fragments_next_beyond rest_chunks_def)
  next
    case False
    define c where "c = take (fr_max_pkt_size f - 11) (drop (fr_next_frag_start f) (fr_payload f))"
    define f' where "f' = f\<lparr>fr_addr := NoAddress, fr_next_frag_id := fr_next_frag_id f + 1,
       fr_next_frag_start := fr_next_frag_start f + length c\<rparr>"
    have step: "fragments_next oc f = Returns (Some (Packet (packet_header_new (fr_assoc_id f)
        (fr_pkt_id f) (fr_frag_total f) (fr_next_frag_id f) (of_nat (length c)) NoAddress), c), f')"
      using fragments_next_item [OF lt] Suc.prems False by (simp add: c_def f'_def)
    have cs: "rest_chunks f = c # rest_chunks f'"
    proof -
      have "drop (fr_max_pkt_size f - 11) (drop (fr_next_frag_start f) (fr_payload f)) =
          drop (fr_next_frag_start f + length c) (fr_payload f)"
        by (simp add: c_def min_def add.commute)
      with False Suc.prems show ?thesis
        by (simp add: rest_chunks_def f'_def c_def chunk_step)
    qed
    have "(fragments_run oc f' :: ('u header \<times> bytes) list \<times> panic option) =
       (number_items (fr_assoc_id f') (fr_pkt_id f') (fr_frag_total f')
        (unat (fr_next_frag_id f')) NoAddress (take r (rest_chunks f')),
       if r \<le> length (rest_chunks f') then None else Some IndexOutOfBounds)"
      by (rule Suc.IH [of f'])
        (use Suc.prems unat_u8_Suc_less [OF lt] in \<open>simp_all add: f'_def c_def\<close>)
    then show ?thesis
      using unat_u8_Suc_less [OF lt] by (simp add: fragments_run.simps [of oc f] step cs f'_def)
  qed
qed

text \<open>
  The reference for a whole payload: the first chunk leaves room for the address, the others do
  not carry it. \<open>frag_count\<close> is the number the code computes before it narrows it to eight bits.
\<close>

definition cut_payload :: "nat \<Rightarrow> address \<Rightarrow> bytes \<Rightarrow> bytes list" where
  "cut_payload sz addr payload =
     (if payload = [] then []
      else take (sz - packet_header_len addr) payload
        # chunk (sz - packet_header_len NoAddress) (drop (sz - packet_header_len addr) payload))"

definition frag_count :: "nat \<Rightarrow> address \<Rightarrow> bytes \<Rightarrow> nat" where
  "frag_count sz addr payload =
     (if sz - packet_header_len addr < length payload
      then 1 + (length payload - (sz - packet_header_len addr)) div (sz - packet_header_len NoAddress) + 1
      else 1)"

lemma frag_count_pos [simp]: "0 < frag_count sz addr payload"
  by (simp add: frag_count_def)

lemma concat_cut_payload [simp]: "11 < sz \<Longrightarrow> concat (cut_payload sz addr payload) = payload"
  by (simp add: cut_payload_def)

lemma cut_payload_bound:
  assumes "i < length (cut_payload sz addr payload)"
  shows "length (cut_payload sz addr payload ! i)
    \<le> sz - packet_header_len (if i = 0 then addr else NoAddress)"
  using assms chunk_bound [OF nth_mem]
  by (cases i) (auto simp: cut_payload_def split: if_splits)

lemma fragments_new_Returns:
  assumes "packet_header_len addr \<le> sz" and "11 < sz"
  shows "fragments_new oc a p addr sz payload = Returns
    \<lparr>fr_assoc_id = a, fr_pkt_id = p, fr_addr = addr, fr_max_pkt_size = sz,
     fr_frag_total = of_nat (frag_count sz addr payload), fr_next_frag_id = 0,
     fr_next_frag_start = 0, fr_payload = payload\<rparr>"
  using assms by (simp add: fragments_new_def frag_count_def)

lemma length_cut_payload_le_frag_count:
  assumes "11 < sz"
  shows "length (cut_payload sz addr payload) \<le> frag_count sz addr payload"
    and "frag_count sz addr payload \<le> length (cut_payload sz addr payload) \<longleftrightarrow>
      payload \<noteq> [] \<and> (length payload \<le> sz - packet_header_len addr \<or>
        (length payload - (sz - packet_header_len addr)) mod (sz - 11) \<noteq> 0)"
proof -
  from assms show "length (cut_payload sz addr payload) \<le> frag_count sz addr payload"
    and "frag_count sz addr payload \<le> length (cut_payload sz addr payload) \<longleftrightarrow>
      payload \<noteq> [] \<and> (length payload \<le> sz - packet_header_len addr \<or>
        (length payload - (sz - packet_header_len addr)) mod (sz - 11) \<noteq> 0)"
    by (auto simp: cut_payload_def frag_count_def length_chunk_mod)
qed

lemma fragments_run_start:
  assumes "packet_header_len addr \<le> sz" and "11 < sz" and "length payload + sz < usize_modulus"
    and "fragments_new oc a p addr sz payload = Returns f"
  shows "(fragments_run oc f :: ('u header \<times> bytes) list \<times> panic option) =
    (number_items a p (of_nat (frag_count sz addr payload)) 0 addr
       (take (frag_count sz addr payload mod 256) (cut_payload sz addr payload)),
     if frag_count sz addr payload mod 256 \<le> length (cut_payload sz addr payload)
     then None else Some IndexOutOfBounds)"
proof -
  let ?n = "frag_count sz addr payload"
  let ?first = "take (sz - packet_header_len addr) payload"
  have total: "unat (of_nat ?n :: u8) = ?n mod 256" by (simp add: unat_of_nat)
  have f: "f = \<lparr>fr_assoc_id = a, fr_pkt_id = p, fr_addr = addr, fr_max_pkt_size = sz,
     fr_frag_total = of_nat ?n, fr_next_frag_id = 0, fr_next_frag_start = 0, fr_payload = payload\<rparr>"
    using assms fragments_new_Returns [of addr sz oc a p payload] by simp
  show ?thesis
  proof (cases "0 < (of_nat ?n :: u8)")
    case False
    then have "?n mod 256 = 0" using total by (simp add: word_less_nat_alt)
    with False show ?thesis by (simp add: f fragments_run.simps fragments_next_done)
  next
    case True
    then obtain r where r: "?n mod 256 = Suc r"
      using total by (metis gr0_conv_Suc unsigned_0 word_less_nat_alt)
    show ?thesis
    proof (cases "payload = []")
      case True
      with assms \<open>0 < of_nat ?n\<close> r show ?thesis
        by (simp add: f fragments_run.simps fragments_next_beyond cut_payload_def)
    next
      case False
      define f' where "f' = f\<lparr>fr_addr := NoAddress, fr_next_frag_id := 1,
        fr_next_frag_start := length ?first\<rparr>"
      have step: "fragments_next oc f = Returns (Some (Packet (packet_header_new a p
          (of_nat ?n) 0 (of_nat (length ?first)) addr) :: 'u header, ?first), f')"
        using fragments_next_item [of f oc] True False assms(1,3) by (simp add: f f'_def)
      have "rest_chunks f' = chunk (sz - 11) (drop (sz - packet_header_len addr) payload)"
        by (simp add: rest_chunks_def f'_def f min_def)
      then have cut: "cut_payload sz addr payload = ?first # rest_chunks f'"
        using False by (simp add: cut_payload_def)
      have "r = unat (fr_frag_total f') - unat (fr_next_frag_id f')"
        using r total by (simp add: f'_def f)
      then have "(fragments_run oc f' :: ('u header \<times> bytes) list \<times> panic option) =
        (number_items a p (of_nat ?n) 1 NoAddress
          (take r (rest_chunks f')),
         if r \<le> length (rest_chunks f') then None else Some IndexOutOfBounds)"
        using fragments_run_tail [of r f' oc] assms by (simp add: f'_def f)
      with step r cut show ?thesis by (simp add: fragments_run.simps [of oc f])
    qed
  qed
qed

section \<open>Properties\<close>



text \<open>The case in which the announced total is the number of chunks.\<close>

definition splits_evenly_into_last :: "nat \<Rightarrow> address \<Rightarrow> bytes \<Rightarrow> bool" where
  "splits_evenly_into_last sz addr payload \<longleftrightarrow>
     sz - packet_header_len addr < length payload \<and>
     (length payload - (sz - packet_header_len addr)) mod (sz - packet_header_len NoAddress) = 0"

lemma fragments_run_items:
  assumes "packet_header_len addr \<le> sz" and "11 < sz" and "length payload + sz < usize_modulus"
    and "fragments_new oc a p addr sz payload = Returns f"
    and "fragments_run oc f = (items, fin)"
  shows "items = number_items a p (of_nat (frag_count sz addr payload)) 0 addr
       (take (frag_count sz addr payload mod 256) (cut_payload sz addr payload))"
    and "fin = (if frag_count sz addr payload mod 256 \<le> length (cut_payload sz addr payload)
       then None else Some IndexOutOfBounds)"
  using trans [OF fragments_run_start [OF assms(1-4), symmetric] assms(5)] by simp_all

lemma frag_count_complete:
  assumes "11 < sz" and "payload \<noteq> []" and "\<not> splits_evenly_into_last sz addr payload"
  shows "frag_count sz addr payload = length (cut_payload sz addr payload)"
proof (rule antisym)
  show "frag_count sz addr payload \<le> length (cut_payload sz addr payload)"
    using length_cut_payload_le_frag_count(2) [of sz addr payload] assms
    by (auto simp: splits_evenly_into_last_def)
  show "length (cut_payload sz addr payload) \<le> frag_count sz addr payload"
    using length_cut_payload_le_frag_count(1) [of sz addr payload] assms by simp
qed

lemma frag_count_one_more:
  "11 < sz \<Longrightarrow> splits_evenly_into_last sz addr payload \<Longrightarrow>
    frag_count sz addr payload = Suc (length (cut_payload sz addr payload))"
  by (auto simp: frag_count_def cut_payload_def length_chunk_mod splits_evenly_into_last_def)

lemma fragments_len_new:
  assumes "packet_header_len addr \<le> sz" and "11 < sz" and "frag_count sz addr payload \<le> 255"
    and "fragments_new oc a p addr sz payload = Returns f"
  shows "fragments_len f = frag_count sz addr payload"
  using assms fragments_new_Returns [OF assms(1,2)] by (auto simp: fragments_len_def)

text \<open>What a receiver relies on in the sequence of fragments of one packet.\<close>

definition is_fragment_of :: "packet_tx \<Rightarrow> nat \<Rightarrow> nat \<Rightarrow> 'u header \<times> bytes \<Rightarrow> bool" where
  "is_fragment_of tx n i item = (case item of
     (Packet h, data) \<Rightarrow>
       ph_assoc_id h = ptx_assoc_id tx \<and> ph_pkt_id h = ptx_pkt_id tx \<and>
       unat (ph_frag_total h) = n \<and> unat (ph_frag_id h) = i \<and> unat (ph_size h) = length data \<and>
       ph_addr h = (if i = 0 then ptx_addr tx else NoAddress) \<and>
       header_len (Packet h :: 'u header) + length data \<le> ptx_max_pkt_size tx
   | _ \<Rightarrow> False)"

lemma number_items_fragments:
  assumes "packet_header_len (ptx_addr tx) \<le> ptx_max_pkt_size tx" and "11 < ptx_max_pkt_size tx"
    and "ptx_max_pkt_size tx \<le> 65535" and "cs = cut_payload (ptx_max_pkt_size tx) (ptx_addr tx) payload"
    and "length cs \<le> 255" and "i < length cs"
  shows "is_fragment_of tx (length cs) i
    (number_items (ptx_assoc_id tx) (ptx_pkt_id tx) (of_nat (length cs)) 0 (ptx_addr tx) cs ! i)"
proof -
  have "length (cs ! i) \<le> ptx_max_pkt_size tx
      - packet_header_len (if i = 0 then ptx_addr tx else NoAddress)"
    using cut_payload_bound assms by blast
  moreover from this have "length (cs ! i) < 65536" using assms(3) by linarith
  ultimately show ?thesis
    using assms by (simp add: is_fragment_of_def nth_number_items packet_header_new_def
        header_len_Packet del: header_len.simps split: if_splits)
qed

text \<open>
  C25: the fragments of a packet are a faithful cut of its payload. Unless the payload is empty or
  the bytes after the first fragment are an exact multiple of a fragment's room, and with at
  most 255 fragments, the loop ends without a panic; the data concatenates to the payload; each
  fragment has its own number, the true total, the true size, the address exactly on the first;
  and no datagram exceeds the maximal size.
\<close>

theorem fragments_cover_payload:
  assumes "packet_header_len (ptx_addr tx) \<le> ptx_max_pkt_size tx" and "11 < ptx_max_pkt_size tx"
    and "ptx_max_pkt_size tx \<le> 65535" and "length payload + ptx_max_pkt_size tx < usize_modulus"
    and "payload \<noteq> []"
    and "\<not> splits_evenly_into_last (ptx_max_pkt_size tx) (ptx_addr tx) payload"
    and "frag_count (ptx_max_pkt_size tx) (ptx_addr tx) payload \<le> 255"
    and "into_fragments oc tx payload = Returns f"
    and "fragments_run oc f = (items, fin)"
  shows "fin = None \<and> length items = fragments_len f \<and> concat (map snd items) = payload \<and>
    (\<forall>i < length items. is_fragment_of tx (length items) i (items ! i))"
proof -
  let ?cs = "cut_payload (ptx_max_pkt_size tx) (ptx_addr tx) payload"
  note new = assms(8) [unfolded into_fragments_def]
  note n = frag_count_complete [OF assms(2,5,6)]
  note run = fragments_run_items [OF assms(1,2,4) new assms(9)]
  have items: "items = number_items (ptx_assoc_id tx) (ptx_pkt_id tx) (of_nat (length ?cs)) 0
      (ptx_addr tx) ?cs" and "fin = None"
    using run assms(7) n by simp_all
  moreover have "fragments_len f = length ?cs"
    using fragments_len_new [OF assms(1,2,7) new] n by simp
  moreover have "is_fragment_of tx (length ?cs) i (items ! i)" if "i < length ?cs" for i
    using number_items_fragments [OF assms(1-3) refl _ that] assms(7) n items by simp
  ultimately show ?thesis using assms(2) by simp
qed

theorem fragments_cover_payload_witness:
  "let tx = packet_tx_new 1 2 (DomainAddress [97] 53) 16; payload = [1, 2, 3, 4, 5, 6, 7, 8];
       items = [(Packet (packet_header_new 1 2 3 0 1 (DomainAddress [97] 53)) :: unit header, [1]),
         (Packet (packet_header_new 1 2 3 1 5 NoAddress), [2, 3, 4, 5, 6]),
         (Packet (packet_header_new 1 2 3 2 2 NoAddress), [7, 8])]
   in concat (map snd items) = payload \<and>
     (\<forall>i < length items. is_fragment_of tx (length items) i (items ! i))"
proof -
  let ?tx = "packet_tx_new 1 2 (DomainAddress [97] 53) 16"
  let ?payload = "[1, 2, 3, 4, 5, 6, 7, 8] :: bytes"
  let ?items = "[(Packet (packet_header_new 1 2 3 0 1 (DomainAddress [97] 53)) :: unit header, [1]),
         (Packet (packet_header_new 1 2 3 1 5 NoAddress), [2, 3, 4, 5, 6]),
         (Packet (packet_header_new 1 2 3 2 2 NoAddress), [7, 8])] :: (unit header \<times> bytes) list"
  note eval = packet_tx_new_def packet_header_len_eq frag_count_def cut_payload_def chunk_step
    usize_modulus_def splits_evenly_into_last_def
  obtain f where f: "into_fragments True ?tx ?payload = Returns f"
    using fragments_new_Returns [of "DomainAddress [97] 53" 16 True 1 2 ?payload]
    by (auto simp: into_fragments_def eval)
  have "fragments_run True f = (?items, None)"
    using fragments_run_start [of "DomainAddress [97] 53" 16 ?payload True 1 2 f] f
    by (simp add: into_fragments_def eval)
  note cover = fragments_cover_payload [OF _ _ _ _ _ _ _ f this]
  have "(None :: panic option) = None \<and> length ?items = fragments_len f \<and>
      concat (map snd ?items) = ?payload \<and>
      (\<forall>i < length ?items. is_fragment_of ?tx (length ?items) i (?items ! i))"
    by (rule cover) (simp_all add: eval)
  then show ?thesis unfolding Let_def by blast
qed

text \<open>
  A payload whose bytes after the first fragment are an exact multiple of a fragment's room
  makes the iterator announce one fragment too many: all the data goes out under that total, and
  the loop then panics on an index beyond the payload.
\<close>

theorem exact_multiple_announces_too_many:
  assumes "packet_header_len (ptx_addr tx) \<le> ptx_max_pkt_size tx" and "11 < ptx_max_pkt_size tx"
    and "length payload + ptx_max_pkt_size tx < usize_modulus"
    and "splits_evenly_into_last (ptx_max_pkt_size tx) (ptx_addr tx) payload"
    and "frag_count (ptx_max_pkt_size tx) (ptx_addr tx) payload \<le> 255"
    and "into_fragments oc tx payload = Returns f"
    and "fragments_run oc f = (items, fin)"
  shows "fin = Some IndexOutOfBounds \<and> concat (map snd items) = payload \<and>
    fragments_len f = Suc (length items)"
proof -
  note new = assms(6) [unfolded into_fragments_def]
  note n = frag_count_one_more [OF assms(2,4)]
  show ?thesis
    using fragments_run_items [OF assms(1-3) new assms(7)] assms(2,5) n
      fragments_len_new [OF assms(1,2,5) new] by simp
qed

theorem exact_multiple_announces_too_many_witness:
  "\<exists>f items :: (unit header \<times> bytes) list.
    into_fragments True (packet_tx_new 1 2 NoAddress 13) [1, 2, 3, 4] = Returns f \<and>
    fragments_run True f = (items, Some IndexOutOfBounds) \<and>
    concat (map snd items) = [1, 2, 3, 4] \<and> fragments_len f = Suc (length items)"
proof -
  let ?tx = "packet_tx_new 1 2 NoAddress 13"
  let ?payload = "[1, 2, 3, 4] :: bytes"
  obtain f where f: "into_fragments True ?tx ?payload = Returns f"
    using fragments_new_Returns [of NoAddress 13 True 1 2 ?payload]
    by (auto simp: into_fragments_def packet_tx_new_def)
  obtain items fin where run: "fragments_run True f = (items :: (unit header \<times> bytes) list, fin)"
    by (cases "fragments_run True f :: (unit header \<times> bytes) list \<times> panic option")
  show ?thesis
    using exact_multiple_announces_too_many [OF _ _ _ _ _ f run] f run
    by (simp add: packet_tx_new_def frag_count_def usize_modulus_def splits_evenly_into_last_def)
qed

text \<open>
  A maximal datagram size below the length of the header with its address makes the
  iterator panic in a build with overflow checks; without them the subtraction wraps and the
  whole payload goes out as a single fragment, which is larger than that maximum.
\<close>

theorem undersized_datagram_limit:
  assumes "ptx_max_pkt_size tx < packet_header_len (ptx_addr tx)"
    and "length payload + packet_header_len (ptx_addr tx) < usize_modulus"
    and "payload \<noteq> []"
  shows "into_fragments True tx payload = Panics ArithmeticOverflow \<and>
    outcome_bind (into_fragments False tx payload) (\<lambda>f. Returns (fragments_run False f)) =
      Returns ([(Packet (packet_header_new (ptx_assoc_id tx) (ptx_pkt_id tx) 1 0
        (of_nat (length payload)) (ptx_addr tx)) :: 'u header, payload)], None)"
proof
  show "into_fragments True tx payload = Panics ArithmeticOverflow"
    using assms by (simp add: into_fragments_def fragments_new_def usize_sub_def)
next
  define f where "f = \<lparr>fr_assoc_id = ptx_assoc_id tx, fr_pkt_id = ptx_pkt_id tx,
    fr_addr = ptx_addr tx, fr_max_pkt_size = ptx_max_pkt_size tx, fr_frag_total = 1,
    fr_next_frag_id = 0, fr_next_frag_start = 0, fr_payload = payload\<rparr>"
  let ?room = "ptx_max_pkt_size tx + usize_modulus - packet_header_len (ptx_addr tx)"
  have room: "length payload \<le> ?room" "?room < usize_modulus"
    using assms(1,2) by linarith+
  obtain n where "usize_sub False (ptx_max_pkt_size tx) 11 = Returns n"
    by (cases "11 \<le> ptx_max_pkt_size tx") (simp_all add: usize_sub_def)
  then have "into_fragments False tx payload = Returns f"
    using assms room by (simp add: into_fragments_def fragments_new_def f_def usize_sub_def [of _ _ "packet_header_len _"])
  moreover have "fragments_next False f = Returns (Some (Packet (packet_header_new (ptx_assoc_id tx)
      (ptx_pkt_id tx) 1 0 (of_nat (length payload)) (ptx_addr tx)) :: 'u header, payload),
      f\<lparr>fr_addr := NoAddress, fr_next_frag_id := 1, fr_next_frag_start := length payload\<rparr>)"
    using assms room by (simp add: fragments_next_def f_def address_take_def Let_def min_absorb2 usize_sub_def [of _ _ "packet_header_len _"])
  ultimately show "outcome_bind (into_fragments False tx payload)
      (\<lambda>f. Returns (fragments_run False f)) =
      Returns ([(Packet (packet_header_new (ptx_assoc_id tx) (ptx_pkt_id tx) 1 0
        (of_nat (length payload)) (ptx_addr tx)) :: 'u header, payload)], None)"
    by (simp add: fragments_run.simps fragments_next_done f_def)
qed

theorem undersized_datagram_limit_witness:
  "into_fragments True (packet_tx_new 1 2 (DomainAddress [97] 53) 14) [7] = Panics ArithmeticOverflow \<and>
   outcome_bind (into_fragments False (packet_tx_new 1 2 (DomainAddress [97] 53) 14) [7])
      (\<lambda>f. Returns (fragments_run False f)) =
     Returns ([(Packet (packet_header_new 1 2 1 0 1 (DomainAddress [97] 53)) :: unit header, [7])], None)"
  using undersized_datagram_limit [of "packet_tx_new 1 2 (DomainAddress [97] 53) 14" "[7]",
      where ?'u = unit]
  by (simp add: packet_tx_new_def packet_header_len_eq usize_modulus_def)

end
