(* ===== verification/Tuic_Assembly.thy ===== *)
theory Tuic_Assembly
  imports Tuic_Protocol
begin

text \<open>
  Reassembly of one fragmented UDP packet: \<open>PacketBuffer\<close>, \<open>Assemblable\<close> and \<open>AssembleError\<close> of
  \<^verbatim>\<open>tuic/src/model/mod.rs\<close>. A buffer refines a partial map from fragment numbers to data; the lemmas
  give its invariant, the outcome of an insertion on every branch, and that fragments put in
  in any order come out as the payload.
\<close>

section \<open>The buffer\<close>

datatype assemble_error =
    InvalidFragmentId u8 u8
  | InvalidAddress string
  | DuplicatedFragment u8

record packet_buffer =
  pb_buf :: "bytes option list"
  pb_frag_total :: u8
  pb_frag_received :: u8
  pb_addr :: address
  pb_c_time :: nat

record assemblable =
  as_buf :: "bytes option list"
  as_addr :: address
  as_assoc_id :: u16

text \<open>\<open>now\<close> is the reading of the monotonic clock.\<close>

definition packet_buffer_new :: "nat \<Rightarrow> u8 \<Rightarrow> packet_buffer" where
  "packet_buffer_new now frag_total =
     \<lparr>pb_buf = replicate (unat frag_total) None, pb_frag_total = frag_total, pb_frag_received = 0,
      pb_addr = NoAddress, pb_c_time = now\<rparr>"

definition assemblable_new :: "bytes option list \<Rightarrow> address \<Rightarrow> u16 \<Rightarrow> assemblable" where
  "assemblable_new buf addr assoc_id = \<lparr>as_buf = buf, as_addr = addr, as_assoc_id = assoc_id\<rparr>"

text \<open>
  The result and the buffer left behind: a panic unwinds and leaves what was written before it,
  and the lock around the buffers is not poisoned.
\<close>

definition packet_buffer_insert ::
    "bool \<Rightarrow> u16 \<Rightarrow> u8 \<Rightarrow> u8 \<Rightarrow> u16 \<Rightarrow> address \<Rightarrow> bytes \<Rightarrow> packet_buffer \<Rightarrow>
      (assemble_error + assemblable option) outcome \<times> packet_buffer" where
  "packet_buffer_insert oc assoc_id frag_total frag_id psz addr data b =
     (if length data \<noteq> unat psz then (Panics AssertFailed, b)
      else if frag_total \<le> frag_id then
        (Returns (Inl (InvalidFragmentId frag_total frag_id)), b)
      else if frag_id = 0 \<and> address_is_none addr then
        (Returns (Inl (InvalidAddress ''no address in first fragment'')), b)
      else if frag_id \<noteq> 0 \<and> \<not> address_is_none addr then
        (Returns (Inl (InvalidAddress ''address in non-first fragment'')), b)
      else if length (pb_buf b) \<le> unat frag_id then (Panics IndexOutOfBounds, b)
      else if pb_buf b ! unat frag_id \<noteq> None then
        (Returns (Inl (DuplicatedFragment frag_id)), b)
      else
        let b = b\<lparr>pb_buf := (pb_buf b)[unat frag_id := Some data]\<rparr> in
        if oc \<and> pb_frag_received b = 255 then (Panics ArithmeticOverflow, b)
        else
          let b = b\<lparr>pb_frag_received := pb_frag_received b + 1\<rparr>;
              b = (if frag_id = 0 then b\<lparr>pb_addr := addr\<rparr> else b) in
          if pb_frag_received b = pb_frag_total b then
            let (addr, left) = address_take (pb_addr b) in
            (Returns (Inr (Some (assemblable_new (pb_buf b) addr assoc_id))),
             b\<lparr>pb_buf := [], pb_addr := left\<rparr>)
          else (Returns (Inr None), b))"

text \<open>
  \<open>Assemblable::assemble\<close> into a \<open>Vec<u8>\<close>: the iterator unwraps each slot as the loop of the
  \<open>Assembler\<close> reaches it.
\<close>

fun assembler_extend :: "bytes \<Rightarrow> bytes option list \<Rightarrow> bytes outcome" where
  "assembler_extend vec [] = Returns vec"
| "assembler_extend vec (None # data) = Panics UnwrapNone"
| "assembler_extend vec (Some d # data) = assembler_extend (vec @ d) data"

definition assemblable_assemble :: "assemblable \<Rightarrow> bytes \<Rightarrow> (bytes \<times> address \<times> u16) outcome" where
  "assemblable_assemble a vec =
     outcome_bind (assembler_extend vec (as_buf a)) (\<lambda>vec. Returns (vec, as_addr a, as_assoc_id a))"

lemma assembler_extend_Some [simp]: "assembler_extend vec (map Some ds) = Returns (vec @ concat ds)"
  by (induction ds arbitrary: vec) simp_all

lemma assembler_extend_total:
  "None \<notin> set xs \<Longrightarrow> assembler_extend vec xs = Returns (vec @ concat (map the xs))"
proof (induction xs arbitrary: vec)
  case Nil
  then show ?case by simp
next
  case (Cons x xs)
  then show ?case by (cases x) simp_all
qed

section \<open>The invariant\<close>

text \<open>
  A buffer that waits for fragments: one slot per fragment, the counter is the number of filled
  slots and not yet the total, and the address is there exactly when the first fragment is.
  The degenerate buffer of total 0 has no slots and never fills.
\<close>

definition packet_buffer_ok :: "packet_buffer \<Rightarrow> bool" where
  "packet_buffer_ok b \<longleftrightarrow>
     length (pb_buf b) = unat (pb_frag_total b) \<and>
     unat (pb_frag_received b) = count_some (pb_buf b) \<and>
     (pb_frag_total b \<noteq> 0 \<longrightarrow> pb_frag_received b < pb_frag_total b) \<and>
     (address_is_none (pb_addr b) \<longleftrightarrow> (pb_buf b = [] \<or> hd (pb_buf b) = None))"

lemma packet_buffer_new_ok [simp]: "packet_buffer_ok (packet_buffer_new now n)"
proof -
  have "unat n = 0 \<longleftrightarrow> n = 0" by (simp add: unat_eq_0)
  then show ?thesis
    by (auto simp: packet_buffer_ok_def packet_buffer_new_def word_less_nat_alt hd_replicate)
qed

text \<open>The conditions under which a fragment is accepted into a buffer.\<close>

definition fragment_fits :: "u8 \<Rightarrow> u8 \<Rightarrow> u16 \<Rightarrow> address \<Rightarrow> bytes \<Rightarrow> packet_buffer \<Rightarrow> bool" where
  "fragment_fits frag_total frag_id psz addr data b \<longleftrightarrow>
     length data = unat psz \<and> frag_id < frag_total \<and> (frag_id = 0 \<longleftrightarrow> \<not> address_is_none addr) \<and>
     unat frag_id < length (pb_buf b) \<and> pb_buf b ! unat frag_id = None"

lemma packet_buffer_insert_unchanged:
  "\<not> fragment_fits frag_total frag_id psz addr data b \<Longrightarrow>
    snd (packet_buffer_insert oc a frag_total frag_id psz addr data b) = b \<and>
    (\<forall>r. fst (packet_buffer_insert oc a frag_total frag_id psz addr data b) \<noteq> Returns (Inr r))"
  by (auto simp: packet_buffer_insert_def fragment_fits_def word_gt_0)

text \<open>The buffer with the fragment put in.\<close>

definition put_fragment :: "u8 \<Rightarrow> address \<Rightarrow> bytes \<Rightarrow> packet_buffer \<Rightarrow> packet_buffer" where
  "put_fragment frag_id addr data b =
     b\<lparr>pb_buf := (pb_buf b)[unat frag_id := Some data],
       pb_frag_received := pb_frag_received b + 1,
       pb_addr := (if frag_id = 0 then addr else pb_addr b)\<rparr>"

lemma count_some_lt_slots:
  "i < length xs \<Longrightarrow> xs ! i = None \<Longrightarrow> count_some xs < length xs"
  by (rule count_some_less_length) (metis nth_mem)

lemma packet_buffer_insert_fits:
  assumes "packet_buffer_ok b" and "fragment_fits frag_total frag_id psz addr data b"
  shows "packet_buffer_insert oc a frag_total frag_id psz addr data b =
    (let b' = put_fragment frag_id addr data b in
     if count_some (pb_buf b') = length (pb_buf b')
     then (Returns (Inr (Some (assemblable_new (pb_buf b') (pb_addr b') a))),
        b'\<lparr>pb_buf := [], pb_addr := NoAddress\<rparr>)
     else (Returns (Inr None), b'))"
proof -
  let ?i = "unat frag_id"
  from assms have i: "?i < length (pb_buf b)" "pb_buf b ! ?i = None"
    and ok: "length (pb_buf b) = unat (pb_frag_total b)"
      "unat (pb_frag_received b) = count_some (pb_buf b)"
    by (simp_all add: fragment_fits_def packet_buffer_ok_def)
  have less: "pb_frag_received b < pb_frag_total b"
    using count_some_lt_slots [OF i] ok by (simp add: word_less_nat_alt)
  note Suc = unat_u8_Suc_less [OF less]
  have "unat (pb_frag_received b) \<noteq> 255"
    using less unat_u8_le [of "pb_frag_total b"] unfolding word_less_nat_alt by linarith
  then have no: "pb_frag_received b \<noteq> 255" by auto
  have "pb_frag_received b + 1 = pb_frag_total b \<longleftrightarrow>
      count_some ((pb_buf b)[?i := Some data]) = length (pb_buf b)"
    using Suc ok i by (simp add: count_some_update_None word_unat_eq_iff)
  then show ?thesis
    using assms(2) no
    by (auto simp: packet_buffer_insert_def fragment_fits_def put_fragment_def address_take_def
        Let_def)
qed

lemma put_fragment_ok:
  assumes "packet_buffer_ok b" and "fragment_fits frag_total frag_id psz addr data b"
    and "count_some (pb_buf (put_fragment frag_id addr data b)) \<noteq> length (pb_buf b)"
  shows "packet_buffer_ok (put_fragment frag_id addr data b)"
proof -
  let ?i = "unat frag_id"
  from assms(1,2) have i: "?i < length (pb_buf b)" "pb_buf b ! ?i = None"
    and ok: "length (pb_buf b) = unat (pb_frag_total b)"
      "unat (pb_frag_received b) = count_some (pb_buf b)"
      "address_is_none (pb_addr b) \<longleftrightarrow> (pb_buf b = [] \<or> hd (pb_buf b) = None)"
    and addr: "frag_id = 0 \<longleftrightarrow> \<not> address_is_none addr"
    by (simp_all add: fragment_fits_def packet_buffer_ok_def)
  have less: "pb_frag_received b < pb_frag_total b"
    using count_some_lt_slots [OF i] ok by (simp add: word_less_nat_alt)
  have count: "count_some ((pb_buf b)[?i := Some data]) = Suc (count_some (pb_buf b))"
    using i by (rule count_some_update_None)
  have "count_some ((pb_buf b)[?i := Some data]) \<le> length (pb_buf b)"
    using count_some_le_length [of "(pb_buf b)[?i := Some data]"] by simp
  with assms(3) have "Suc (count_some (pb_buf b)) < length (pb_buf b)"
    by (simp add: put_fragment_def count)
  moreover have "hd ((pb_buf b)[?i := Some data]) = (if frag_id = 0 then Some data else hd (pb_buf b))"
    using i by (cases "pb_buf b") (auto simp: unat_eq_0 split: nat.splits)
  ultimately show ?thesis
    using i ok addr unat_u8_Suc_less [OF less] count
    by (auto simp: packet_buffer_ok_def put_fragment_def word_less_nat_alt)
qed

section \<open>A packet's fragments in any order\<close>

text \<open>
  The buffer that holds the fragments with the numbers in \<open>S\<close> of a packet cut into \<open>ds\<close>: the
  abstract value the insertions refine.
\<close>

definition buffer_with :: "nat \<Rightarrow> address \<Rightarrow> bytes list \<Rightarrow> nat set \<Rightarrow> packet_buffer" where
  "buffer_with now addr ds S =
     \<lparr>pb_buf = map (\<lambda>j. if j \<in> S then Some (ds ! j) else None) [0..<length ds],
      pb_frag_total = of_nat (length ds), pb_frag_received = of_nat (card S),
      pb_addr = (if 0 \<in> S then addr else NoAddress), pb_c_time = now\<rparr>"

lemma buffer_with_empty:
  "length ds \<le> 255 \<Longrightarrow> packet_buffer_new now (of_nat (length ds)) = buffer_with now addr ds {}"
  by (simp add: packet_buffer_new_def buffer_with_def map_replicate_const)

lemma count_some_indicator:
  "count_some (map (\<lambda>j. if j \<in> S then Some (f j) else None) [0..<n]) = card (S \<inter> {..<n})"
proof (induction n)
  case 0
  then show ?case by simp
next
  case (Suc n)
  have "S \<inter> {..<Suc n} = (if n \<in> S then insert n (S \<inter> {..<n}) else S \<inter> {..<n})"
    by (auto simp: less_Suc_eq)
  with Suc show ?case by (simp add: count_some_def)
qed

lemma count_some_indicator_sub:
  "S \<subseteq> {..<n} \<Longrightarrow> count_some (map (\<lambda>j. if j \<in> S then Some (f j) else None) [0..<n]) = card S"
  by (simp only: count_some_indicator Int_absorb2)

lemma buffer_with_ok:
  assumes "length ds \<le> 255" and "S \<subset> {..<length ds}" and "\<not> address_is_none addr"
  shows "packet_buffer_ok (buffer_with now addr ds S)"
proof -
  have card: "card S < length ds" using psubset_card_mono [OF _ assms(2)] by simp
  have count: "count_some (pb_buf (buffer_with now addr ds S)) = card S"
    using assms(2) unfolding buffer_with_def
    by (simp only: packet_buffer.select_convs count_some_indicator_sub psubset_imp_subset)
  have "ds \<noteq> []" using card by (cases ds) auto
  then have "hd (pb_buf (buffer_with now addr ds S)) = (if 0 \<in> S then Some (ds ! 0) else None)"
    and "pb_buf (buffer_with now addr ds S) \<noteq> []"
    by (auto simp: buffer_with_def hd_conv_nth)
  with card assms count show ?thesis
    by (simp add: packet_buffer_ok_def word_less_nat_alt) (simp add: buffer_with_def word_less_nat_alt)
qed

lemma map_update_indicator:
  "i < n \<Longrightarrow> (map (\<lambda>j. if j \<in> S then Some (f j) else None) [0..<n])[i := Some (f i)] =
    map (\<lambda>j. if j \<in> insert i S then Some (f j) else None) [0..<n]"
  by (rule nth_equalityI) (auto simp: nth_list_update)

lemma put_fragment_buffer_with:
  assumes "i < length ds" and "i \<notin> S" and "finite S" and "length ds \<le> 255"
  shows "put_fragment (of_nat i) (if i = 0 then addr else NoAddress) (ds ! i) (buffer_with now addr ds S) =
    buffer_with now addr ds (insert i S)"
proof -
  have "(of_nat i = (0::u8)) \<longleftrightarrow> i = 0"
    using assms by (simp add: word_unat_eq_iff)
  with assms show ?thesis
    by (simp add: put_fragment_def buffer_with_def map_update_indicator)
qed

lemma insert_into_buffer_with:
  assumes "i < length ds" and "S \<subseteq> {..<length ds}" and "i \<notin> S" and "length ds \<le> 255"
    and "\<not> address_is_none addr" and "length (ds ! i) \<le> 65535"
  shows "packet_buffer_insert oc a (of_nat (length ds)) (of_nat i) (of_nat (length (ds ! i)))
      (if i = 0 then addr else NoAddress) (ds ! i) (buffer_with now addr ds S) =
    (if insert i S = {..<length ds}
     then (Returns (Inr (Some (assemblable_new (map Some ds) addr a))),
       (buffer_with now addr ds (insert i S))\<lparr>pb_buf := [], pb_addr := NoAddress\<rparr>)
     else (Returns (Inr None), buffer_with now addr ds (insert i S)))"
proof -
  have fin: "finite S" using assms(2) finite_subset by blast
  have "S \<subset> {..<length ds}" using assms by blast
  then have ok: "packet_buffer_ok (buffer_with now addr ds S)"
    using assms by (intro buffer_with_ok)
  have zero: "(of_nat i = (0::u8)) \<longleftrightarrow> i = 0"
    using assms by (simp add: word_unat_eq_iff)
  have fits: "fragment_fits (of_nat (length ds)) (of_nat i) (of_nat (length (ds ! i)))
      (if i = 0 then addr else NoAddress) (ds ! i) (buffer_with now addr ds S)"
    using assms zero by (simp add: fragment_fits_def buffer_with_def word_less_nat_alt)
  note put = put_fragment_buffer_with [OF assms(1,3) fin assms(4)]
  have sub: "insert i S \<subseteq> {..<length ds}" using assms by blast
  have "count_some (pb_buf (buffer_with now addr ds (insert i S))) = card (insert i S)"
    by (simp only: buffer_with_def packet_buffer.select_convs count_some_indicator_sub [OF sub])
  moreover have "card (insert i S) = length ds \<longleftrightarrow> insert i S = {..<length ds}"
    using sub card_subset_eq [of "{..<length ds}" "insert i S"] by auto
  moreover have "pb_buf (buffer_with now addr ds {..<length ds}) = map Some ds"
    by (auto simp: buffer_with_def intro: nth_equalityI)
  moreover have "pb_addr (buffer_with now addr ds {..<length ds}) = addr"
    using assms(1) by (auto simp: buffer_with_def)
  moreover have "length (pb_buf (buffer_with now addr ds (insert i S))) = length ds"
    by (simp add: buffer_with_def)
  ultimately show ?thesis
    using packet_buffer_insert_fits [OF ok fits] by (auto simp: put Let_def)
qed

section \<open>The outcome of an insertion\<close>

text \<open>
  Whatever a peer sends, inserting into a waiting buffer keeps its invariant or completes it:
  the fragment counter never overflows; a rejected fragment leaves the buffer as it was; a
  completed buffer yields an \<open>Assemblable\<close> with every slot filled and with an address; the only
  panics are the size assertion and a number beyond the slots of the buffer.
\<close>

lemma insert_outcome:
  assumes "packet_buffer_ok b"
    and "packet_buffer_insert oc a frag_total frag_id psz addr data b = (r, b')"
  shows "case r of
      Panics p \<Rightarrow> b' = b \<and> (p = AssertFailed \<and> length data \<noteq> unat psz \<or>
        p = IndexOutOfBounds \<and> pb_frag_total b \<le> frag_id \<and> frag_id < frag_total)
    | Returns (Inl e) \<Rightarrow> b' = b
    | Returns (Inr None) \<Rightarrow> packet_buffer_ok b'
    | Returns (Inr (Some x)) \<Rightarrow> None \<notin> set (as_buf x) \<and> \<not> address_is_none (as_addr x) \<and>
        length (as_buf x) = unat (pb_frag_total b) \<and> as_assoc_id x = a"
proof (cases "fragment_fits frag_total frag_id psz addr data b")
  case False
  from assms(1) have "length (pb_buf b) = unat (pb_frag_total b)" by (simp add: packet_buffer_ok_def)
  with False assms(2) show ?thesis
    by (auto simp: packet_buffer_insert_def fragment_fits_def word_le_nat_alt word_less_nat_alt unat_eq_0 not_le
        split: if_splits)
next
  case True
  let ?b = "put_fragment frag_id addr data b"
  have slots: "length (pb_buf ?b) = unat (pb_frag_total b)"
    using assms(1) by (simp add: put_fragment_def packet_buffer_ok_def)
  show ?thesis
  proof (cases "count_some (pb_buf ?b) = length (pb_buf ?b)")
    case False
    then show ?thesis
      using packet_buffer_insert_fits [OF assms(1) True] assms(2) put_fragment_ok [OF assms(1) True]
      by (auto simp: Let_def put_fragment_def)
  next
    case all: True
    then have "None \<notin> set (pb_buf ?b)" by (rule count_some_eq_length_iff [THEN iffD1])
    moreover have "\<not> address_is_none (pb_addr ?b)"
    proof (cases "frag_id = 0")
      case True
      with \<open>fragment_fits _ _ _ _ _ _\<close> show ?thesis by (simp add: put_fragment_def fragment_fits_def)
    next
      case False
      from True have ne: "pb_buf b \<noteq> []" "pb_buf ?b \<noteq> []"
        by (auto simp: put_fragment_def fragment_fits_def)
      from False True have "hd (pb_buf ?b) = hd (pb_buf b)"
        by (cases "pb_buf b") (auto simp: put_fragment_def fragment_fits_def unat_eq_0
            split: nat.splits)
      with \<open>None \<notin> set (pb_buf ?b)\<close> hd_in_set [OF ne(2)] have "hd (pb_buf b) \<noteq> None" by metis
      with False assms(1) ne show ?thesis
        by (simp add: put_fragment_def packet_buffer_ok_def)
    qed
    ultimately show ?thesis
      using packet_buffer_insert_fits [OF assms(1) True] assms(2) all slots
      by (auto simp: Let_def assemblable_new_def)
  qed
qed

end
