(* ===== verification/Tuic_Sessions.thy ===== *)
theory Tuic_Sessions
  imports Tuic_Fragments Tuic_Assembly
begin

text \<open>
  The state of a TUIC connection without its I/O: \<open>UdpSession\<close>, \<open>UdpSessions\<close> and \<open>Connection\<close> of
  \<^verbatim>\<open>tuic/src/model/mod.rs\<close> and the receiving half of \<^verbatim>\<open>tuic/src/model/packet.rs\<close>. A hash map is a map;
  the mutex makes each operation one step on the state; the \<open>Arc\<close> a received packet holds is
  the state its \<open>assemble\<close> is applied to. A \<open>Counter\<close> of the register_count crate is a number:
  registering adds one, dropping a register takes one off.
\<close>

section \<open>One UDP session\<close>

record udp_session =
  us_pkt_buf :: "u16 \<Rightarrow> packet_buffer option"
  us_next_pkt_id :: u16

definition udp_session_new :: udp_session where
  "udp_session_new = \<lparr>us_pkt_buf = Map.empty, us_next_pkt_id = 0\<rparr>"

definition udp_session_send_packet :: "u16 \<Rightarrow> address \<Rightarrow> nat \<Rightarrow> udp_session \<Rightarrow> packet_tx \<times> udp_session"
  where
  "udp_session_send_packet assoc_id addr max_pkt_size s =
     (packet_tx_new assoc_id (us_next_pkt_id s) addr max_pkt_size,
      s\<lparr>us_next_pkt_id := us_next_pkt_id s + 1\<rparr>)"

record packet_rx =
  prx_assoc_id :: u16
  prx_pkt_id :: u16
  prx_frag_total :: u8
  prx_frag_id :: u8
  prx_size :: u16
  prx_addr :: address

definition packet_rx_new :: "u16 \<Rightarrow> u16 \<Rightarrow> u8 \<Rightarrow> u8 \<Rightarrow> u16 \<Rightarrow> address \<Rightarrow> packet_rx" where
  "packet_rx_new assoc_id pkt_id frag_total frag_id psz addr =
     \<lparr>prx_assoc_id = assoc_id, prx_pkt_id = pkt_id, prx_frag_total = frag_total,
      prx_frag_id = frag_id, prx_size = psz, prx_addr = addr\<rparr>"

text \<open>
  The operator \<open>?\<close> after the buffer's \<open>insert\<close> leaves the entry in the map, also one the call has
  just made; only a completed packet is taken out.
\<close>

definition udp_session_insert ::
    "bool \<Rightarrow> nat \<Rightarrow> u16 \<Rightarrow> u16 \<Rightarrow> u8 \<Rightarrow> u8 \<Rightarrow> u16 \<Rightarrow> address \<Rightarrow> bytes \<Rightarrow> udp_session \<Rightarrow>
      (assemble_error + assemblable option) outcome \<times> udp_session" where
  "udp_session_insert oc now assoc_id pkt_id frag_total frag_id psz addr data s =
     (let b = (case us_pkt_buf s pkt_id of Some b \<Rightarrow> b | None \<Rightarrow> packet_buffer_new now frag_total) in
      case packet_buffer_insert oc assoc_id frag_total frag_id psz addr data b of (r, b) \<Rightarrow>
        let s = s\<lparr>us_pkt_buf := (us_pkt_buf s)(pkt_id \<mapsto> b)\<rparr> in
        (case r of
           Panics p \<Rightarrow> (Panics p, s)
         | Returns (Inl e) \<Rightarrow> (Returns (Inl e), s)
         | Returns (Inr res) \<Rightarrow>
             (Returns (Inr res),
              if res \<noteq> None then s\<lparr>us_pkt_buf := (us_pkt_buf s)(pkt_id := None)\<rparr> else s)))"

definition udp_session_collect_garbage :: "nat \<Rightarrow> nat \<Rightarrow> udp_session \<Rightarrow> udp_session" where
  "udp_session_collect_garbage now timeout s =
     s\<lparr>us_pkt_buf := (\<lambda>k. case us_pkt_buf s k of
        Some b \<Rightarrow> if now - pb_c_time b < timeout then Some b else None | None \<Rightarrow> None)\<rparr>"

section \<open>The sessions of a connection\<close>

record udp_sessions =
  ss_sessions :: "u16 \<Rightarrow> udp_session option"
  ss_task_associate_count :: nat

definition udp_sessions_new :: udp_sessions where
  "udp_sessions_new = \<lparr>ss_sessions = Map.empty, ss_task_associate_count = 0\<rparr>"

text \<open>The idiom \<open>entry(assoc_id).or_insert_with(|| UdpSession::new(count.reg()))\<close>.\<close>

definition sessions_entry :: "u16 \<Rightarrow> udp_sessions \<Rightarrow> udp_session \<times> udp_sessions" where
  "sessions_entry assoc_id s = (case ss_sessions s assoc_id of
     Some u \<Rightarrow> (u, s)
   | None \<Rightarrow> (udp_session_new,
       s\<lparr>ss_sessions := (ss_sessions s)(assoc_id \<mapsto> udp_session_new),
         ss_task_associate_count := ss_task_associate_count s + 1\<rparr>))"

definition sessions_store :: "u16 \<Rightarrow> udp_session \<Rightarrow> udp_sessions \<Rightarrow> udp_sessions" where
  "sessions_store assoc_id u s = s\<lparr>ss_sessions := (ss_sessions s)(assoc_id \<mapsto> u)\<rparr>"

text \<open>\<open>HashMap::remove\<close>; the removed session drops its register.\<close>

definition sessions_remove :: "u16 \<Rightarrow> udp_sessions \<Rightarrow> udp_sessions" where
  "sessions_remove assoc_id s = (case ss_sessions s assoc_id of
     Some _ \<Rightarrow> s\<lparr>ss_sessions := (ss_sessions s)(assoc_id := None),
       ss_task_associate_count := ss_task_associate_count s - 1\<rparr>
   | None \<Rightarrow> s)"

definition udp_sessions_send_packet :: "u16 \<Rightarrow> address \<Rightarrow> nat \<Rightarrow> udp_sessions \<Rightarrow> packet_tx \<times> udp_sessions"
  where
  "udp_sessions_send_packet assoc_id addr max_pkt_size s =
     (case sessions_entry assoc_id s of (u, s) \<Rightarrow>
      case udp_session_send_packet assoc_id addr max_pkt_size u of (tx, u) \<Rightarrow>
        (tx, sessions_store assoc_id u s))"

definition udp_sessions_recv_packet ::
    "u16 \<Rightarrow> u16 \<Rightarrow> u8 \<Rightarrow> u8 \<Rightarrow> u16 \<Rightarrow> address \<Rightarrow> udp_sessions \<Rightarrow> packet_rx option" where
  "udp_sessions_recv_packet assoc_id pkt_id frag_total frag_id psz addr s =
     (case ss_sessions s assoc_id of
        Some _ \<Rightarrow> Some (packet_rx_new assoc_id pkt_id frag_total frag_id psz addr)
      | None \<Rightarrow> None)"

definition udp_sessions_recv_packet_unrestricted ::
    "u16 \<Rightarrow> u16 \<Rightarrow> u8 \<Rightarrow> u8 \<Rightarrow> u16 \<Rightarrow> address \<Rightarrow> udp_sessions \<Rightarrow> packet_rx \<times> udp_sessions" where
  "udp_sessions_recv_packet_unrestricted assoc_id pkt_id frag_total frag_id psz addr s =
     (case sessions_entry assoc_id s of (_, s) \<Rightarrow>
        (packet_rx_new assoc_id pkt_id frag_total frag_id psz addr, s))"

definition udp_sessions_dissociate :: "u16 \<Rightarrow> udp_sessions \<Rightarrow> dissociate_header \<times> udp_sessions" where
  "udp_sessions_dissociate assoc_id s = (\<lparr>dh_assoc_id = assoc_id\<rparr>, sessions_remove assoc_id s)"

definition udp_sessions_insert ::
    "bool \<Rightarrow> nat \<Rightarrow> u16 \<Rightarrow> u16 \<Rightarrow> u8 \<Rightarrow> u8 \<Rightarrow> u16 \<Rightarrow> address \<Rightarrow> bytes \<Rightarrow> udp_sessions \<Rightarrow>
      (assemble_error + assemblable option) outcome \<times> udp_sessions" where
  "udp_sessions_insert oc now assoc_id pkt_id frag_total frag_id psz addr data s =
     (case sessions_entry assoc_id s of (u, s) \<Rightarrow>
      case udp_session_insert oc now assoc_id pkt_id frag_total frag_id psz addr data u of (r, u) \<Rightarrow>
        (r, sessions_store assoc_id u s))"

definition udp_sessions_collect_garbage :: "nat \<Rightarrow> nat \<Rightarrow> udp_sessions \<Rightarrow> udp_sessions" where
  "udp_sessions_collect_garbage now timeout s =
     s\<lparr>ss_sessions := (\<lambda>k. map_option (udp_session_collect_garbage now timeout) (ss_sessions s k))\<rparr>"

definition packet_rx_assemble ::
    "bool \<Rightarrow> nat \<Rightarrow> packet_rx \<Rightarrow> bytes \<Rightarrow> udp_sessions \<Rightarrow>
      (assemble_error + assemblable option) outcome \<times> udp_sessions" where
  "packet_rx_assemble oc now rx data s =
     udp_sessions_insert oc now (prx_assoc_id rx) (prx_pkt_id rx) (prx_frag_total rx)
       (prx_frag_id rx) (prx_size rx) (prx_addr rx) data s"

section \<open>The connection\<close>

record connection =
  cn_udp_sessions :: udp_sessions
  cn_task_connect_count :: nat

definition connection_new :: connection where
  "connection_new = \<lparr>cn_udp_sessions = udp_sessions_new, cn_task_connect_count = 0\<rparr>"

text \<open>A live \<open>Connect\<close> holds a register of the connection's counter until it is dropped.\<close>

record connect_rx =
  crx_addr :: address

definition connection_send_connect :: "address \<Rightarrow> connection \<Rightarrow> connect_header \<times> connection" where
  "connection_send_connect addr c =
     (\<lparr>ch_addr = addr\<rparr>, c\<lparr>cn_task_connect_count := cn_task_connect_count c + 1\<rparr>)"

definition connection_recv_connect :: "connect_header \<Rightarrow> connection \<Rightarrow> connect_rx \<times> connection" where
  "connection_recv_connect header c =
     (\<lparr>crx_addr = connect_into header\<rparr>, c\<lparr>cn_task_connect_count := cn_task_connect_count c + 1\<rparr>)"

definition connection_drop_connect :: "connection \<Rightarrow> connection" where
  "connection_drop_connect c = c\<lparr>cn_task_connect_count := cn_task_connect_count c - 1\<rparr>"

definition connection_send_packet :: "u16 \<Rightarrow> address \<Rightarrow> nat \<Rightarrow> connection \<Rightarrow> packet_tx \<times> connection" where
  "connection_send_packet assoc_id addr max_pkt_size c =
     (case udp_sessions_send_packet assoc_id addr max_pkt_size (cn_udp_sessions c) of (tx, s) \<Rightarrow>
        (tx, c\<lparr>cn_udp_sessions := s\<rparr>))"

definition connection_recv_packet :: "packet_header \<Rightarrow> connection \<Rightarrow> packet_rx option" where
  "connection_recv_packet header c =
     (case packet_into header of (assoc_id, pkt_id, frag_total, frag_id, psz, addr) \<Rightarrow>
        udp_sessions_recv_packet assoc_id pkt_id frag_total frag_id psz addr (cn_udp_sessions c))"

definition connection_recv_packet_unrestricted :: "packet_header \<Rightarrow> connection \<Rightarrow> packet_rx \<times> connection"
  where
  "connection_recv_packet_unrestricted header c =
     (case packet_into header of (assoc_id, pkt_id, frag_total, frag_id, psz, addr) \<Rightarrow>
      case udp_sessions_recv_packet_unrestricted assoc_id pkt_id frag_total frag_id psz addr
             (cn_udp_sessions c) of (rx, s) \<Rightarrow>
        (rx, c\<lparr>cn_udp_sessions := s\<rparr>))"

definition connection_send_dissociate :: "u16 \<Rightarrow> connection \<Rightarrow> dissociate_header \<times> connection" where
  "connection_send_dissociate assoc_id c =
     (case udp_sessions_dissociate assoc_id (cn_udp_sessions c) of (d, s) \<Rightarrow>
        (d, c\<lparr>cn_udp_sessions := s\<rparr>))"

definition connection_recv_dissociate :: "dissociate_header \<Rightarrow> connection \<Rightarrow> u16 \<times> connection" where
  "connection_recv_dissociate header c =
     (let assoc_id = dissociate_into header in
      case udp_sessions_dissociate assoc_id (cn_udp_sessions c) of (d, s) \<Rightarrow>
        (assoc_id, c\<lparr>cn_udp_sessions := s\<rparr>))"

definition connection_assemble ::
    "bool \<Rightarrow> nat \<Rightarrow> packet_rx \<Rightarrow> bytes \<Rightarrow> connection \<Rightarrow>
      (assemble_error + assemblable option) outcome \<times> connection" where
  "connection_assemble oc now rx data c =
     (case packet_rx_assemble oc now rx data (cn_udp_sessions c) of (r, s) \<Rightarrow>
        (r, c\<lparr>cn_udp_sessions := s\<rparr>))"

definition connection_collect_garbage :: "nat \<Rightarrow> nat \<Rightarrow> connection \<Rightarrow> connection" where
  "connection_collect_garbage now timeout c =
     c\<lparr>cn_udp_sessions := udp_sessions_collect_garbage now timeout (cn_udp_sessions c)\<rparr>"

definition task_connect_count :: "connection \<Rightarrow> nat" where
  "task_connect_count c = cn_task_connect_count c"

definition task_associate_count :: "connection \<Rightarrow> nat" where
  "task_associate_count c = ss_task_associate_count (cn_udp_sessions c)"

text \<open>The commands without a state of their own.\<close>

definition connection_send_heartbeat :: "'u header" where
  "connection_send_heartbeat = Heartbeat HeartbeatHeader"

text \<open>\<open>exporter label context\<close> is \<open>KeyingMaterialExporter::export_keying_material\<close>.\<close>

type_synonym exporter = "bytes \<Rightarrow> bytes \<Rightarrow> bytes"

definition connection_send_authenticate ::
    "'u uuid_lib \<Rightarrow> 'u \<Rightarrow> bytes \<Rightarrow> exporter \<Rightarrow> 'u authenticate_header" where
  "connection_send_authenticate U uuid password exporter =
     \<lparr>ah_uuid = uuid, ah_token = exporter (uuid_as_bytes U uuid) password\<rparr>"

record 'u authenticate_rx =
  arx_uuid :: 'u
  arx_token :: bytes

definition connection_recv_authenticate :: "'u authenticate_header \<Rightarrow> 'u authenticate_rx" where
  "connection_recv_authenticate header =
     (case authenticate_into header of (uuid, token) \<Rightarrow> \<lparr>arx_uuid = uuid, arx_token = token\<rparr>)"

definition authenticate_is_valid :: "'u uuid_lib \<Rightarrow> bytes \<Rightarrow> exporter \<Rightarrow> 'u authenticate_rx \<Rightarrow> bool" where
  "authenticate_is_valid U password exporter rx \<longleftrightarrow>
     arx_token rx = exporter (uuid_as_bytes U (arx_uuid rx)) password"

section \<open>The buffer of one packet\<close>

text \<open>What the sessions hold for a packet, by its association and its packet number.\<close>

definition buffer_at :: "udp_sessions \<Rightarrow> u16 \<times> u16 \<Rightarrow> packet_buffer option" where
  "buffer_at s k = (case ss_sessions s (fst k) of Some u \<Rightarrow> us_pkt_buf u (snd k) | None \<Rightarrow> None)"

text \<open>The effect of \<open>assemble\<close> on it.\<close>

definition slot_insert ::
    "bool \<Rightarrow> nat \<Rightarrow> packet_rx \<Rightarrow> bytes \<Rightarrow> packet_buffer option \<Rightarrow>
      (assemble_error + assemblable option) outcome \<times> packet_buffer option" where
  "slot_insert oc now rx data slot =
     (case packet_buffer_insert oc (prx_assoc_id rx) (prx_frag_total rx) (prx_frag_id rx)
             (prx_size rx) (prx_addr rx) data
             (case slot of Some b \<Rightarrow> b | None \<Rightarrow> packet_buffer_new now (prx_frag_total rx)) of
        (r, b) \<Rightarrow> (r, case r of Returns (Inr (Some _)) \<Rightarrow> None | _ \<Rightarrow> Some b))"

definition packet_key :: "packet_rx \<Rightarrow> u16 \<times> u16" where
  "packet_key rx = (prx_assoc_id rx, prx_pkt_id rx)"

lemma sessions_entry_cases:
  obtains (present) u where "ss_sessions s a = Some u" "sessions_entry a s = (u, s)"
  | (absent) "ss_sessions s a = None" "sessions_entry a s = (udp_session_new,
       s\<lparr>ss_sessions := (ss_sessions s)(a \<mapsto> udp_session_new),
         ss_task_associate_count := ss_task_associate_count s + 1\<rparr>)"
  by (cases "ss_sessions s a") (auto simp: sessions_entry_def)

lemma sessions_entry_buffer_at:
  "sessions_entry a s = (u, s') \<Longrightarrow> buffer_at s' k = buffer_at s k"
  by (cases rule: sessions_entry_cases [of s a]) (auto simp: buffer_at_def udp_session_new_def)

lemma udp_session_insert_slot:
  assumes "udp_session_insert oc now (prx_assoc_id rx) (prx_pkt_id rx) (prx_frag_total rx)
      (prx_frag_id rx) (prx_size rx) (prx_addr rx) data u = (r, u')"
  shows "slot_insert oc now rx data (us_pkt_buf u (prx_pkt_id rx)) = (r, us_pkt_buf u' (prx_pkt_id rx))"
    and "p \<noteq> prx_pkt_id rx \<Longrightarrow> us_pkt_buf u' p = us_pkt_buf u p"
  using assms
  by (auto simp: udp_session_insert_def slot_insert_def Let_def
      split: prod.splits outcome.splits sum.splits option.splits if_splits)

lemma packet_rx_assemble_slot:
  assumes "packet_rx_assemble oc now rx data s = (r, s')"
  shows "slot_insert oc now rx data (buffer_at s (packet_key rx)) = (r, buffer_at s' (packet_key rx))"
    and "k \<noteq> packet_key rx \<Longrightarrow> buffer_at s' k = buffer_at s k"
proof -
  let ?a = "prx_assoc_id rx"
  obtain u t where entry: "sessions_entry ?a s = (u, t)" by (cases "sessions_entry ?a s")
  obtain u' where ins: "udp_session_insert oc now ?a (prx_pkt_id rx) (prx_frag_total rx)
      (prx_frag_id rx) (prx_size rx) (prx_addr rx) data u = (r, u')"
    and s': "s' = sessions_store ?a u' t"
    using assms entry by (auto simp: packet_rx_assemble_def udp_sessions_insert_def split: prod.splits)
  have u: "us_pkt_buf u p = buffer_at s (?a, p)" for p
    using entry by (cases rule: sessions_entry_cases [of s ?a])
      (auto simp: buffer_at_def udp_session_new_def)
  have s'_own: "buffer_at s' (?a, p) = us_pkt_buf u' p" for p
    by (simp add: s' sessions_store_def buffer_at_def)
  have s'_other: "a \<noteq> ?a \<Longrightarrow> buffer_at s' (a, p) = buffer_at s (a, p)" for a p
    using entry by (cases rule: sessions_entry_cases [of s ?a])
      (auto simp: s' sessions_store_def buffer_at_def)
  show "slot_insert oc now rx data (buffer_at s (packet_key rx)) = (r, buffer_at s' (packet_key rx))"
    using udp_session_insert_slot(1) [OF ins] by (simp add: packet_key_def u s'_own)
  show "buffer_at s' k = buffer_at s k" if "k \<noteq> packet_key rx"
  proof (cases "fst k = ?a")
    case True
    with that have "snd k \<noteq> prx_pkt_id rx" by (auto simp: packet_key_def prod_eq_iff)
    with True udp_session_insert_slot(2) [OF ins this] u s'_own show ?thesis
      by (metis prod.collapse)
  next
    case False
    with s'_other show ?thesis by (metis prod.collapse)
  qed
qed

section \<open>The invariant of a connection\<close>

text \<open>
  The number of registered associations is the number of sessions, and every buffer waits.
\<close>

definition udp_sessions_ok :: "udp_sessions \<Rightarrow> bool" where
  "udp_sessions_ok s \<longleftrightarrow>
     finite (dom (ss_sessions s)) \<and> ss_task_associate_count s = card (dom (ss_sessions s)) \<and>
     (\<forall>k b. buffer_at s k = Some b \<longrightarrow> packet_buffer_ok b)"

lemma buffer_at_new [simp]: "buffer_at udp_sessions_new k = None"
  by (simp add: buffer_at_def udp_sessions_new_def)

lemma udp_sessions_new_ok: "udp_sessions_ok udp_sessions_new"
  by (simp add: udp_sessions_ok_def udp_sessions_new_def buffer_at_def)

lemma sessions_entry_ok:
  assumes "udp_sessions_ok s" and "sessions_entry a s = (u, s')"
  shows "udp_sessions_ok s'" and "ss_sessions s' a = Some u"
  using assms
  by (cases rule: sessions_entry_cases [of s a]; auto simp: udp_sessions_ok_def buffer_at_def
      udp_session_new_def card_insert_if domIff split: if_splits option.splits)+

lemma sessions_store_ok:
  assumes "udp_sessions_ok s" and "ss_sessions s a = Some u0"
    and "\<And>p b. us_pkt_buf u p = Some b \<Longrightarrow> packet_buffer_ok b"
  shows "udp_sessions_ok (sessions_store a u s)"
  using assms by (auto simp: udp_sessions_ok_def sessions_store_def buffer_at_def insert_absorb domI
      split: if_splits option.splits)

lemma sessions_remove_ok:
  "udp_sessions_ok s \<Longrightarrow> udp_sessions_ok (sessions_remove a s)"
  by (auto simp: udp_sessions_ok_def sessions_remove_def buffer_at_def card_Diff_singleton_if domI
      split: if_splits option.splits)

lemma buffers_of_session_ok:
  "udp_sessions_ok s \<Longrightarrow> ss_sessions s a = Some u \<Longrightarrow> us_pkt_buf u p = Some b \<Longrightarrow> packet_buffer_ok b"
  unfolding udp_sessions_ok_def buffer_at_def by (metis fst_conv option.simps(5) snd_conv)

lemma slot_insert_stays:
  "slot_insert oc now rx data slot = (r, slot') \<Longrightarrow> (\<And>x. r \<noteq> Returns (Inr (Some x))) \<Longrightarrow> slot' \<noteq> None"
  unfolding slot_insert_def by (auto split: prod.splits outcome.splits sum.splits option.splits)

lemma slot_buffer_ok:
  "udp_sessions_ok s \<Longrightarrow>
    packet_buffer_ok (case buffer_at s k of Some b \<Rightarrow> b | None \<Rightarrow> packet_buffer_new now n)"
  by (cases "buffer_at s k") (auto simp: udp_sessions_ok_def simp del: split_paired_All)

lemma slot_insert_ok:
  assumes "\<And>b. slot = Some b \<Longrightarrow> packet_buffer_ok b"
    and "slot_insert oc now rx data slot = (r, Some b')"
  shows "packet_buffer_ok b'"
proof -
  define b where "b = (case slot of Some b \<Rightarrow> b | None \<Rightarrow> packet_buffer_new now (prx_frag_total rx))"
  have ok: "packet_buffer_ok b" using assms(1) by (auto simp: b_def split: option.splits)
  obtain r' b1 where ins: "packet_buffer_insert oc (prx_assoc_id rx) (prx_frag_total rx)
      (prx_frag_id rx) (prx_size rx) (prx_addr rx) data b = (r', b1)" by (rule prod.exhaust)
  show ?thesis
  proof (cases "fragment_fits (prx_frag_total rx) (prx_frag_id rx) (prx_size rx) (prx_addr rx) data b")
    case False
    with packet_buffer_insert_unchanged [OF False, of oc "prx_assoc_id rx"] ins ok assms(2) show ?thesis
      by (auto simp: slot_insert_def b_def [symmetric] split: outcome.splits sum.splits option.splits)
  next
    case True
    let ?b = "put_fragment (prx_frag_id rx) (prx_addr rx) data b"
    have len: "length (pb_buf ?b) = length (pb_buf b)" by (simp add: put_fragment_def)
    show ?thesis
      using packet_buffer_insert_fits [OF ok True, of oc "prx_assoc_id rx"] put_fragment_ok [OF ok True]
        assms(2)
      by (auto simp: slot_insert_def b_def [symmetric] Let_def len split: if_splits)
  qed
qed

lemma packet_rx_assemble_ok:
  assumes "udp_sessions_ok s" and "packet_rx_assemble oc now rx data s = (r, s')"
  shows "udp_sessions_ok s'"
proof -
  let ?a = "prx_assoc_id rx"
  obtain u t where entry: "sessions_entry ?a s = (u, t)" by (cases "sessions_entry ?a s")
  obtain u' where s': "s' = sessions_store ?a u' t"
    using assms(2) entry by (auto simp: packet_rx_assemble_def udp_sessions_insert_def split: prod.splits)
  note t = sessions_entry_ok [OF assms(1) entry]
  have "packet_buffer_ok b" if "us_pkt_buf u' p = Some b" for p b
  proof -
    have b: "buffer_at s' (?a, p) = Some b"
      using that by (simp add: s' sessions_store_def buffer_at_def)
    show ?thesis
    proof (cases "(?a, p) = packet_key rx")
      case True
      with b packet_rx_assemble_slot(1) [OF assms(2)] slot_insert_ok assms(1) show ?thesis
        by (metis udp_sessions_ok_def)
    next
      case False
      with b packet_rx_assemble_slot(2) [OF assms(2)] assms(1) show ?thesis
        by (metis udp_sessions_ok_def)
    qed
  qed
  with t show ?thesis unfolding s' by (intro sessions_store_ok)
qed

text \<open>
  The operations as steps: a task of the connection runs one of them at a time, with any header
  the peer may have sent and any clock.
\<close>

inductive connection_step :: "bool \<Rightarrow> connection \<Rightarrow> connection \<Rightarrow> bool" for oc where
  step_send_connect: "connection_send_connect addr c = (h, c') \<Longrightarrow> connection_step oc c c'"
| step_recv_connect: "connection_recv_connect header c = (rx, c') \<Longrightarrow> connection_step oc c c'"
| step_drop_connect: "connection_step oc c (connection_drop_connect c)"
| step_send_packet: "connection_send_packet a addr sz c = (tx, c') \<Longrightarrow> connection_step oc c c'"
| step_recv_packet_unrestricted:
    "connection_recv_packet_unrestricted header c = (rx, c') \<Longrightarrow> connection_step oc c c'"
| step_send_dissociate: "connection_send_dissociate a c = (d, c') \<Longrightarrow> connection_step oc c c'"
| step_recv_dissociate: "connection_recv_dissociate dh c = (a, c') \<Longrightarrow> connection_step oc c c'"
| step_assemble: "connection_assemble oc now rx data c = (r, c') \<Longrightarrow> connection_step oc c c'"
| step_collect_garbage: "connection_step oc c (connection_collect_garbage now timeout c)"

inductive_simps connection_step_simps: "connection_step oc c c'"

definition connection_ok :: "connection \<Rightarrow> bool" where
  "connection_ok c \<longleftrightarrow> udp_sessions_ok (cn_udp_sessions c)"

lemma udp_sessions_send_packet_ok:
  assumes "udp_sessions_ok s" and "udp_sessions_send_packet a addr sz s = (tx, s')"
  shows "udp_sessions_ok s'"
proof -
  obtain u t where entry: "sessions_entry a s = (u, t)" by (cases "sessions_entry a s")
  note t = sessions_entry_ok [OF assms(1) entry]
  from assms(2) entry have "s' = sessions_store a (u\<lparr>us_next_pkt_id := us_next_pkt_id u + 1\<rparr>) t"
    by (auto simp: udp_sessions_send_packet_def udp_session_send_packet_def)
  with t buffers_of_session_ok [OF t] show ?thesis by (auto intro: sessions_store_ok)
qed

lemma buffer_at_collect_garbage:
  "buffer_at (udp_sessions_collect_garbage now timeout s) k =
    (case buffer_at s k of Some b \<Rightarrow> if now - pb_c_time b < timeout then Some b else None | None \<Rightarrow> None)"
  by (auto simp: buffer_at_def udp_sessions_collect_garbage_def udp_session_collect_garbage_def
      split: option.splits)

lemma dom_collect_garbage:
  "dom (ss_sessions (udp_sessions_collect_garbage now timeout s)) = dom (ss_sessions s)"
  by (auto simp: udp_sessions_collect_garbage_def)

lemma collect_garbage_ok:
  "udp_sessions_ok s \<Longrightarrow> udp_sessions_ok (udp_sessions_collect_garbage now timeout s)"
  unfolding udp_sessions_ok_def dom_collect_garbage buffer_at_collect_garbage
  by (auto simp: udp_sessions_collect_garbage_def split: option.splits if_splits)

lemma connection_assemble_sessions:
  "connection_assemble oc now rx data c = (r, c') \<Longrightarrow>
    packet_rx_assemble oc now rx data (cn_udp_sessions c) = (r, cn_udp_sessions c')"
  by (auto simp: connection_assemble_def split: prod.splits)

lemma connection_step_ok:
  assumes "connection_step oc c c'" and "connection_ok c"
  shows "connection_ok c'"
  using assms
proof (induction rule: connection_step.induct)
  case (step_send_packet a addr sz c tx c')
  then show ?case
    using udp_sessions_send_packet_ok
    by (auto simp: connection_ok_def connection_send_packet_def split: prod.splits)
next
  case (step_recv_packet_unrestricted header c rx c')
  then show ?case
    using sessions_entry_ok(1)
    by (auto simp: connection_ok_def connection_recv_packet_unrestricted_def
        udp_sessions_recv_packet_unrestricted_def packet_into_def split: prod.splits)
next
  case (step_assemble now rx data c r c')
  then show ?case
    using packet_rx_assemble_ok [OF _ connection_assemble_sessions] unfolding connection_ok_def by blast
qed (auto simp: connection_ok_def connection_send_connect_def connection_recv_connect_def
      connection_drop_connect_def connection_send_dissociate_def connection_recv_dissociate_def
      udp_sessions_dissociate_def sessions_remove_ok connection_collect_garbage_def
      collect_garbage_ok Let_def split: prod.splits)

interpretation conn: invariant_system "\<lambda>c. c = connection_new" "connection_step oc" connection_ok
  by unfold_locales
    (auto simp: connection_ok_def connection_new_def udp_sessions_new_ok
      intro: connection_step_ok [unfolded connection_ok_def])

lemma assemble_outcome:
  assumes "connection_ok c"
    and "connection_assemble oc now rx data c = (r, c')"
  shows "case r of
      Panics p \<Rightarrow> p = AssertFailed \<and> length data \<noteq> unat (prx_size rx) \<or>
        p = IndexOutOfBounds \<and> (\<exists>b. buffer_at (cn_udp_sessions c) (packet_key rx) = Some b \<and>
          pb_frag_total b \<le> prx_frag_id rx \<and> prx_frag_id rx < prx_frag_total rx)
    | Returns (Inr (Some x)) \<Rightarrow> \<not> address_is_none (as_addr x) \<and>
        assemblable_assemble x vec =
          Returns (vec @ concat (map the (as_buf x)), as_addr x, prx_assoc_id rx)
    | Returns _ \<Rightarrow> True"
proof -
  let ?s = "cn_udp_sessions c"
  define b where "b = (case buffer_at ?s (packet_key rx) of Some b \<Rightarrow> b
    | None \<Rightarrow> packet_buffer_new now (prx_frag_total rx))"
  have ok: "packet_buffer_ok b"
    using assms(1) unfolding b_def connection_ok_def by (rule slot_buffer_ok)
  obtain b' where ins: "packet_buffer_insert oc (prx_assoc_id rx) (prx_frag_total rx)
      (prx_frag_id rx) (prx_size rx) (prx_addr rx) data b = (r, b')"
    using packet_rx_assemble_slot(1) [OF connection_assemble_sessions [OF assms(2)]]
    by (auto simp: slot_insert_def b_def split: prod.splits)
  have safe: "case r of
      Panics p \<Rightarrow> p = AssertFailed \<and> length data \<noteq> unat (prx_size rx) \<or>
        p = IndexOutOfBounds \<and> pb_frag_total b \<le> prx_frag_id rx \<and> prx_frag_id rx < prx_frag_total rx
    | Returns (Inr (Some x)) \<Rightarrow> None \<notin> set (as_buf x) \<and> \<not> address_is_none (as_addr x) \<and>
        as_assoc_id x = prx_assoc_id rx
    | Returns _ \<Rightarrow> True"
    using insert_outcome [OF ok ins] by (auto split: outcome.splits sum.splits option.splits)
  show ?thesis
  proof (cases "buffer_at ?s (packet_key rx)")
    case None
    then have "pb_frag_total b = prx_frag_total rx" by (simp add: b_def packet_buffer_new_def)
    with safe show ?thesis
      by (auto simp: assemblable_assemble_def assembler_extend_total not_le
          split: outcome.splits sum.splits option.splits)
  next
    case (Some b0)
    with safe show ?thesis
      by (auto simp: b_def assemblable_assemble_def assembler_extend_total
          split: outcome.splits sum.splits option.splits)
  qed
qed

section \<open>Properties\<close>

text \<open>
  C31: in every state a connection reaches, whatever it is sent, the number of active UDP sessions
  it reports (what keeps the client's heartbeat going) is the number of sessions it holds, and
  every packet buffer it holds is one that waits for fragments.
\<close>

theorem connection_counts_sessions:
  assumes "reachable (\<lambda>c. c = connection_new) (connection_step oc) c"
  shows "task_associate_count c = card (dom (ss_sessions (cn_udp_sessions c))) \<and>
    (\<forall>k b. buffer_at (cn_udp_sessions c) k = Some b \<longrightarrow> packet_buffer_ok b)"
  using conn.reachable_inv [OF assms]
  by (simp add: connection_ok_def udp_sessions_ok_def task_associate_count_def)

theorem connection_counts_sessions_witness:
  "let c = snd (connection_send_packet 9 NoAddress 1200 (snd (connection_send_packet 4 NoAddress 1200
      connection_new)))
   in task_associate_count c = 2 \<and> card (dom (ss_sessions (cn_udp_sessions c))) = 2"
proof -
  let ?c1 = "snd (connection_send_packet 4 NoAddress 1200 connection_new)"
  let ?c2 = "snd (connection_send_packet 9 NoAddress 1200 ?c1)"
  have "reachable (\<lambda>c. c = connection_new) (connection_step True) ?c2"
    by (rule reachable_step [OF reachable_step [OF reachable_init]])
      (auto intro: step_send_packet [OF surjective_pairing])
  note count = connection_counts_sessions [OF this]
  have "task_associate_count ?c2 = 2"
    by (simp add: connection_send_packet_def udp_sessions_send_packet_def udp_session_send_packet_def
        sessions_entry_def sessions_store_def connection_new_def udp_sessions_new_def
        task_associate_count_def)
  with count show ?thesis by (simp add: Let_def)
qed

text \<open>
  C19: in every reachable state, assembling a received fragment panics only on its size assertion
  or on a number beyond the slots of a packet whose first seen fragment announced fewer; and when
  it completes a packet, reading that packet out never unwraps an empty slot and yields an
  address and the association of the fragment.
\<close>

theorem assemble_never_unwraps_nothing:
  assumes "reachable (\<lambda>c. c = connection_new) (connection_step oc) c"
    and "connection_assemble oc now rx data c = (r, c')"
  shows "case r of
      Panics p \<Rightarrow> p = AssertFailed \<and> length data \<noteq> unat (prx_size rx) \<or>
        p = IndexOutOfBounds \<and> (\<exists>b. buffer_at (cn_udp_sessions c) (packet_key rx) = Some b \<and>
          pb_frag_total b \<le> prx_frag_id rx \<and> prx_frag_id rx < prx_frag_total rx)
    | Returns (Inr (Some x)) \<Rightarrow> \<not> address_is_none (as_addr x) \<and>
        assemblable_assemble x vec =
          Returns (vec @ concat (map the (as_buf x)), as_addr x, prx_assoc_id rx)
    | Returns _ \<Rightarrow> True"
  by (rule assemble_outcome [OF conn.reachable_inv [OF assms(1)] assms(2)])

theorem assemble_never_unwraps_nothing_witness:
  "case fst (connection_assemble True 0 (packet_rx_new 3 1 1 0 1 (DomainAddress [97] 53)) [5]
      connection_new) of
     Returns (Inr (Some x)) \<Rightarrow> assemblable_assemble x [] = Returns ([5], DomainAddress [97] 53, 3)
   | _ \<Rightarrow> False"
proof -
  let ?rx = "packet_rx_new 3 1 1 0 1 (DomainAddress [97] 53)"
  have eval: "fst (connection_assemble True 0 ?rx [5] connection_new) =
      Returns (Inr (Some \<lparr>as_buf = [Some [5]], as_addr = DomainAddress [97] 53, as_assoc_id = 3\<rparr>))"
    by code_simp
  have "reachable (\<lambda>c. c = connection_new) (connection_step True) connection_new"
    by (rule reachable_init) simp
  from assemble_never_unwraps_nothing [OF this surjective_pairing, where now = 0 and rx = ?rx and
      data = "[5]" and vec = "[]"]
  show ?thesis unfolding eval by (simp add: packet_rx_new_def)
qed

text \<open>
  A fragment whose packet is already buffered with a smaller total, and whose number lies
  beyond that total, makes the task of the receiver panic: the number is compared with the total
  in the fragment's own header, not with the slots of the buffer.
\<close>

theorem larger_total_panics:
  assumes "buffer_at (cn_udp_sessions c) (a, p) = None"
    and "connection_assemble oc now (packet_rx_new a p n i (of_nat (length data)) addr) data c =
      (Returns (Inr None), c1)"
    and "length data \<le> 65535" and "length data' \<le> 65535"
    and "n \<le> j" and "j < m"
  shows "fst (connection_assemble oc now' (packet_rx_new a p m j (of_nat (length data')) NoAddress)
    data' c1) = Panics IndexOutOfBounds"
proof -
  let ?rx = "packet_rx_new a p n i (of_nat (length data)) addr"
  let ?rx' = "packet_rx_new a p m j (of_nat (length data')) NoAddress"
  have key: "packet_key ?rx = (a, p)" "packet_key ?rx' = (a, p)"
    by (simp_all add: packet_key_def packet_rx_new_def)
  have first: "slot_insert oc now ?rx data None = (Returns (Inr None), buffer_at (cn_udp_sessions c1) (a, p))"
    using packet_rx_assemble_slot(1) [OF connection_assemble_sessions [OF assms(2)]] assms(1) key by simp
  then have "buffer_at (cn_udp_sessions c1) (a, p) \<noteq> None"
    by (rule slot_insert_stays) simp
  then obtain b where b: "buffer_at (cn_udp_sessions c1) (a, p) = Some b" by blast
  have fits: "fragment_fits n i (of_nat (length data)) addr data (packet_buffer_new now n)"
    using first packet_buffer_insert_unchanged [of n i "of_nat (length data)" addr data
        "packet_buffer_new now n" oc a]
    by (auto simp: slot_insert_def packet_rx_new_def split: prod.splits)
  then have "0 < n" by (auto simp: fragment_fits_def word_less_nat_alt)
  have "length (pb_buf b) = unat n"
    using first b packet_buffer_insert_fits [OF packet_buffer_new_ok fits, of oc a]
    by (auto simp: slot_insert_def packet_rx_new_def Let_def put_fragment_def packet_buffer_new_def
        split: if_splits)
  moreover have "j \<noteq> 0" using \<open>0 < n\<close> assms(5) by auto
  ultimately have "fst (slot_insert oc now' ?rx' data' (Some b)) = Panics IndexOutOfBounds"
    using assms(4-6)
    by (simp add: slot_insert_def packet_rx_new_def packet_buffer_insert_def word_le_nat_alt
        word_less_nat_alt not_le)
  moreover obtain r c2 where second: "connection_assemble oc now' ?rx' data' c1 = (r, c2)"
    by (rule prod.exhaust)
  ultimately show ?thesis
    using packet_rx_assemble_slot(1) [OF connection_assemble_sessions [OF second]] key b
    by (simp add: second)
qed

theorem larger_total_panics_witness:
  "fst (connection_assemble True 1 (packet_rx_new 3 1 4 2 1 NoAddress) [6]
     (snd (connection_assemble True 0 (packet_rx_new 3 1 2 0 1 (DomainAddress [97] 53)) [5]
        connection_new))) = Panics IndexOutOfBounds"
proof -
  let ?rx = "packet_rx_new 3 1 2 0 (of_nat (length [5 :: u8])) (DomainAddress [97] 53)"
  have "fst (connection_assemble True 0 ?rx [5] connection_new) = Returns (Inr None)"
    by code_simp
  then have "connection_assemble True 0 ?rx [5] connection_new =
      (Returns (Inr None), snd (connection_assemble True 0 ?rx [5] connection_new))"
    by (metis prod.collapse)
  note panic = larger_total_panics [OF _ this, of "[6]" 2 4 1]
  show ?thesis
    using panic by (simp add: connection_new_def udp_sessions_new_def buffer_at_def)
qed

text \<open>
  A fragment of an association whose task was still on its way when the peer dissociated it
  brings the session back: the received packet assembles into a new session, which counts as
  an active association again, although new packets of it had been refused.
\<close>

theorem late_fragment_reopens_session:
  assumes "connection_recv_dissociate \<lparr>dh_assoc_id = prx_assoc_id rx\<rparr> c = (a, c1)"
    and "connection_assemble oc now rx data c1 = (r, c2)"
  shows "connection_recv_packet (packet_header_new (prx_assoc_id rx) p n i sz addr) c1 = None \<and>
    connection_recv_packet (packet_header_new (prx_assoc_id rx) p n i sz addr) c2 \<noteq> None \<and>
    task_associate_count c2 = task_associate_count c1 + 1"
proof -
  let ?a = "prx_assoc_id rx"
  have none: "ss_sessions (cn_udp_sessions c1) ?a = None"
    using assms(1) by (auto simp: connection_recv_dissociate_def udp_sessions_dissociate_def
        sessions_remove_def dissociate_into_def Let_def split: option.splits)
  have "ss_sessions (cn_udp_sessions c2) ?a \<noteq> None \<and>
      task_associate_count c2 = task_associate_count c1 + 1"
    using connection_assemble_sessions [OF assms(2)] none
    by (auto simp: packet_rx_assemble_def udp_sessions_insert_def sessions_entry_def
        sessions_store_def task_associate_count_def split: prod.splits
        dest!: sym [of _ "cn_udp_sessions c2"])
  with none show ?thesis
    by (auto simp: connection_recv_packet_def packet_into_def udp_sessions_recv_packet_def
        packet_header_new_def)
qed

theorem late_fragment_reopens_session_witness:
  "let c1 = snd (connection_recv_dissociate \<lparr>dh_assoc_id = 3\<rparr> (snd (connection_send_packet 3 NoAddress 1200
       connection_new)));
     c2 = snd (connection_assemble True 0 (packet_rx_new 3 1 2 0 1 (DomainAddress [97] 53)) [5] c1)
   in task_associate_count c1 = 0 \<and> task_associate_count c2 = 1"
proof -
  let ?c0 = "snd (connection_send_packet 3 NoAddress 1200 connection_new)"
  let ?c1 = "snd (connection_recv_dissociate \<lparr>dh_assoc_id = 3\<rparr> ?c0)"
  let ?rx = "packet_rx_new 3 1 2 0 1 (DomainAddress [97] 53)"
  have "prx_assoc_id ?rx = 3" by (simp add: packet_rx_new_def)
  then have "connection_recv_dissociate \<lparr>dh_assoc_id = prx_assoc_id ?rx\<rparr> ?c0 =
      (fst (connection_recv_dissociate \<lparr>dh_assoc_id = 3\<rparr> ?c0), ?c1)" by simp
  note reopened = late_fragment_reopens_session [OF this surjective_pairing, where oc = True and now = 0 and
      data = "[5]"]
  have "task_associate_count ?c1 = 0" by code_simp
  with reopened show ?thesis by (simp add: Let_def)
qed

text \<open>A sequence of \<open>send_packet\<close> calls, of any associations.\<close>

fun send_packets :: "(u16 \<times> address \<times> nat) list \<Rightarrow> connection \<Rightarrow> packet_tx list \<times> connection" where
  "send_packets [] c = ([], c)"
| "send_packets ((a, addr, sz) # reqs) c =
     (case connection_send_packet a addr sz c of (tx, c) \<Rightarrow>
      case send_packets reqs c of (txs, c) \<Rightarrow> (tx # txs, c))"

definition next_pkt_id :: "connection \<Rightarrow> u16 \<Rightarrow> u16" where
  "next_pkt_id c a = (case ss_sessions (cn_udp_sessions c) a of Some u \<Rightarrow> us_next_pkt_id u | None \<Rightarrow> 0)"

lemma connection_send_packet_id:
  assumes "connection_send_packet a addr sz c = (tx, c')"
  shows "tx = packet_tx_new a (next_pkt_id c a) addr sz"
    and "next_pkt_id c' b = (if b = a then next_pkt_id c a + 1 else next_pkt_id c b)"
  using assms
  by (auto simp: connection_send_packet_def udp_sessions_send_packet_def udp_session_send_packet_def
      sessions_entry_def sessions_store_def next_pkt_id_def udp_session_new_def
      split: option.splits prod.splits)

lemma send_packets_ids:
  assumes "send_packets reqs c = (txs, c')"
  shows "map ptx_pkt_id (filter (\<lambda>tx. ptx_assoc_id tx = a) txs) =
    map (\<lambda>i. next_pkt_id c a + of_nat i) [0..<length (filter (\<lambda>r. fst r = a) reqs)]"
  using assms
proof (induction reqs arbitrary: c txs)
  case Nil
  then show ?case by simp
next
  case (Cons req reqs)
  obtain b addr sz where req: "req = (b, addr, sz)" by (cases req)
  obtain tx c1 where send: "connection_send_packet b addr sz c = (tx, c1)" by (rule prod.exhaust)
  from Cons.prems req send obtain txs1 where rest: "send_packets reqs c1 = (txs1, c')"
    and txs: "txs = tx # txs1" by (auto split: prod.splits)
  note ids = connection_send_packet_id [OF send]
  show ?case
    using Cons.IH [OF rest] ids
    by (simp add: req txs packet_tx_new_def upt_conv_Cons map_Suc_upt [symmetric] o_def add_ac
        del: upt_Suc)
qed

text \<open>
  C40: among any 65536 packets a connection sends in one association, interleaved with those of
  other associations, no two have the same packet number: the counter wraps only after all of
  them are used.
\<close>

theorem packet_ids_distinct:
  assumes "send_packets reqs c = (txs, c')"
    and "length (filter (\<lambda>tx. ptx_assoc_id tx = a) txs) \<le> 65536"
  shows "distinct (map ptx_pkt_id (filter (\<lambda>tx. ptx_assoc_id tx = a) txs))"
proof -
  let ?n = "length (filter (\<lambda>r. fst r = a) reqs)"
  note ids = send_packets_ids [OF assms(1), of a]
  from arg_cong [OF ids, of length] assms(2) have "?n \<le> 65536" by simp
  then have "inj_on (\<lambda>i. next_pkt_id c a + of_nat i) {0..<?n}"
    by (intro inj_onI) (auto dest!: arg_cong [of _ _ unat])
  then show ?thesis by (simp add: ids distinct_map)
qed

theorem packet_ids_distinct_witness:
  "map ptx_pkt_id (fst (send_packets [(1, NoAddress, 9), (2, NoAddress, 9), (1, NoAddress, 9)]
     connection_new)) = [0, 0, 1] \<and>
   distinct (map ptx_pkt_id (filter (\<lambda>tx. ptx_assoc_id tx = 1)
     (fst (send_packets [(1, NoAddress, 9), (2, NoAddress, 9), (1, NoAddress, 9)] connection_new))))"
proof -
  have txs: "fst (send_packets [(1, NoAddress, 9), (2, NoAddress, 9), (1, NoAddress, 9)] connection_new)
      = [packet_tx_new 1 0 NoAddress 9, packet_tx_new 2 0 NoAddress 9, packet_tx_new 1 1 NoAddress 9]"
    by code_simp
  have "length (filter (\<lambda>tx. ptx_assoc_id tx = 1) (fst (send_packets
      [(1, NoAddress, 9), (2, NoAddress, 9), (1, NoAddress, 9)] connection_new))) \<le> 65536"
    unfolding txs by (simp add: packet_tx_new_def)
  note distinct = packet_ids_distinct [OF surjective_pairing this]
  show ?thesis by (intro conjI distinct) (simp only: txs, simp add: packet_tx_new_def)
qed

text \<open>
  Garbage collection drops exactly the packets whose first fragment arrived a timeout ago or
  earlier, and no session: a fragment that comes later finds a fresh buffer, so fragments from
  before and after the deadline are never joined, while the younger packets go on.
\<close>

theorem collect_garbage_drops_old_packets:
  assumes "connection_collect_garbage now timeout c = c'"
  shows "buffer_at (cn_udp_sessions c') k =
      (case buffer_at (cn_udp_sessions c) k of
         Some b \<Rightarrow> if timeout \<le> now - pb_c_time b then None else Some b
       | None \<Rightarrow> None) \<and>
    dom (ss_sessions (cn_udp_sessions c')) = dom (ss_sessions (cn_udp_sessions c)) \<and>
    task_associate_count c' = task_associate_count c"
proof -
  have "cn_udp_sessions c' = udp_sessions_collect_garbage now timeout (cn_udp_sessions c)"
    using assms by (auto simp: connection_collect_garbage_def)
  moreover have "ss_task_associate_count (udp_sessions_collect_garbage now timeout s) =
      ss_task_associate_count s" for s by (simp add: udp_sessions_collect_garbage_def)
  ultimately show ?thesis
    by (simp add: buffer_at_collect_garbage dom_collect_garbage task_associate_count_def
        split: option.split)
qed

theorem collect_garbage_drops_old_packets_witness:
  "let c = snd (connection_assemble True 5 (packet_rx_new 3 1 2 0 1 (DomainAddress [97] 53)) [5]
       connection_new)
   in buffer_at (cn_udp_sessions (connection_collect_garbage 14 10 c)) (3, 1) \<noteq> None \<and>
     buffer_at (cn_udp_sessions (connection_collect_garbage 15 10 c)) (3, 1) = None"
proof -
  let ?c = "snd (connection_assemble True 5 (packet_rx_new 3 1 2 0 1 (DomainAddress [97] 53)) [5]
       connection_new)"
  have "map_option pb_c_time (buffer_at (cn_udp_sessions ?c) (3, 1)) = Some 5" by code_simp
  then obtain b where "buffer_at (cn_udp_sessions ?c) (3, 1) = Some b" "pb_c_time b = 5" by auto
  with collect_garbage_drops_old_packets [OF refl, of 14 10 ?c "(3, 1)"]
    collect_garbage_drops_old_packets [OF refl, of 15 10 ?c "(3, 1)"]
  show ?thesis by (simp add: Let_def)
qed

end
