(* ===== verification/Tuic_Reassembly.thy ===== *)
theory Tuic_Reassembly
  imports Tuic_Sessions
begin

text \<open>
  Reassembly across the tasks of a connection. Each received fragment is assembled by a task of
  its own, so the fragments of many packets arrive in any order and interleaved. A trace is the
  order in which the tasks take the lock; the lemmas show that what a trace does to one packet
  depends on that packet's fragments alone, and that these complete it in any order.
\<close>

section \<open>Traces\<close>

type_synonym arrival = "nat \<times> packet_rx \<times> bytes"

type_synonym assembled = "(assemble_error + assemblable option) outcome"

fun assemble_trace :: "bool \<Rightarrow> arrival list \<Rightarrow> udp_sessions \<Rightarrow> assembled list \<times> udp_sessions" where
  "assemble_trace oc [] s = ([], s)"
| "assemble_trace oc ((now, rx, data) # tr) s =
     (case packet_rx_assemble oc now rx data s of (r, s) \<Rightarrow>
      case assemble_trace oc tr s of (rs, s) \<Rightarrow> (r # rs, s))"

definition concerns :: "u16 \<times> u16 \<Rightarrow> arrival \<Rightarrow> bool" where
  "concerns k ev = (packet_key (fst (snd ev)) = k)"

text \<open>The outcomes a trace has for one packet.\<close>

definition outcomes_of :: "u16 \<times> u16 \<Rightarrow> arrival list \<Rightarrow> assembled list \<Rightarrow> assembled list" where
  "outcomes_of k tr rs = map snd (filter (\<lambda>(ev, _). concerns k ev) (zip tr rs))"

text \<open>The same trace on the buffer of a single packet.\<close>

fun slot_trace :: "bool \<Rightarrow> arrival list \<Rightarrow> packet_buffer option \<Rightarrow> assembled list \<times> packet_buffer option"
  where
  "slot_trace oc [] slot = ([], slot)"
| "slot_trace oc ((now, rx, data) # tr) slot =
     (case slot_insert oc now rx data slot of (r, slot) \<Rightarrow>
      case slot_trace oc tr slot of (rs, slot) \<Rightarrow> (r # rs, slot))"

lemma assemble_trace_slot:
  assumes "assemble_trace oc tr s = (rs, s')"
  shows "slot_trace oc (filter (concerns k) tr) (buffer_at s k) = (outcomes_of k tr rs, buffer_at s' k)"
  using assms
proof (induction tr arbitrary: s rs)
  case Nil
  then show ?case by (simp add: outcomes_of_def)
next
  case (Cons ev tr)
  obtain now rx data where ev: "ev = (now, rx, data)" by (cases ev)
  obtain r s1 where step: "packet_rx_assemble oc now rx data s = (r, s1)" by (rule prod.exhaust)
  from Cons.prems ev step obtain rs1 where rest: "assemble_trace oc tr s1 = (rs1, s')"
    and rs: "rs = r # rs1" by (auto split: prod.splits)
  show ?case
    using Cons.IH [OF rest] packet_rx_assemble_slot [OF step]
    by (cases "packet_key rx = k") (auto simp: ev rs concerns_def outcomes_of_def)
qed

section \<open>The fragments of one packet\<close>

definition fragment_arrival :: "u16 \<Rightarrow> u16 \<Rightarrow> address \<Rightarrow> bytes list \<Rightarrow> nat \<Rightarrow> nat \<Rightarrow> arrival" where
  "fragment_arrival a p addr ds now i =
     (now, packet_rx_new a p (of_nat (length ds)) (of_nat i) (of_nat (length (ds ! i)))
       (if i = 0 then addr else NoAddress), ds ! i)"

lemma slot_trace_fills:
  assumes "length ds \<le> 255" and "\<not> address_is_none addr" and "\<forall>d \<in> set ds. length d \<le> 65535"
    and "distinct is" and "set is \<inter> S = {}" and "set is \<union> S = {..<length ds}" and "is \<noteq> []"
    and "length ts = length is"
  shows "slot_trace oc (map2 (fragment_arrival a p addr ds) ts is) (Some (buffer_with now addr ds S)) =
    (replicate (length is - 1) (Returns (Inr None)) @
       [Returns (Inr (Some (assemblable_new (map Some ds) addr a)))], None)"
  using assms(4-8)
proof (induction "is" arbitrary: S ts)
  case Nil
  then show ?case by simp
next
  case (Cons i "is")
  then obtain t ts' where ts: "ts = t # ts'" by (cases ts) auto
  have i: "i < length ds" "S \<subseteq> {..<length ds}" "i \<notin> S" using Cons.prems by auto
  have "length (ds ! i) \<le> 65535" using assms(3) i(1) by simp
  note ins = insert_into_buffer_with [OF i assms(1,2) this, of oc a now]
  show ?case
  proof (cases "is = []")
    case True
    with Cons.prems have "insert i S = {..<length ds}" by auto
    with ins ts True Cons.prems show ?thesis
      by (simp add: fragment_arrival_def slot_insert_def packet_rx_new_def)
  next
    case False
    then obtain j js where "is": "is = j # js" by (cases "is") auto
    with Cons.prems have "j \<in> {..<length ds}" "j \<notin> insert i S" by auto
    then have "insert i S \<noteq> {..<length ds}" by blast
    then have "slot_insert oc t (fst (snd (fragment_arrival a p addr ds t i))) (ds ! i)
        (Some (buffer_with now addr ds S)) = (Returns (Inr None), Some (buffer_with now addr ds (insert i S)))"
      using ins by (simp add: fragment_arrival_def slot_insert_def packet_rx_new_def)
    moreover have "slot_trace oc (map2 (fragment_arrival a p addr ds) ts' is)
        (Some (buffer_with now addr ds (insert i S))) =
      (replicate (length is - 1) (Returns (Inr None)) @
         [Returns (Inr (Some (assemblable_new (map Some ds) addr a)))], None)"
      using Cons.prems False ts by (intro Cons.IH) auto
    ultimately show ?thesis using ts "is" by (simp add: fragment_arrival_def)
  qed
qed

lemma slot_insert_fresh:
  "slot_insert oc now rx data None =
    slot_insert oc now rx data (Some (packet_buffer_new now (prx_frag_total rx)))"
  by (simp add: slot_insert_def)

lemma slot_trace_completes:
  assumes "ds \<noteq> []" and "length ds \<le> 255" and "\<not> address_is_none addr"
    and "\<forall>d \<in> set ds. length d \<le> 65535"
    and "distinct is" and "set is = {..<length ds}" and "length ts = length is"
  shows "slot_trace oc (map2 (fragment_arrival a p addr ds) ts is) None =
    (replicate (length ds - 1) (Returns (Inr None)) @
       [Returns (Inr (Some (assemblable_new (map Some ds) addr a)))], None)"
proof -
  have len: "length is = length ds" using distinct_card [OF assms(5)] assms(6) by simp
  then obtain i js t ts' where cons: "is = i # js" "ts = t # ts'"
    using assms(1,7) by (cases "is"; cases ts) auto
  have "slot_trace oc (map2 (fragment_arrival a p addr ds) ts is) None =
    slot_trace oc (map2 (fragment_arrival a p addr ds) ts is) (Some (buffer_with t addr ds {}))"
    using slot_insert_fresh buffer_with_empty [OF assms(2)]
    by (simp add: cons fragment_arrival_def packet_rx_new_def)
  also have "\<dots> = (replicate (length is - 1) (Returns (Inr None)) @
       [Returns (Inr (Some (assemblable_new (map Some ds) addr a)))], None)"
    using assms cons by (intro slot_trace_fills) auto
  finally show ?thesis by (simp add: len)
qed

section \<open>Properties\<close>

text \<open>
  C8: reassembly under interleaving. Let a trace of arrivals contain, among the fragments of any
  other packets, the fragments of one packet in any order, each once, none of which had arrived
  before. Then each of them is kept, the last one to arrive completes the packet, its data is
  the concatenation of the fragments in the order of their numbers, with the address of the
  first one, and the sessions hold nothing of the packet any more.
\<close>

theorem reassembles_in_any_order:
  assumes "ds \<noteq> []" and "length ds \<le> 255" and "\<not> address_is_none addr"
    and "\<forall>d \<in> set ds. length d \<le> 65535"
    and "distinct is" and "set is = {..<length ds}" and "length ts = length is"
    and "filter (concerns (a, p)) tr = map2 (fragment_arrival a p addr ds) ts is"
    and "buffer_at s (a, p) = None" and "assemble_trace oc tr s = (rs, s')"
  shows "\<exists>x. outcomes_of (a, p) tr rs = replicate (length ds - 1) (Returns (Inr None)) @
        [Returns (Inr (Some x))] \<and>
      assemblable_assemble x [] = Returns (concat ds, addr, a) \<and> buffer_at s' (a, p) = None"
proof -
  have "(outcomes_of (a, p) tr rs, buffer_at s' (a, p)) =
      (replicate (length ds - 1) (Returns (Inr None)) @
        [Returns (Inr (Some (assemblable_new (map Some ds) addr a)))], None)"
    using assemble_trace_slot [OF assms(10), of "(a, p)"] slot_trace_completes [OF assms(1-7)]
      assms(8,9) by simp
  then show ?thesis by (auto simp: assemblable_assemble_def assemblable_new_def)
qed

theorem reassembles_in_any_order_witness:
  "let addr = DomainAddress [97] 53; ds = [[1, 2], [3]];
     other = packet_rx_new 3 8 2 0 1 addr;
     tr = [fragment_arrival 3 7 addr ds 0 1, (1, other, [9]), fragment_arrival 3 7 addr ds 2 0]
   in \<exists>x. outcomes_of (3, 7) tr (fst (assemble_trace True tr udp_sessions_new)) =
        [Returns (Inr None), Returns (Inr (Some x))] \<and>
      assemblable_assemble x [] = Returns ([1, 2, 3], addr, 3)"
proof -
  let ?addr = "DomainAddress [97] 53"
  let ?ds = "[[1, 2], [3]] :: bytes list"
  let ?tr = "[fragment_arrival 3 7 ?addr ?ds 0 1, (1, packet_rx_new 3 8 2 0 1 ?addr, [9]),
     fragment_arrival 3 7 ?addr ?ds 2 0]"
  have "filter (concerns (3, 7)) ?tr = map2 (fragment_arrival 3 7 ?addr ?ds) [0, 2] [1, 0]"
    by (simp add: concerns_def packet_key_def fragment_arrival_def packet_rx_new_def)
  moreover have "set [1, 0] = {..<length ?ds}" by (auto simp: lessThan_Suc)
  ultimately obtain x where "outcomes_of (3, 7) ?tr (fst (assemble_trace True ?tr udp_sessions_new)) =
      replicate (length ?ds - 1) (Returns (Inr None)) @ [Returns (Inr (Some x))]"
    and "assemblable_assemble x [] = Returns (concat ?ds, ?addr, 3)"
    using reassembles_in_any_order [of ?ds ?addr "[1, 0]" "[0, 2]" 3 7 ?tr udp_sessions_new True
        "fst (assemble_trace True ?tr udp_sessions_new)" "snd (assemble_trace True ?tr udp_sessions_new)"]
    by auto
  then show ?thesis unfolding Let_def by (intro exI [of _ x]) simp
qed

end
