(* ===== verification/Tuic_Quinn.thy ===== *)
theory Tuic_Quinn
  imports Tuic_Unmarshal Tuic_Reassembly
begin

text \<open>
  The TUIC connection over QUIC: \<^verbatim>\<open>tuic-quinn/src/lib.rs\<close>, its sending operations and its parsing of
  streams and datagrams into tasks, for the client and the server side. The quinn crate is a
  parameter: \<open>quic\<close> holds the calls the source makes on a \<open>quinn::Connection\<close> of state \<open>'q\<close>, with
  errors \<open>'e\<close> and send streams \<open>'s\<close>; a receive stream \<open>'r\<close> comes with its \<open>read_exact\<close>.
\<close>

section \<open>The calls on quinn\<close>

record ('q, 'e, 's, 'r) quic =
  max_datagram_size :: "'q \<Rightarrow> nat option"
  send_datagram :: "bytes \<Rightarrow> 'q \<Rightarrow> ('e + unit) \<times> 'q"
  datagram_disabled :: 'e
  open_uni :: "'q \<Rightarrow> ('e + 's) \<times> 'q"
  open_bi :: "'q \<Rightarrow> ('e + 's \<times> 'r) \<times> 'q"
  poll_write_all :: "'s \<Rightarrow> bytes \<Rightarrow> 'q \<Rightarrow> (io_error + unit) \<times> 'q"
  write_all :: "'s \<Rightarrow> bytes \<Rightarrow> 'q \<Rightarrow> ('e + unit) \<times> 'q"
  finish :: "'s \<Rightarrow> 'q \<Rightarrow> ('e + unit) \<times> 'q"
  export_keying_material :: "'q \<Rightarrow> nat \<Rightarrow> bytes \<Rightarrow> bytes \<Rightarrow> 'e + bytes"

text \<open>
  The last constructor is not one of the source's enumeration: the operations that return an
  \<open>eyre::Result\<close> also report a \<open>ClosedStream\<close>.
\<close>

datatype ('e, 's, 'r) quinn_error =
    IoError io_error
  | ConnectionErr 'e
  | SendDatagramErr 'e
  | PayloadLength nat nat
  | InvalidUdpSession u16 u16
  | Assemble assemble_error
  | UnmarshalUniStream unmarshal_error 'r
  | UnmarshalBiStream unmarshal_error 's 'r
  | UnmarshalDatagram unmarshal_error bytes
  | BadCommandUniStream string 'r
  | BadCommandBiStream string 's 'r
  | BadCommandDatagram string bytes
  | QuicWriteError 'e
  | EyreReport 'e

section \<open>Sending\<close>

text \<open>
  The bodies of the two sending loops; the fragments are what \<open>fragments_run\<close> yields before it
  ends, and an error of the transport returns from the loop at once.
\<close>

definition fragment_datagram :: "'u uuid_lib \<Rightarrow> 'u header \<times> bytes \<Rightarrow> bytes" where
  "fragment_datagram U item = (case item of (header, frag) \<Rightarrow> put_slice (header_write U header []) frag)"

fun send_datagrams ::
    "'u uuid_lib \<Rightarrow> ('q, 'e, 's, 'r) quic \<Rightarrow> ('u header \<times> bytes) list \<Rightarrow> 'q \<Rightarrow>
      (('e, 's, 'r) quinn_error + unit) \<times> 'q" where
  "send_datagrams U Q [] q = (Inr (), q)"
| "send_datagrams U Q (item # items) q =
     (case send_datagram Q (fragment_datagram U item) q of
        (Inl e, q) \<Rightarrow> (Inl (SendDatagramErr e), q)
      | (Inr _, q) \<Rightarrow> send_datagrams U Q items q)"

text \<open>One command on a unidirectional stream of its own: open, write the header, the data, finish.\<close>

definition send_uni ::
    "'u uuid_lib \<Rightarrow> ('q, 'e, 's, 'r) quic \<Rightarrow> 'u header \<Rightarrow> bytes option \<Rightarrow> 'q \<Rightarrow>
      (('e, 's, 'r) quinn_error + unit) \<times> 'q" where
  "send_uni U Q header data q =
     (case open_uni Q q of
        (Inl e, q) \<Rightarrow> (Inl (ConnectionErr e), q)
      | (Inr send, q) \<Rightarrow>
     (case async_marshal U (poll_write_all Q send) header q of
        (Inl e, q) \<Rightarrow> (Inl (IoError e), q)
      | (Inr _, q) \<Rightarrow>
     (case (case data of None \<Rightarrow> (Inr (), q) | Some frag \<Rightarrow> write_all Q send frag q) of
        (Inl e, q) \<Rightarrow> (Inl (QuicWriteError e), q)
      | (Inr _, q) \<Rightarrow>
     (case finish Q send q of
        (Inl e, q) \<Rightarrow> (Inl (EyreReport e), q)
      | (Inr _, q) \<Rightarrow> (Inr (), q)))))"

fun send_streams ::
    "'u uuid_lib \<Rightarrow> ('q, 'e, 's, 'r) quic \<Rightarrow> ('u header \<times> bytes) list \<Rightarrow> 'q \<Rightarrow>
      (('e, 's, 'r) quinn_error + unit) \<times> 'q" where
  "send_streams U Q [] q = (Inr (), q)"
| "send_streams U Q ((header, frag) # items) q =
     (case send_uni U Q header (Some frag) q of
        (Inl e, q) \<Rightarrow> (Inl e, q)
      | (Inr _, q) \<Rightarrow> send_streams U Q items q)"

definition finish_loop :: "panic option \<Rightarrow> ('err + unit) \<Rightarrow> ('err + unit) outcome" where
  "finish_loop fin res = (case res of
     Inl e \<Rightarrow> Returns (Inl e)
   | Inr _ \<Rightarrow> (case fin of None \<Rightarrow> Returns (Inr ()) | Some p \<Rightarrow> Panics p))"

definition packet_native ::
    "bool \<Rightarrow> 'u uuid_lib \<Rightarrow> ('q, 'e, 's, 'r) quic \<Rightarrow> bytes \<Rightarrow> address \<Rightarrow> u16 \<Rightarrow> connection \<times> 'q \<Rightarrow>
      (('e, 's, 'r) quinn_error + unit) outcome \<times> connection \<times> 'q" where
  "packet_native oc U Q pkt addr assoc_id cq = (case cq of (c, q) \<Rightarrow>
     (case max_datagram_size Q q of
        None \<Rightarrow> (Returns (Inl (SendDatagramErr (datagram_disabled Q))), c, q)
      | Some max_pkt_size \<Rightarrow>
     (case connection_send_packet assoc_id addr max_pkt_size c of (model, c) \<Rightarrow>
     (case into_fragments oc model pkt of
        Panics p \<Rightarrow> (Panics p, c, q)
      | Returns f \<Rightarrow>
     (case fragments_run oc f of (items, fin) \<Rightarrow>
     (case send_datagrams U Q items q of (res, q) \<Rightarrow> (finish_loop fin res, c, q)))))))"

definition packet_quic ::
    "bool \<Rightarrow> 'u uuid_lib \<Rightarrow> ('q, 'e, 's, 'r) quic \<Rightarrow> bytes \<Rightarrow> address \<Rightarrow> u16 \<Rightarrow> connection \<times> 'q \<Rightarrow>
      (('e, 's, 'r) quinn_error + unit) outcome \<times> connection \<times> 'q" where
  "packet_quic oc U Q pkt addr assoc_id cq = (case cq of (c, q) \<Rightarrow>
     (case connection_send_packet assoc_id addr 65535 c of (model, c) \<Rightarrow>
     (case into_fragments oc model pkt of
        Panics p \<Rightarrow> (Panics p, c, q)
      | Returns f \<Rightarrow>
     (case fragments_run oc f of (items, fin) \<Rightarrow>
     (case send_streams U Q items q of (res, q) \<Rightarrow> (finish_loop fin res, c, q))))))"

text \<open>The exporter of a connection: 32 zero bytes when quinn reports an error.\<close>

definition keying_material_exporter :: "('q, 'e, 's, 'r) quic \<Rightarrow> 'q \<Rightarrow> exporter" where
  "keying_material_exporter Q q label ctx = (case export_keying_material Q q 32 label ctx of
     Inl _ \<Rightarrow> replicate 32 0 | Inr buf \<Rightarrow> buf)"

definition client_authenticate ::
    "'u uuid_lib \<Rightarrow> ('q, 'e, 's, 'r) quic \<Rightarrow> 'u \<Rightarrow> bytes \<Rightarrow> 'q \<Rightarrow>
      (('e, 's, 'r) quinn_error + unit) \<times> 'q" where
  "client_authenticate U Q uuid password q =
     send_uni U Q (Authenticate (connection_send_authenticate U uuid password
       (keying_material_exporter Q q))) None q"

definition client_dissociate ::
    "'u uuid_lib \<Rightarrow> ('q, 'e, 's, 'r) quic \<Rightarrow> u16 \<Rightarrow> connection \<times> 'q \<Rightarrow>
      (('e, 's, 'r) quinn_error + unit) \<times> connection \<times> 'q" where
  "client_dissociate U Q assoc_id cq = (case cq of (c, q) \<Rightarrow>
     (case connection_send_dissociate assoc_id c of (header, c) \<Rightarrow>
     (case send_uni U Q (Dissociate header) None q of (r, q) \<Rightarrow> (r, c, q))))"

definition client_heartbeat ::
    "'u uuid_lib \<Rightarrow> ('q, 'e, 's, 'r) quic \<Rightarrow> 'q \<Rightarrow> (('e, 's, 'r) quinn_error + unit) \<times> 'q" where
  "client_heartbeat U Q q =
     (case send_datagram Q (header_write U connection_send_heartbeat []) q of
        (Inl e, q) \<Rightarrow> (Inl (SendDatagramErr e), q)
      | (Inr _, q) \<Rightarrow> (Inr (), q))"

text \<open>A failed \<open>connect\<close> drops the model and with it its register.\<close>

definition client_connect ::
    "'u uuid_lib \<Rightarrow> ('q, 'e, 's, 'r) quic \<Rightarrow> address \<Rightarrow> connection \<times> 'q \<Rightarrow>
      (('e, 's, 'r) quinn_error + connect_header \<times> 's \<times> 'r) \<times> connection \<times> 'q" where
  "client_connect U Q addr cq = (case cq of (c, q) \<Rightarrow>
     (case connection_send_connect addr c of (header, c) \<Rightarrow>
     (case open_bi Q q of
        (Inl e, q) \<Rightarrow> (Inl (ConnectionErr e), connection_drop_connect c, q)
      | (Inr (send, recv), q) \<Rightarrow>
     (case async_marshal U (poll_write_all Q send) (Connect header :: 'u header) q of
        (Inl e, q) \<Rightarrow> (Inl (IoError e), connection_drop_connect c, q)
      | (Inr _, q) \<Rightarrow> (Inr (header, send, recv), c, q)))))"

section \<open>Receiving\<close>

datatype 'r packet_source = SourceQuic 'r | SourceNative bytes

datatype ('u, 's, 'r) task =
    TaskAuthenticate "'u authenticate_rx"
  | TaskConnect connect_rx 's 'r
  | TaskPacket packet_rx "'r packet_source"
  | TaskDissociate u16
  | TaskHeartbeat

definition client_accept_uni_stream ::
    "'u uuid_lib \<Rightarrow> (nat \<Rightarrow> ('r, io_error, bytes) reader) \<Rightarrow> 'r \<Rightarrow> connection \<Rightarrow>
      ('e, 's, 'r) quinn_error + ('u, 's, 'r) task" where
  "client_accept_uni_stream U rd recv c = (case async_unmarshal U rd recv of
     (Inl err, recv) \<Rightarrow> Inl (UnmarshalUniStream err recv)
   | (Inr header, recv) \<Rightarrow> (case header of
       Authenticate _ \<Rightarrow> Inl (BadCommandUniStream ''authenticate'' recv)
     | Connect _ \<Rightarrow> Inl (BadCommandUniStream ''connect'' recv)
     | Packet pkt \<Rightarrow> (case connection_recv_packet pkt c of
         None \<Rightarrow> Inl (InvalidUdpSession (ph_assoc_id pkt) (ph_pkt_id pkt))
       | Some rx \<Rightarrow> Inr (TaskPacket rx (SourceQuic recv)))
     | Dissociate _ \<Rightarrow> Inl (BadCommandUniStream ''dissociate'' recv)
     | Heartbeat _ \<Rightarrow> Inl (BadCommandUniStream ''heartbeat'' recv)))"

definition client_accept_bi_stream ::
    "'u uuid_lib \<Rightarrow> (nat \<Rightarrow> ('r, io_error, bytes) reader) \<Rightarrow> 's \<Rightarrow> 'r \<Rightarrow>
      ('e, 's, 'r) quinn_error + ('u, 's, 'r) task" where
  "client_accept_bi_stream U rd send recv = (case async_unmarshal U rd recv of
     (Inl err, recv) \<Rightarrow> Inl (UnmarshalBiStream err send recv)
   | (Inr (header :: 'u header), recv) \<Rightarrow> (case header of
       Authenticate _ \<Rightarrow> Inl (BadCommandBiStream ''authenticate'' send recv)
     | Connect _ \<Rightarrow> Inl (BadCommandBiStream ''connect'' send recv)
     | Packet _ \<Rightarrow> Inl (BadCommandBiStream ''packet'' send recv)
     | Dissociate _ \<Rightarrow> Inl (BadCommandBiStream ''dissociate'' send recv)
     | Heartbeat _ \<Rightarrow> Inl (BadCommandBiStream ''heartbeat'' send recv)))"

text \<open>\<open>Bytes::slice\<close> panics on a range that ends beyond the bytes.\<close>

definition bytes_slice :: "nat \<Rightarrow> nat \<Rightarrow> bytes \<Rightarrow> bytes outcome" where
  "bytes_slice i j b = (if i \<le> j \<and> j \<le> length b then Returns (take (j - i) (drop i b))
     else Panics SliceOutOfRange)"

definition client_accept_datagram ::
    "'u uuid_lib \<Rightarrow> bytes \<Rightarrow> connection \<Rightarrow> (('e, 's, 'r) quinn_error + ('u, 's, 'r) task) outcome" where
  "client_accept_datagram U dg c = (case unmarshal U cursor_read_exact (cursor_new dg) of
     (Inl err, dg) \<Rightarrow> Returns (Inl (UnmarshalDatagram err (cursor_inner dg)))
   | (Inr header, dg) \<Rightarrow> (case header of
       Authenticate _ \<Rightarrow> Returns (Inl (BadCommandDatagram ''authenticate'' (cursor_inner dg)))
     | Connect _ \<Rightarrow> Returns (Inl (BadCommandDatagram ''connect'' (cursor_inner dg)))
     | Packet pkt \<Rightarrow> (case connection_recv_packet pkt c of
         Some rx \<Rightarrow>
           (let pos = cursor_position dg; buf = cursor_inner dg in
            if pos + unat (prx_size rx) \<le> length buf then
              outcome_bind (bytes_slice pos (pos + unat (prx_size rx)) buf) (\<lambda>buf.
              Returns (Inr (TaskPacket rx (SourceNative buf))))
            else Returns (Inl (PayloadLength (unat (prx_size rx)) (length buf - pos))))
       | None \<Rightarrow> Returns (Inl (InvalidUdpSession (ph_assoc_id pkt) (ph_pkt_id pkt))))
     | Dissociate _ \<Rightarrow> Returns (Inl (BadCommandDatagram ''dissociate'' (cursor_inner dg)))
     | Heartbeat _ \<Rightarrow> Returns (Inl (BadCommandDatagram ''heartbeat'' (cursor_inner dg)))))"

definition server_accept_uni_stream ::
    "'u uuid_lib \<Rightarrow> (nat \<Rightarrow> ('r, io_error, bytes) reader) \<Rightarrow> 'r \<Rightarrow> connection \<Rightarrow>
      (('e, 's, 'r) quinn_error + ('u, 's, 'r) task) \<times> connection" where
  "server_accept_uni_stream U rd recv c = (case async_unmarshal U rd recv of
     (Inl err, recv) \<Rightarrow> (Inl (UnmarshalUniStream err recv), c)
   | (Inr header, recv) \<Rightarrow> (case header of
       Authenticate auth \<Rightarrow> (Inr (TaskAuthenticate (connection_recv_authenticate auth)), c)
     | Connect _ \<Rightarrow> (Inl (BadCommandUniStream ''connect'' recv), c)
     | Packet pkt \<Rightarrow> (case connection_recv_packet_unrestricted pkt c of (model, c) \<Rightarrow>
         (Inr (TaskPacket model (SourceQuic recv)), c))
     | Dissociate dissoc \<Rightarrow> (case connection_recv_dissociate dissoc c of (assoc_id, c) \<Rightarrow>
         (Inr (TaskDissociate assoc_id), c))
     | Heartbeat _ \<Rightarrow> (Inl (BadCommandUniStream ''heartbeat'' recv), c)))"

definition server_accept_bi_stream ::
    "'u uuid_lib \<Rightarrow> (nat \<Rightarrow> ('r, io_error, bytes) reader) \<Rightarrow> 's \<Rightarrow> 'r \<Rightarrow> connection \<Rightarrow>
      (('e, 's, 'r) quinn_error + ('u, 's, 'r) task) \<times> connection" where
  "server_accept_bi_stream U rd send recv c = (case async_unmarshal U rd recv of
     (Inl err, recv) \<Rightarrow> (Inl (UnmarshalBiStream err send recv), c)
   | (Inr (header :: 'u header), recv) \<Rightarrow> (case header of
       Authenticate _ \<Rightarrow> (Inl (BadCommandBiStream ''authenticate'' send recv), c)
     | Connect conn \<Rightarrow> (case connection_recv_connect conn c of (model, c) \<Rightarrow>
         (Inr (TaskConnect model send recv), c))
     | Packet _ \<Rightarrow> (Inl (BadCommandBiStream ''packet'' send recv), c)
     | Dissociate _ \<Rightarrow> (Inl (BadCommandBiStream ''dissociate'' send recv), c)
     | Heartbeat _ \<Rightarrow> (Inl (BadCommandBiStream ''heartbeat'' send recv), c)))"

text \<open>A panic comes after \<open>recv_packet_unrestricted\<close> and leaves the session it opened.\<close>

definition server_accept_datagram ::
    "'u uuid_lib \<Rightarrow> bytes \<Rightarrow> connection \<Rightarrow>
      (('e, 's, 'r) quinn_error + ('u, 's, 'r) task) outcome \<times> connection" where
  "server_accept_datagram U dg c = (case unmarshal U cursor_read_exact (cursor_new dg) of
     (Inl err, dg) \<Rightarrow> (Returns (Inl (UnmarshalDatagram err (cursor_inner dg))), c)
   | (Inr header, dg) \<Rightarrow> (case header of
       Authenticate _ \<Rightarrow> (Returns (Inl (BadCommandDatagram ''authenticate'' (cursor_inner dg))), c)
     | Connect _ \<Rightarrow> (Returns (Inl (BadCommandDatagram ''connect'' (cursor_inner dg))), c)
     | Packet pkt \<Rightarrow> (case connection_recv_packet_unrestricted pkt c of (model, c) \<Rightarrow>
         (let pos = cursor_position dg in
          (outcome_bind (bytes_slice pos (pos + unat (prx_size model)) (cursor_inner dg)) (\<lambda>buf.
           Returns (Inr (TaskPacket model (SourceNative buf)))), c)))
     | Dissociate _ \<Rightarrow> (Returns (Inl (BadCommandDatagram ''dissociate'' (cursor_inner dg))), c)
     | Heartbeat _ \<Rightarrow> (Returns (Inr TaskHeartbeat), c)))"

text \<open>\<open>Packet::accept\<close>: the payload of a received fragment, assembled.\<close>

definition assembled_packet ::
    "assembled \<Rightarrow> (('e, 's, 'r) quinn_error + (bytes \<times> address \<times> u16) option) outcome" where
  "assembled_packet r = outcome_bind r (\<lambda>r. case r of
     Inl e \<Rightarrow> Returns (Inl (Assemble e))
   | Inr None \<Rightarrow> Returns (Inr None)
   | Inr (Some x) \<Rightarrow> outcome_bind (assemblable_assemble x []) (\<lambda>y. Returns (Inr (Some y))))"

text \<open>
  \<open>Packet::accept\<close>, with what the read of a stream's payload answers. The read is under no timer: a handler may wait for it
  without end, as \<open>Receiving\<close> in \<^verbatim>\<open>Server_Loop\<close> does.
\<close>

definition packet_accept ::
    "bool \<Rightarrow> (nat \<Rightarrow> ('r, io_error, bytes) reader) \<Rightarrow> nat \<Rightarrow> packet_rx \<Rightarrow> 'r packet_source \<Rightarrow> connection \<Rightarrow>
      (('e, 's, 'r) quinn_error + (bytes \<times> address \<times> u16) option) outcome \<times> connection" where
  "packet_accept oc rd now model src c =
     (case (case src of
              SourceQuic recv \<Rightarrow> map_err IoError (fst (rd (unat (prx_size model)) recv))
            | SourceNative pkt \<Rightarrow> Inr pkt) of
        Inl e \<Rightarrow> (Returns (Inl e), c)
      | Inr pkt \<Rightarrow> (case connection_assemble oc now model pkt c of (r, c) \<Rightarrow> (assembled_packet r, c)))"

section \<open>A datagram through the server\<close>

type_synonym ('e, 's, 'r) receipt =
  "(('e, 's, 'r) quinn_error + (bytes \<times> address \<times> u16) option) outcome"

text \<open>\<open>accept_datagram\<close> and then \<open>Packet::accept\<close> on its task, as the server's handlers call them.\<close>

definition receive_datagram ::
    "bool \<Rightarrow> 'u uuid_lib \<Rightarrow> (nat \<Rightarrow> ('r, io_error, bytes) reader) \<Rightarrow> nat \<Rightarrow> bytes \<Rightarrow> connection \<Rightarrow>
      (('e, 's, 'r) quinn_error + (bytes \<times> address \<times> u16) option) outcome \<times> connection" where
  "receive_datagram oc U rd now dg c = (case server_accept_datagram U dg c of
     (Panics p, c) \<Rightarrow> (Panics p, c)
   | (Returns (Inl e), c) \<Rightarrow> (Returns (Inl e), c)
   | (Returns (Inr (t :: ('u, 's, 'r) task)), c) \<Rightarrow> (case t of
       TaskPacket rx src \<Rightarrow> packet_accept oc rd now rx src c
     | _ \<Rightarrow> (Returns (Inr None), c)))"

fun receive_datagrams ::
    "bool \<Rightarrow> 'u uuid_lib \<Rightarrow> (nat \<Rightarrow> ('r, io_error, bytes) reader) \<Rightarrow> (nat \<times> bytes) list \<Rightarrow> connection \<Rightarrow>
      ('e, 's, 'r) receipt list \<times> connection" where
  "receive_datagrams oc U rd [] c = ([], c)"
| "receive_datagrams oc U rd ((now, dg) # evs) c =
     (case receive_datagram oc U rd now dg c of (r, c) \<Rightarrow>
      case receive_datagrams oc U rd evs c of (rs, c) \<Rightarrow> (r # rs, c))"

lemma recv_packet_unrestricted_buffer:
  assumes "connection_recv_packet_unrestricted h c = (rx, c')"
  shows "rx = packet_rx_new (ph_assoc_id h) (ph_pkt_id h) (ph_frag_total h) (ph_frag_id h) (ph_size h) (ph_addr h)"
    and "buffer_at (cn_udp_sessions c') k = buffer_at (cn_udp_sessions c) k"
  using assms
  by (auto simp: connection_recv_packet_unrestricted_def packet_into_def sessions_entry_buffer_at
      udp_sessions_recv_packet_unrestricted_def split: prod.splits)

lemma server_accept_fragment:
  assumes "wf_address (ph_addr h)" and "length frag = unat (ph_size h)"
  shows "server_accept_datagram U (fragment_datagram U (Packet h, frag)) c =
    (case connection_recv_packet_unrestricted h c of (rx, c') \<Rightarrow>
      (Returns (Inr (TaskPacket rx (SourceNative frag))), c'))"
proof -
  obtain rx c' where recv: "connection_recv_packet_unrestricted h c = (rx, c')" by (rule prod.exhaust)
  have "prx_size rx = ph_size h"
    using recv_packet_unrestricted_buffer(1) [OF recv] by (simp add: packet_rx_new_def)
  with recv assms show ?thesis
    by (simp add: server_accept_datagram_def fragment_datagram_def put_slice_def
        cursor_unmarshal_written bytes_slice_def del: header_len.simps length_header_write_Packet)
qed

text \<open>The datagram that carries an arriving fragment.\<close>

definition arrival_datagram :: "'u uuid_lib \<Rightarrow> arrival \<Rightarrow> nat \<times> bytes" where
  "arrival_datagram U ev = (case ev of (now, rx, data) \<Rightarrow>
     (now, fragment_datagram U (Packet (packet_header_new (prx_assoc_id rx) (prx_pkt_id rx)
        (prx_frag_total rx) (prx_frag_id rx) (prx_size rx) (prx_addr rx)), data)))"

definition arrival_ok :: "arrival \<Rightarrow> bool" where
  "arrival_ok ev = (case ev of (now, rx, data) \<Rightarrow>
     wf_address (prx_addr rx) \<and> length data = unat (prx_size rx))"

lemma fragment_arrival_ok:
  assumes "i < length ds" and "\<forall>d \<in> set ds. length d \<le> 65535" and "wf_address addr"
  shows "arrival_ok (fragment_arrival a p addr ds t i) \<and> concerns (a, p) (fragment_arrival a p addr ds t i)"
proof -
  have "length (ds ! i) \<le> 65535" using assms(1,2) by simp
  with assms(3) show ?thesis
    by (simp add: arrival_ok_def concerns_def fragment_arrival_def packet_rx_new_def packet_key_def)
qed

text \<open>
  What the transports have in common: \<open>receive\<close> takes what carries a fragment (a datagram, or a stream of
  its own), and does to the fragment's packet what \<open>slot_insert\<close> does. Then a whole packet is put together from its
  fragments in any order.
\<close>

fun receive_all ::
    "(nat \<Rightarrow> 'w \<Rightarrow> connection \<Rightarrow> 'x \<times> connection) \<Rightarrow> (nat \<times> 'w) list \<Rightarrow> connection \<Rightarrow> 'x list \<times> connection" where
  "receive_all receive [] c = ([], c)"
| "receive_all receive ((now, w) # evs) c =
     (case receive now w c of (r, c) \<Rightarrow> case receive_all receive evs c of (rs, c) \<Rightarrow> (r # rs, c))"

lemma length_receive_all: "length (fst (receive_all receive evs c)) = length evs"
  by (induction evs arbitrary: c) (auto simp: split_beta)

text \<open>The runs of a handler on a list of inputs, one after the other, with what each returns.\<close>

fun run_all :: "('i \<Rightarrow> 'c \<Rightarrow> 'x \<times> 'c) \<Rightarrow> 'i list \<Rightarrow> 'c \<Rightarrow> 'x list \<times> 'c" where
  "run_all f [] c = ([], c)"
| "run_all f (i # is) c = (case f i c of (r, c) \<Rightarrow> case run_all f is c of (rs, c) \<Rightarrow> (r # rs, c))"

lemma length_run_all: "length (fst (run_all f is c)) = length is"
  by (induction "is" arbitrary: c) (auto simp: split_beta)

lemma run_all_map: "run_all f (map g is) c = run_all (\<lambda>i. f (g i)) is c"
  by (induction "is" arbitrary: c) (auto simp: split_beta)

lemma receive_all_run: "receive_all receive evs c = run_all (\<lambda>(now, w). receive now w) evs c"
  by (induction evs arbitrary: c) (auto simp: split_beta)

locale fragment_receiver =
  fixes oc :: bool
    and receive :: "nat \<Rightarrow> 'w \<Rightarrow> connection \<Rightarrow> ('e, 's, 'r) receipt \<times> connection"
    and carries :: "packet_rx \<Rightarrow> bytes \<Rightarrow> 'w \<Rightarrow> bool"
  assumes receive_one: "carries rx data w \<Longrightarrow> arrival_ok (now, rx, data) \<Longrightarrow>
      slot_insert oc now rx data (buffer_at (cn_udp_sessions c) (packet_key rx)) = (r, slot) \<Longrightarrow>
      \<exists>c'. receive now w c = (assembled_packet r, c') \<and> buffer_at (cn_udp_sessions c') (packet_key rx) = slot"
begin

lemma receive_trace:
  assumes "list_all2 (\<lambda>(now, rx, data) (now', w). now' = now \<and> carries rx data w) tr evs"
    and "\<forall>ev \<in> set tr. arrival_ok ev \<and> concerns k ev"
    and "slot_trace oc tr (buffer_at (cn_udp_sessions c) k) = (rs, slot)"
  shows "fst (receive_all receive evs c) = map assembled_packet rs"
  using assms
proof (induction tr evs arbitrary: c rs rule: list_all2_induct)
  case Nil
  then show ?case by simp
next
  case (Cons ev tr ev' evs)
  obtain now rx data w where ev: "ev = (now, rx, data)" "ev' = (now, w)" and w: "carries rx data w"
    using Cons.hyps(1) by (cases ev; cases ev') auto
  have k: "packet_key rx = k" and ok: "arrival_ok (now, rx, data)"
    using Cons.prems(1) ev by (auto simp: concerns_def)
  obtain r slot1 where step: "slot_insert oc now rx data (buffer_at (cn_udp_sessions c) k) = (r, slot1)"
    by (rule prod.exhaust)
  with Cons.prems(2) ev obtain rs1 where rest: "slot_trace oc tr slot1 = (rs1, slot)"
    and rs: "rs = r # rs1" by (auto split: prod.splits)
  obtain c' where c': "receive now w c = (assembled_packet r, c')" "buffer_at (cn_udp_sessions c') k = slot1"
    using receive_one [OF w ok step [folded k]] k by blast
  have "fst (receive_all receive evs c') = map assembled_packet rs1"
    using Cons.IH Cons.prems(1) rest c'(2) by simp
  with c' show ?case by (simp add: ev rs split_beta)
qed

lemma receive_packet:
  assumes "ds \<noteq> []" and "length ds \<le> 255" and "\<forall>d \<in> set ds. length d \<le> 65535"
    and "wf_address addr" and "\<not> address_is_none addr"
    and "distinct is" and "set is = {..<length ds}" and "length ts = length is"
    and "buffer_at (cn_udp_sessions c) (a, p) = None"
    and "\<And>i. i < length ds \<Longrightarrow> carries (fst (snd (fragment_arrival a p addr ds 0 i))) (ds ! i) (ws ! i)"
  shows "fst (receive_all receive (map2 (\<lambda>t i. (t, ws ! i)) ts is) c) =
    replicate (length ds - 1) (Returns (Inr None)) @ [Returns (Inr (Some (concat ds, addr, a)))]"
proof -
  let ?tr = "map2 (fragment_arrival a p addr ds) ts is"
  have in_range: "i < length ds" if "i \<in> set is" for i using that assms(7) by auto
  have sent: "list_all2 (\<lambda>(now, rx, data) (now', w). now' = now \<and> carries rx data w) ?tr
      (map2 (\<lambda>t i. (t, ws ! i)) ts is)"
    using assms(8,10) in_range by (auto simp: list_all2_conv_all_nth fragment_arrival_def)
  have ok: "\<forall>ev \<in> set ?tr. arrival_ok ev \<and> concerns (a, p) ev"
    using fragment_arrival_ok [OF in_range assms(3,4)] by (auto dest: set_zip_rightD)
  have "slot_trace oc ?tr (buffer_at (cn_udp_sessions c) (a, p)) =
      (replicate (length ds - 1) (Returns (Inr None)) @
       [Returns (Inr (Some (assemblable_new (map Some ds) addr a)))], None)"
    using slot_trace_completes [OF assms(1,2,5,3,6,7,8)] assms(9) by simp
  from receive_trace [OF sent ok this] show ?thesis
    by (simp add: assembled_packet_def assemblable_assemble_def assemblable_new_def)
qed

end

lemma receive_fragment:
  assumes "arrival_ok (now, rx, data)"
    and "slot_insert oc now rx data (buffer_at (cn_udp_sessions c) (packet_key rx)) = (r, slot)"
  obtains c' where "receive_datagram oc U rd now (snd (arrival_datagram U (now, rx, data))) c =
      (assembled_packet r :: ('e, 's, 'r) receipt, c')"
    and "buffer_at (cn_udp_sessions c') (packet_key rx) = slot"
proof -
  let ?h = "packet_header_new (prx_assoc_id rx) (prx_pkt_id rx) (prx_frag_total rx) (prx_frag_id rx)
    (prx_size rx) (prx_addr rx)"
  obtain rx' c1 where recv: "connection_recv_packet_unrestricted ?h c = (rx', c1)" by (rule prod.exhaust)
  have rx: "rx' = rx"
    using recv_packet_unrestricted_buffer(1) [OF recv]
    by (simp add: packet_rx_new_def packet_header_new_def)
  obtain r' c2 where asm: "connection_assemble oc now rx data c1 = (r', c2)" by (rule prod.exhaust)
  have "wf_address (ph_addr ?h)" "length data = unat (ph_size ?h)"
    using assms(1) by (simp_all add: arrival_ok_def packet_header_new_def)
  note accept = server_accept_fragment [OF this, of U c]
  have "receive_datagram oc U rd now (snd (arrival_datagram U (now, rx, data))) c =
      (assembled_packet r' :: ('e, 's, 'r) receipt, c2)"
    by (simp add: receive_datagram_def arrival_datagram_def packet_accept_def accept recv rx asm)
  moreover have "r' = r" "buffer_at (cn_udp_sessions c2) (packet_key rx) = slot"
    using packet_rx_assemble_slot(1) [OF connection_assemble_sessions [OF asm]] assms(2)
      recv_packet_unrestricted_buffer(2) [OF recv] by simp_all
  ultimately show thesis using that by simp
qed

lemma receive_datagrams_all: "receive_datagrams oc U rd evs c = receive_all (receive_datagram oc U rd) evs c"
  by (induction evs arbitrary: c) auto

lemma receive_datagram_carried:
  assumes "dg = snd (arrival_datagram U (0, rx, data))" and "arrival_ok (now, rx, data)"
    and "slot_insert oc now rx data (buffer_at (cn_udp_sessions c) (packet_key rx)) = (r, slot)"
  shows "\<exists>c'. receive_datagram oc U rd now dg c = (assembled_packet r :: ('e, 's, 'r) receipt, c') \<and>
    buffer_at (cn_udp_sessions c') (packet_key rx) = slot"
proof -
  have "dg = snd (arrival_datagram U (now, rx, data))" by (simp add: assms(1) arrival_datagram_def)
  moreover obtain c' where "receive_datagram oc U rd now (snd (arrival_datagram U (now, rx, data))) c =
      (assembled_packet r :: ('e, 's, 'r) receipt, c')" "buffer_at (cn_udp_sessions c') (packet_key rx) = slot"
    by (rule receive_fragment [OF assms(2,3)])
  ultimately show ?thesis by blast
qed

interpretation datagrams: fragment_receiver oc "receive_datagram oc U rd"
  "\<lambda>rx data dg. dg = snd (arrival_datagram U (0, rx, data))" for oc U rd
  by unfold_locales (rule receive_datagram_carried)

section \<open>What the sender puts on the wire\<close>

text \<open>A transport that takes every datagram and lists them.\<close>

definition takes_datagrams :: "('q, 'e, 's, 'r) quic \<Rightarrow> ('q \<Rightarrow> bytes list) \<Rightarrow> bool" where
  "takes_datagrams Q sent \<longleftrightarrow>
     (\<forall>dg q. fst (send_datagram Q dg q) = Inr () \<and> sent (snd (send_datagram Q dg q)) = sent q @ [dg])"

text \<open>One such: the state is the list, and everything but datagrams is refused.\<close>

definition loopback :: "nat \<Rightarrow> (bytes list, string, unit, unit) quic" where
  "loopback sz = \<lparr>max_datagram_size = (\<lambda>_. Some sz), send_datagram = (\<lambda>dg q. (Inr (), q @ [dg])),
     datagram_disabled = ''disabled'', open_uni = (\<lambda>q. (Inl ''closed'', q)),
     open_bi = (\<lambda>q. (Inl ''closed'', q)), poll_write_all = (\<lambda>_ _ q. (Inl UnexpectedEof, q)),
     write_all = (\<lambda>_ _ q. (Inl ''closed'', q)), finish = (\<lambda>_ q. (Inl ''closed'', q)),
     export_keying_material = (\<lambda>_ _ _ _. Inl ''closed'')\<rparr>"

lemma loopback_takes: "takes_datagrams (loopback sz) (\<lambda>q. q)"
  by (simp add: takes_datagrams_def loopback_def)

lemma send_datagrams_sent:
  assumes "takes_datagrams Q sent" and "send_datagrams U Q items q = (r, q')"
  shows "r = Inr () \<and> sent q' = sent q @ map (fragment_datagram U) items"
  using assms(2)
proof (induction items arbitrary: q)
  case Nil
  then show ?case by simp
next
  case (Cons item items)
  obtain r1 q1 where send: "send_datagram Q (fragment_datagram U item) q = (r1, q1)" by (rule prod.exhaust)
  with assms(1) have "r1 = Inr ()" "sent q1 = sent q @ [fragment_datagram U item]"
    by (simp_all add: takes_datagrams_def, metis fst_conv, metis snd_conv)
  with Cons send show ?case by simp
qed

text \<open>The items both sending loops run over.\<close>

lemma sent_fragments_run:
  assumes "packet_header_len addr \<le> sz" and "11 < sz" and "length payload + sz < usize_modulus"
    and "payload \<noteq> []" and "\<not> splits_evenly_into_last sz addr payload"
    and "frag_count sz addr payload \<le> 255"
    and "connection_send_packet a addr sz c = (tx, c')"
  shows "\<exists>f. into_fragments oc tx payload = Returns f \<and>
    fragments_run oc f = (number_items a (next_pkt_id c a) (of_nat (length (cut_payload sz addr payload))) 0 addr
      (cut_payload sz addr payload) :: ('u header \<times> bytes) list, None)"
proof -
  note id = connection_send_packet_id(1) [OF assms(7)]
  obtain f where f: "fragments_new oc a (next_pkt_id c a) addr sz payload = Returns f"
    using fragments_new_Returns assms(1,2) by blast
  then have into: "into_fragments oc tx payload = Returns f"
    by (simp add: into_fragments_def id packet_tx_new_def)
  obtain items fin where run: "fragments_run oc f = (items :: ('u header \<times> bytes) list, fin)"
    by (rule prod.exhaust)
  have "items = number_items a (next_pkt_id c a) (of_nat (length (cut_payload sz addr payload))) 0 addr
      (cut_payload sz addr payload)" "fin = None"
    using fragments_run_items [OF assms(1-3) f run] frag_count_complete [OF assms(2,4,5)] assms(6) by simp_all
  with into run show ?thesis by blast
qed

lemma packet_native_sent:
  fixes U :: "'u uuid_lib"
  assumes "takes_datagrams Q sent" and "max_datagram_size Q q = Some sz"
    and "packet_header_len addr \<le> sz" and "11 < sz" and "length payload + sz < usize_modulus"
    and "payload \<noteq> []" and "\<not> splits_evenly_into_last sz addr payload"
    and "frag_count sz addr payload \<le> 255"
    and "packet_native oc U Q payload addr a (c, q) = (res, c', q')"
  shows "res = Returns (Inr ())"
    and "sent q' = sent q @ map (fragment_datagram U) (number_items a (next_pkt_id c a)
      (of_nat (length (cut_payload sz addr payload))) 0 addr (cut_payload sz addr payload))"
proof -
  let ?items = "number_items a (next_pkt_id c a) (of_nat (length (cut_payload sz addr payload))) 0 addr
    (cut_payload sz addr payload) :: ('u header \<times> bytes) list"
  obtain tx c1 where tx: "connection_send_packet a addr sz c = (tx, c1)" by (rule prod.exhaust)
  obtain f where f: "into_fragments oc tx payload = Returns f" "fragments_run oc f = (?items, None)"
    using sent_fragments_run [OF assms(3-8) tx] by blast
  obtain r1 q1 where send: "send_datagrams U Q ?items q = (r1, q1)" by (rule prod.exhaust)
  have "res = finish_loop None r1" "q' = q1"
    using assms(9) by (simp_all add: packet_native_def assms(2) tx f send)
  with send_datagrams_sent [OF assms(1) send]
  show "res = Returns (Inr ())" and "sent q' = sent q @ map (fragment_datagram U) ?items"
    by (simp_all add: finish_loop_def)
qed

lemma number_items_datagram:
  assumes "i < length ds" and "length ds \<le> 255"
  shows "arrival_datagram U (fragment_arrival a p addr ds t i) =
    (t, map (fragment_datagram U) (number_items a p (of_nat (length ds)) 0 addr ds) ! i)"
  using assms by (simp add: arrival_datagram_def fragment_arrival_def packet_rx_new_def nth_number_items)

lemma cut_payload_lengths:
  assumes "sz \<le> 65535" shows "\<forall>d \<in> set (cut_payload sz addr payload). length d \<le> 65535"
proof
  fix d assume "d \<in> set (cut_payload sz addr payload)"
  then obtain i where "i < length (cut_payload sz addr payload)" "d = cut_payload sz addr payload ! i"
    by (metis in_set_conv_nth)
  with cut_payload_bound have "length d \<le> sz - packet_header_len (if i = 0 then addr else NoAddress)"
    by blast
  with assms show "length d \<le> 65535" by linarith
qed

lemma cut_payload_sendable:
  assumes "11 < sz" and "sz \<le> 65535" and "payload \<noteq> []"
    and "\<not> splits_evenly_into_last sz addr payload" and "frag_count sz addr payload \<le> 255"
  shows "cut_payload sz addr payload \<noteq> []" and "length (cut_payload sz addr payload) \<le> 255"
    and "\<forall>d \<in> set (cut_payload sz addr payload). length d \<le> 65535"
    and "concat (cut_payload sz addr payload) = payload"
proof -
  show whole: "concat (cut_payload sz addr payload) = payload" using assms(1) by simp
  with assms(3) show "cut_payload sz addr payload \<noteq> []" by auto
  show "length (cut_payload sz addr payload) \<le> 255"
    using assms(5) frag_count_complete [OF assms(1,3,4)] by simp
qed (rule cut_payload_lengths [OF assms(2)])

lemma native_packet_received:
  assumes "takes_datagrams Q sent" and "max_datagram_size Q q = Some sz"
    and "packet_header_len addr \<le> sz" and "11 < sz" and "sz \<le> 65535"
    and "length payload + sz < usize_modulus" and "payload \<noteq> []"
    and "\<not> splits_evenly_into_last sz addr payload" and "frag_count sz addr payload \<le> 255"
    and "wf_address addr" and "\<not> address_is_none addr"
    and "packet_native oc U Q payload addr a (c, q) = (res, c', q')"
    and "sent q' = sent q @ dgs"
    and "distinct is" and "set is = {..<length dgs}" and "length ts = length is"
    and "buffer_at (cn_udp_sessions s) (a, next_pkt_id c a) = None"
  shows "res = Returns (Inr ()) \<and> dgs \<noteq> [] \<and>
    fst (receive_datagrams oc' U rd (map2 (\<lambda>t i. (t, dgs ! i)) ts is) s) =
      (replicate (length dgs - 1) (Returns (Inr None)) @ [Returns (Inr (Some (payload, addr, a)))]
        :: ('e, 's, 'r) receipt list)"
proof -
  define ds where "ds = cut_payload sz addr payload"
  let ?p = "next_pkt_id c a"
  note sent = packet_native_sent [OF assms(1-4,6-9,12)]
  have dgs: "dgs = map (fragment_datagram U) (number_items a ?p (of_nat (length ds)) 0 addr ds)"
    using sent(2) assms(13) by (simp add: ds_def)
  then have len: "length dgs = length ds" by simp
  have ds: "ds \<noteq> []" "length ds \<le> 255" "\<forall>d \<in> set ds. length d \<le> 65535" "concat ds = payload"
    unfolding ds_def by (rule cut_payload_sendable [OF assms(4,5,7,8,9)])+
  have carried: "dgs ! i = snd (arrival_datagram U (0, fst (snd (fragment_arrival a ?p addr ds 0 i)), ds ! i))"
    if "i < length ds" for i
    using number_items_datagram [OF that ds(2), of U a ?p addr 0] by (simp add: dgs fragment_arrival_def)
  show ?thesis
    using datagrams.receive_packet [OF ds(1-3) assms(10,11,14) _ assms(16,17) carried] assms(15) sent(1) ds(1,4) len
    by (auto simp: receive_datagrams_all)
qed

section \<open>Properties\<close>

text \<open>
  A UDP packet sent in the native mode arrives. The sender's call puts one datagram per
  fragment on the transport; when these reach a server in any order, each once, then every one
  of them is accepted, and the last one to arrive hands the application exactly the payload, the
  target address and the association of the sender; the others hand it nothing.
\<close>

theorem native_packet_arrives:
  assumes "takes_datagrams Q sent" and "max_datagram_size Q q = Some sz"
    and "packet_header_len addr \<le> sz" and "11 < sz" and "sz \<le> 65535"
    and "length payload + sz < usize_modulus" and "payload \<noteq> []"
    and "\<not> splits_evenly_into_last sz addr payload" and "frag_count sz addr payload \<le> 255"
    and "wf_address addr" and "\<not> address_is_none addr"
    and "packet_native oc U Q payload addr a (c, q) = (res, c', q')"
    and "sent q' = sent q @ dgs"
    and "distinct is" and "set is = {..<length dgs}" and "length ts = length is"
    and "buffer_at (cn_udp_sessions s) (a, next_pkt_id c a) = None"
  shows "res = Returns (Inr ()) \<and>
    fst (receive_datagrams oc' U rd (map2 (\<lambda>t i. (t, dgs ! i)) ts is) s) =
      (replicate (length dgs - 1) (Returns (Inr None)) @ [Returns (Inr (Some (payload, addr, a)))]
        :: ('e, 's, 'r) receipt list)"
  using native_packet_received [OF assms] by blast

theorem native_packet_arrives_witness:
  "let payload = [1, 2, 3, 4, 5, 6, 7, 8]; addr = DomainAddress [97] 53;
     sent = packet_native True bytes_uuid_lib (loopback 16) payload addr 3 (connection_new, []);
     dgs = snd (snd sent)
   in length dgs = 3 \<and>
     fst (receive_datagrams False bytes_uuid_lib stream_read_exact
        (map2 (\<lambda>t i. (t, dgs ! i)) [0, 0, 1] [2, 0, 1]) connection_new) =
       ([Returns (Inr None), Returns (Inr None), Returns (Inr (Some (payload, addr, 3)))]
         :: (string, unit, recv_stream) receipt list)"
proof -
  let ?payload = "[1, 2, 3, 4, 5, 6, 7, 8] :: bytes"
  let ?addr = "DomainAddress [97] 53"
  let ?sent = "packet_native True bytes_uuid_lib (loopback 16) ?payload ?addr 3 (connection_new, [])"
  let ?dgs = "snd (snd ?sent)"
  note eval = packet_header_len_eq frag_count_def cut_payload_def chunk_step usize_modulus_def
    splits_evenly_into_last_def
  have split: "?sent = (fst ?sent, fst (snd ?sent), snd (snd ?sent))" by simp
  have max: "max_datagram_size (loopback 16) q = Some 16" for q by (simp add: loopback_def)
  have wf: "wf_address ?addr" "\<not> address_is_none ?addr" by simp_all
  have none: "buffer_at (cn_udp_sessions connection_new) k = None" for k
    by (simp add: connection_new_def)
  have "?dgs = [] @ map (fragment_datagram bytes_uuid_lib) (number_items 3 (next_pkt_id connection_new 3)
      (of_nat (length (cut_payload 16 ?addr ?payload))) 0 ?addr (cut_payload 16 ?addr ?payload))"
    by (rule packet_native_sent(2) [OF loopback_takes max _ _ _ _ _ _ split]) (simp_all add: eval)
  then have len: "length ?dgs = 3" by (simp add: eval)
  have "set [2, 0, 1] = {..<length ?dgs}" unfolding len by auto
  note arrives = native_packet_arrives [OF loopback_takes max _ _ _ _ _ _ _ wf split _ _ this _ none]
  have "fst ?sent = Returns (Inr ()) \<and>
    fst (receive_datagrams False bytes_uuid_lib stream_read_exact
        (map2 (\<lambda>t i. (t, ?dgs ! i)) [0, 0, 1] [2, 0, 1]) connection_new) =
      (replicate (length ?dgs - 1) (Returns (Inr None)) @ [Returns (Inr (Some (?payload, ?addr, 3)))]
       :: (string, unit, recv_stream) receipt list)"
    by (rule arrives) (simp_all add: eval)
  then show ?thesis unfolding Let_def len by (simp add: numeral_2_eq_2)
qed

text \<open>
  A datagram that announces more payload than it carries. The client's side answers it with an
  error. The server's side has opened the session by then and slices without a check: the task
  panics, and the session stays.
\<close>

theorem short_datagram_panics_the_server:
  fixes U :: "'u uuid_lib"
  assumes "wf_address (ph_addr h)" and "length frag < unat (ph_size h)"
  defines "dg \<equiv> fragment_datagram U (Packet h, frag)"
  shows "\<exists>c'. server_accept_datagram U dg c =
      (Panics SliceOutOfRange :: (('e, 's, 'r) quinn_error + ('u, 's, 'r) task) outcome, c') \<and>
      ss_sessions (cn_udp_sessions c') (ph_assoc_id h) \<noteq> None \<and>
    client_accept_datagram U dg c =
      (Returns (Inl (if ss_sessions (cn_udp_sessions c) (ph_assoc_id h) = None
         then InvalidUdpSession (ph_assoc_id h) (ph_pkt_id h)
         else PayloadLength (unat (ph_size h)) (length frag)))
       :: (('e, 's, 'r) quinn_error + ('u, 's, 'r) task) outcome)"
proof -
  obtain rx c' where recv: "connection_recv_packet_unrestricted h c = (rx, c')" by (rule prod.exhaust)
  have rx: "prx_size rx = ph_size h"
    using recv_packet_unrestricted_buffer(1) [OF recv] by (simp add: packet_rx_new_def)
  have "ss_sessions (cn_udp_sessions c') (ph_assoc_id h) \<noteq> None"
    using recv by (auto simp: connection_recv_packet_unrestricted_def packet_into_def
        udp_sessions_recv_packet_unrestricted_def sessions_entry_def split: option.splits)
  moreover have parse: "unmarshal U cursor_read_exact (cursor_new dg) = (Inr (Packet h),
      \<lparr>cursor_inner = header_write U (Packet h) [] @ frag,
       cursor_position = length (header_write U (Packet h) [])\<rparr>)"
    using cursor_unmarshal_written [of U "Packet h" frag] assms(1)
    by (simp add: dg_def fragment_datagram_def put_slice_def
        del: header_len.simps length_header_write_Packet)
  ultimately show ?thesis using assms(2) recv rx
    by (auto simp: server_accept_datagram_def client_accept_datagram_def bytes_slice_def
        connection_recv_packet_def packet_into_def udp_sessions_recv_packet_def packet_rx_new_def Let_def
        split: option.split simp del: header_len.simps length_header_write_Packet)
qed

theorem short_datagram_panics_the_server_witness:
  "fst (server_accept_datagram bytes_uuid_lib (fragment_datagram bytes_uuid_lib
      (Packet (packet_header_new 3 1 1 0 5 (DomainAddress [97] 53)), [7])) connection_new) =
    (Panics SliceOutOfRange :: ((string, unit, unit) quinn_error + (bytes, unit, unit) task) outcome)"
proof -
  let ?h = "packet_header_new 3 1 1 0 5 (DomainAddress [97] 53)"
  have "wf_address (ph_addr ?h)" "length [7 :: u8] < unat (ph_size ?h)"
    by (simp_all add: packet_header_new_def)
  from short_datagram_panics_the_server [OF this, of bytes_uuid_lib connection_new,
      where ?'e = string and ?'s = unit and ?'r = unit]
  show ?thesis by auto
qed

lemma server_accept_native_size:
  assumes "server_accept_datagram U dg c = (Returns (Inr (TaskPacket rx (SourceNative data))), c')"
  shows "length data = unat (prx_size rx)"
  using assms
  by (auto simp: server_accept_datagram_def bytes_slice_def Let_def outcome_bind_eq_Returns
      split: prod.splits sum.splits header.splits if_splits)

lemma client_accept_native_size:
  assumes "client_accept_datagram U dg c = Returns (Inr (TaskPacket rx (SourceNative data)))"
  shows "length data = unat (prx_size rx)"
  using assms
  by (auto simp: client_accept_datagram_def bytes_slice_def Let_def outcome_bind_eq_Returns
      split: prod.splits sum.splits header.splits if_splits option.splits)

text \<open>What accepting a packet yields, when its source delivers as many bytes as it announces.\<close>

definition source_has_size :: "(nat \<Rightarrow> ('r, io_error, bytes) reader) \<Rightarrow> packet_rx \<Rightarrow> 'r packet_source \<Rightarrow> bool" where
  "source_has_size rd rx src \<longleftrightarrow> (case src of
     SourceNative data \<Rightarrow> length data = unat (prx_size rx)
   | SourceQuic recv \<Rightarrow> \<forall>data recv'. rd (unat (prx_size rx)) recv = (Inr data, recv') \<longrightarrow> length data = unat (prx_size rx))"

text \<open>A fragment numbered beyond the slots of the buffer that waits for its packet.\<close>

definition fragment_beyond :: "connection \<Rightarrow> packet_rx \<Rightarrow> bool" where
  "fragment_beyond m rx \<longleftrightarrow> (\<exists>b. buffer_at (cn_udp_sessions m) (packet_key rx) = Some b \<and>
     pb_frag_total b \<le> prx_frag_id rx \<and> prx_frag_id rx < prx_frag_total rx)"

lemma packet_accept_outcome:
  assumes "connection_ok m" and "source_has_size rd rx src"
    and "(packet_accept oc rd now rx src m :: ('e, 's, 'r) receipt \<times> connection) = (r, m')"
  shows "\<And>p. r = Panics p \<Longrightarrow> p = IndexOutOfBounds \<and> fragment_beyond m rx"
    and "\<And>data addr a. r = Returns (Inr (Some (data, addr, a))) \<Longrightarrow> addr \<noteq> NoAddress"
proof -
  consider (data) data ra m1 where "connection_assemble oc now rx data m = (ra, m1)" "r = assembled_packet ra"
      "length data = unat (prx_size rx)"
    | (error) e where "r = Returns (Inl e)"
    using assms(2,3) by (auto simp: packet_accept_def source_has_size_def
        split: sum.splits prod.splits packet_source.splits) (metis map_err_eq_Inr prod.collapse)+
  then have both: "(\<forall>p. r = Panics p \<longrightarrow> p = IndexOutOfBounds \<and> fragment_beyond m rx) \<and>
    (\<forall>data addr a. r = Returns (Inr (Some (data, addr, a))) \<longrightarrow> addr \<noteq> NoAddress)"
  proof cases
    case (data data ra m1)
    from assemble_outcome [OF assms(1) data(1), of "[]"] data(2,3) show ?thesis
      by (auto simp: assembled_packet_def fragment_beyond_def split: outcome.splits sum.splits option.splits)
  next
    case error
    then show ?thesis by auto
  qed
  then show "\<And>p. r = Panics p \<Longrightarrow> p = IndexOutOfBounds \<and> fragment_beyond m rx"
    and "\<And>data addr a. r = Returns (Inr (Some (data, addr, a))) \<Longrightarrow> addr \<noteq> NoAddress" by blast+
qed

lemma stream_read_exact_length: "stream_read_exact n recv = (Inr data, recv') \<Longrightarrow> length data = n"
  using stream_reader.read_exact_Inr [of id n recv data recv'] by (simp add: reader_io_def)

text \<open>
  The size assertion of the packet buffer never fires for a packet that came in through the
  connection: the data of every packet the client or the server accepts from a datagram has the
  announced size, so accepting it does not panic on the assertion, and the same holds for a packet
  whose data is read from its stream. And parsing a datagram never panics on the client's side.
\<close>

theorem accepted_packets_have_announced_size:
  assumes "reachable (\<lambda>c. c = connection_new) (connection_step oc) c"
    and "server_accept_datagram U dg c0 = (Returns (Inr (TaskPacket rx src)), c1) \<or>
      client_accept_datagram U dg c0 = Returns (Inr (TaskPacket rx src)) \<or>
      src = SourceQuic recv"
  shows "fst (packet_accept oc stream_read_exact now rx src c) \<noteq> Panics AssertFailed \<and>
    (\<forall>p. client_accept_datagram U dg c0 \<noteq> Panics p)"
proof
  have "source_has_size stream_read_exact rx src"
    using assms(2) stream_read_exact_length server_accept_native_size client_accept_native_size
    by (auto simp: source_has_size_def split: packet_source.split)
  from packet_accept_outcome(1) [OF conn.reachable_inv [OF assms(1)] this surjective_pairing]
  show "fst (packet_accept oc stream_read_exact now rx src c) \<noteq> Panics AssertFailed" by blast
  show "\<forall>p. client_accept_datagram U dg c0 \<noteq> Panics p"
    by (auto simp: client_accept_datagram_def bytes_slice_def Let_def
        split: prod.splits sum.splits header.splits option.splits)
qed

theorem accepted_packets_have_announced_size_witness:
  "let rx = packet_rx_new 3 1 1 0 1 (DomainAddress [97] 53) in
   fst (packet_accept True stream_read_exact 0 rx (SourceNative [7]) connection_new) \<noteq>
     (Panics AssertFailed :: (string, unit, recv_stream) receipt)"
proof -
  let ?h = "packet_header_new 3 1 1 0 1 (DomainAddress [97] 53)"
  let ?rx = "packet_rx_new 3 1 1 0 1 (DomainAddress [97] 53)"
  obtain rx c' where recv: "connection_recv_packet_unrestricted ?h connection_new = (rx, c')"
    by (rule prod.exhaust)
  have rx: "rx = ?rx"
    using recv_packet_unrestricted_buffer(1) [OF recv] by (simp add: packet_header_new_def)
  have "server_accept_datagram bytes_uuid_lib (fragment_datagram bytes_uuid_lib (Packet ?h, [7]))
      connection_new = (Returns (Inr (TaskPacket ?rx (SourceNative [7]) :: (bytes, unit, recv_stream) task))
        :: ((string, unit, recv_stream) quinn_error + (bytes, unit, recv_stream) task) outcome, c')"
    using recv rx by (simp add: server_accept_fragment packet_header_new_def)
  note accept = disjI1 [OF this]
  have "reachable (\<lambda>c. c = connection_new) (connection_step True) connection_new"
    by (rule reachable_init) simp
  note no_panic = accepted_packets_have_announced_size [OF this accept]
  show ?thesis unfolding Let_def by (rule no_panic [THEN conjunct1])
qed

text \<open>
  C36: authentication over the wire. The \<open>Authenticate\<close> a client sends is accepted by the server's
  stream parser, however the transport cuts it, and it validates against a password exactly when
  the server's exporter makes the same token from that password as the client's made from its own.
\<close>

theorem authenticate_over_wire:
  assumes "uuid_ok U uuid" and "length (exp_client (uuid_as_bytes U uuid) password) = 32"
    and "concat chunks = header_write U
      (Authenticate (connection_send_authenticate U uuid password exp_client)) []"
  shows "\<exists>rx. server_accept_uni_stream U stream_read_exact \<lparr>stream_chunks = chunks, stream_end = e\<rparr> c =
      (Inr (TaskAuthenticate rx)
        :: ('e, 's, recv_stream) quinn_error + ('u, 's, recv_stream) task, c) \<and>
    arx_uuid rx = uuid \<and>
    (\<forall>pw exp_server. authenticate_is_valid U pw exp_server rx \<longleftrightarrow>
      exp_server (uuid_as_bytes U uuid) pw = exp_client (uuid_as_bytes U uuid) password)"
proof -
  let ?h = "connection_send_authenticate U uuid password exp_client"
  have wf: "wf_header U (Authenticate ?h)"
    using assms by (simp add: connection_send_authenticate_def)
  obtain rest where "async_unmarshal U stream_read_exact \<lparr>stream_chunks = chunks, stream_end = e\<rparr> =
      (Inr (Authenticate ?h), \<lparr>stream_chunks = rest, stream_end = e\<rparr>)"
    using stream_unmarshal_written [OF wf, of chunks "[]" e] assms(3) by auto
  then show ?thesis
    by (auto simp: server_accept_uni_stream_def connection_recv_authenticate_def authenticate_into_def
        connection_send_authenticate_def authenticate_is_valid_def)
qed

theorem authenticate_over_wire_witness:
  "\<exists>rx. server_accept_uni_stream bytes_uuid_lib stream_read_exact
      \<lparr>stream_chunks = [[5], 0 # replicate 16 1 @ replicate 32 9], stream_end = UnexpectedEof\<rparr>
      connection_new =
      (Inr (TaskAuthenticate rx)
        :: (unit, unit, recv_stream) quinn_error + (bytes, unit, recv_stream) task, connection_new) \<and>
    authenticate_is_valid bytes_uuid_lib [1] (\<lambda>l ctx. replicate 32 (9 * hd ctx)) rx \<and>
    \<not> authenticate_is_valid bytes_uuid_lib [2] (\<lambda>l ctx. replicate 32 (9 * hd ctx)) rx"
proof -
  let ?exp = "\<lambda>l (ctx :: bytes). replicate 32 (9 * hd ctx)"
  have "uuid_ok bytes_uuid_lib (replicate 16 1)" by (simp add: uuid_ok_def bytes_uuid_lib_def)
  moreover have "length (?exp (uuid_as_bytes bytes_uuid_lib (replicate 16 1)) [1]) = 32" by simp
  moreover have "concat [[5], 0 # replicate 16 1 @ replicate 32 9] = header_write bytes_uuid_lib
      (Authenticate (connection_send_authenticate bytes_uuid_lib (replicate 16 1) [1] ?exp)) []"
    by (simp add: header_write_def authenticate_write_def put_defs Let_def VERSION_def
        authenticate_type_code_def connection_send_authenticate_def bytes_uuid_lib_def)
  ultimately obtain rx where "server_accept_uni_stream bytes_uuid_lib stream_read_exact
      \<lparr>stream_chunks = [[5], 0 # replicate 16 1 @ replicate 32 9], stream_end = UnexpectedEof\<rparr>
      connection_new = (Inr (TaskAuthenticate rx)
        :: (unit, unit, recv_stream) quinn_error + (bytes, unit, recv_stream) task, connection_new)"
    and valid: "\<And>pw exp. authenticate_is_valid bytes_uuid_lib pw exp rx \<longleftrightarrow>
      exp (uuid_as_bytes bytes_uuid_lib (replicate 16 1)) pw = replicate 32 (9 * hd [1])"
    using authenticate_over_wire [of bytes_uuid_lib "replicate 16 1" ?exp "[1]",
        where ?'e = unit and ?'s = unit and e = UnexpectedEof and c = connection_new] by blast
  then show ?thesis by (intro exI [of _ rx]) (simp add: valid)
qed

text \<open>
  The exporter answers a failure of the TLS layer with 32 zero bytes. On a connection where it
  fails at the server, the token of 32 zero bytes is therefore valid for every password, and no
  other token is for any.
\<close>

theorem failed_exporter_accepts_zero_token:
  assumes "\<forall>label ctx. \<exists>e. export_keying_material Q q 32 label ctx = Inl e"
  shows "authenticate_is_valid U password (keying_material_exporter Q q) rx \<longleftrightarrow>
    arx_token rx = replicate 32 0"
proof -
  have "keying_material_exporter Q q l ctx = replicate 32 0" for l ctx
  proof -
    obtain e where "export_keying_material Q q 32 l ctx = Inl e" using assms by blast
    then show ?thesis by (simp add: keying_material_exporter_def)
  qed
  then show ?thesis by (simp add: authenticate_is_valid_def)
qed

theorem failed_exporter_accepts_zero_token_witness:
  "authenticate_is_valid bytes_uuid_lib [1, 2] (keying_material_exporter (loopback 1200) [])
      \<lparr>arx_uuid = replicate 16 1, arx_token = replicate 32 0\<rparr> \<and>
   authenticate_is_valid bytes_uuid_lib [3] (keying_material_exporter (loopback 1200) [])
      \<lparr>arx_uuid = replicate 16 1, arx_token = replicate 32 0\<rparr>"
proof -
  have "\<forall>label ctx. \<exists>e. export_keying_material (loopback 1200) [] 32 label ctx = Inl e"
    by (simp add: loopback_def)
  note zero = failed_exporter_accepts_zero_token [OF this]
  show ?thesis by (simp add: zero)
qed

text \<open>Which side takes which command where.\<close>

fun accepted_uni :: "bool \<Rightarrow> (u16 \<Rightarrow> bool) \<Rightarrow> 'u header \<Rightarrow> bool" where
  "accepted_uni server known (Authenticate _) = server"
| "accepted_uni server known (Connect _) = False"
| "accepted_uni server known (Packet p) = (server \<or> known (ph_assoc_id p))"
| "accepted_uni server known (Dissociate _) = server"
| "accepted_uni server known (Heartbeat _) = False"

definition accepted :: "'e + 'a \<Rightarrow> bool" where
  "accepted r = (case r of Inl _ \<Rightarrow> False | Inr _ \<Rightarrow> True)"

fun is_connect :: "'u header \<Rightarrow> bool" where
  "is_connect (Connect _) = True"
| "is_connect _ = False"

text \<open>
  The direction of each command. Of the well-formed headers that arrive on a unidirectional
  stream the server takes \<open>Authenticate\<close>, \<open>Packet\<close> and \<open>Dissociate\<close>, the client only the \<open>Packet\<close> of
  an association it has open; on a bidirectional stream the server takes \<open>Connect\<close> and the client
  nothing; and the client's parser never changes a session.
\<close>

theorem stream_command_directions:
  fixes e :: io_error
  assumes "wf_header U h" and "concat chunks = header_write U h [] @ payload"
  defines "recv \<equiv> \<lparr>stream_chunks = chunks, stream_end = e\<rparr>"
  shows "accepted (fst (server_accept_uni_stream U stream_read_exact recv c)) =
      accepted_uni True (\<lambda>_. True) h \<and>
    accepted (client_accept_uni_stream U stream_read_exact recv c) =
      accepted_uni False (\<lambda>a. ss_sessions (cn_udp_sessions c) a \<noteq> None) h \<and>
    accepted (fst (server_accept_bi_stream U stream_read_exact send recv c)) = is_connect h \<and>
    \<not> accepted (client_accept_bi_stream U stream_read_exact send recv)"
proof -
  obtain rest where parse: "async_unmarshal U stream_read_exact recv =
      (Inr h, \<lparr>stream_chunks = rest, stream_end = e\<rparr>)"
    using stream_unmarshal_written [OF assms(1,2)] unfolding recv_def by metis
  then show ?thesis
    by (cases h) (auto simp: server_accept_uni_stream_def client_accept_uni_stream_def
        server_accept_bi_stream_def client_accept_bi_stream_def connection_recv_packet_def
        packet_into_def udp_sessions_recv_packet_def accepted_def split_beta split: option.splits)
qed

theorem stream_command_directions_witness:
  "\<not> accepted (client_accept_bi_stream bytes_uuid_lib stream_read_exact ()
      \<lparr>stream_chunks = [[5, 3], [1, 2]], stream_end = UnexpectedEof\<rparr>) \<and>
   accepted (fst (server_accept_uni_stream bytes_uuid_lib stream_read_exact
      \<lparr>stream_chunks = [[5, 3], [1, 2]], stream_end = UnexpectedEof\<rparr> connection_new))"
proof -
  let ?h = "Dissociate \<lparr>dh_assoc_id = 258\<rparr> :: bytes header"
  have "concat [[5, 3], [1, 2]] = header_write bytes_uuid_lib ?h [] @ []"
    by (simp add: header_write_def dissociate_write_def put_defs VERSION_def
        dissociate_type_code_def u16_to_be_bytes_def drop_bit_eq_div)
  note directions = stream_command_directions [OF _ this]
  have "wf_header bytes_uuid_lib ?h" by simp
  note uni = directions [OF this, THEN conjunct1]
    and bi = directions [OF this, THEN conjunct2, THEN conjunct2, THEN conjunct2]
  show ?thesis by (intro conjI bi) (simp add: uni)
qed

end
