(* ===== verification/Server_Auth.thy ===== *)
theory Server_Auth
  imports Tuic_Quinn
begin

text \<open>
  Authentication on the server: \<^verbatim>\<open>tuic-server/src/connection/authenticated.rs\<close>, the error type of
  \<^verbatim>\<open>tuic-server/src/error.rs\<close> and \<open>Connection::authenticate\<close> of \<^verbatim>\<open>tuic-server/src/connection/mod.rs\<close>.
\<close>

section \<open>Errors\<close>

text \<open>\<open>quinn::ConnectionError\<close>, as far as the conversion looks at it.\<close>

datatype connection_error = ConnTimedOut | ConnLocallyClosed | ConnOther io_error

datatype ('u, 'm) server_error =
    ServerIo io_error
  | ServerRustls string
  | InvalidMaxIdleTime
  | TimedOut
  | LocallyClosed
  | ServerModel 'm
  | DuplicatedAuth
  | AuthFailed 'u
  | UnexpectedPacketSource
  | SocketError string io_error
  | TaskNegotiationTimeout
  | UdpRelayIpv6Disabled socket_addr
  | ServerOther string

fun server_error_is_trivial :: "('u, 'm) server_error \<Rightarrow> bool" where
  "server_error_is_trivial TimedOut = True"
| "server_error_is_trivial LocallyClosed = True"
| "server_error_is_trivial _ = False"

fun server_error_from :: "connection_error \<Rightarrow> ('u, 'm) server_error" where
  "server_error_from ConnTimedOut = TimedOut"
| "server_error_from ConnLocallyClosed = LocallyClosed"
| "server_error_from (ConnOther e) = ServerIo e"

section \<open>The observable authentication state\<close>

text \<open>
  The user that authenticated, and whether the broadcast sender that \<open>wait\<close> subscribes to is there.
  \<open>nil\<close> is the UUID \<open>new\<close> parses from a string of zeros.
\<close>

record 'u authenticated =
  au_uuid :: "'u option"
  au_tx :: bool

definition authenticated_new :: "'u \<Rightarrow> 'u authenticated" where
  "authenticated_new nil = \<lparr>au_uuid = Some nil, au_tx = False\<rparr>"

text \<open>\<open>set\<close> stores the user, wakes those who wait and drops the sender.\<close>

definition authenticated_set :: "'u \<Rightarrow> 'u authenticated \<Rightarrow> 'u authenticated" where
  "authenticated_set uuid a = a\<lparr>au_uuid := Some uuid, au_tx := False\<rparr>"

definition authenticated_get :: "'u authenticated \<Rightarrow> 'u option" where
  "authenticated_get a = au_uuid a"

text \<open>Whether \<open>wait\<close> returns without having been woken.\<close>

definition authenticated_wait_ready :: "'u authenticated \<Rightarrow> bool" where
  "authenticated_wait_ready a \<longleftrightarrow> \<not> au_tx a"

section \<open>Authenticating a client\<close>

definition server_authenticate ::
    "'u uuid_lib \<Rightarrow> ('u \<Rightarrow> bytes option) \<Rightarrow> exporter \<Rightarrow> 'u authenticate_rx \<Rightarrow> 'u authenticated \<Rightarrow>
      (('u, 'm) server_error + unit) \<times> 'u authenticated" where
  "server_authenticate U users exporter auth a =
     (if authenticated_get a \<noteq> None then (Inl DuplicatedAuth, a)
      else if (case users (arx_uuid auth) of None \<Rightarrow> False
               | Some password \<Rightarrow> authenticate_is_valid U password exporter auth)
        then (Inr (), authenticated_set (arx_uuid auth) a)
      else (Inl (AuthFailed (arx_uuid auth)), a))"

text \<open>
  \<open>timeout_authenticate\<close>, when its timer fires: the user to count as online, or \<open>None\<close>, on which the
  connection is closed.
\<close>

definition timeout_authenticate :: "'u authenticated \<Rightarrow> 'u option" where
  "timeout_authenticate a = authenticated_get a"

text \<open>Every change of the state of one connection.\<close>

inductive auth_step :: "'u uuid_lib \<Rightarrow> ('u \<Rightarrow> bytes option) \<Rightarrow> 'u authenticated \<Rightarrow> 'u authenticated \<Rightarrow> bool"
  for U users where
  authenticates: "server_authenticate U users exporter auth a = (r :: ('u, unit) server_error + unit, a')
    \<Longrightarrow> auth_step U users a a'"

inductive_cases auth_stepE: "auth_step U users a a'"

definition auth_settled :: "'u \<Rightarrow> 'u authenticated \<Rightarrow> bool" where
  "auth_settled nil a \<longleftrightarrow> au_uuid a = Some nil \<and> \<not> au_tx a"

lemma server_authenticate_settled:
  "auth_settled nil a \<Longrightarrow> server_authenticate U users exporter auth a = (Inl DuplicatedAuth, a)"
  by (simp add: auth_settled_def server_authenticate_def authenticated_get_def)

interpretation auth: invariant_system "\<lambda>a. a = authenticated_new nil" "auth_step U users" "auth_settled nil"
proof unfold_locales
  show "a = authenticated_new nil \<Longrightarrow> auth_settled nil a" for a
    by (simp add: auth_settled_def authenticated_new_def)
  show "auth_settled nil a \<Longrightarrow> auth_step U users a a' \<Longrightarrow> auth_settled nil a'" for a a'
    by (auto elim!: auth_stepE simp: server_authenticate_settled)
qed

section \<open>Properties\<close>

text \<open>
  A server connection counts as authenticated from its start, as the user with the nil UUID. So
  in every state it reaches no \<open>Authenticate\<close> command succeeds, whatever its token: each is refused
  as a duplicate; nothing ever waits for authentication, its timeout never finds the client
  unauthenticated, and its traffic is counted for the nil UUID.
\<close>

theorem authenticated_from_the_start:
  assumes "reachable (\<lambda>a. a = authenticated_new nil) (auth_step U users) a"
  shows "server_authenticate U users exporter auth a = (Inl DuplicatedAuth, a) \<and>
    authenticated_wait_ready a \<and> timeout_authenticate a = Some nil"
  using auth.reachable_inv [OF assms]
  by (auto simp: server_authenticate_settled authenticated_wait_ready_def timeout_authenticate_def
      authenticated_get_def auth_settled_def)

theorem authenticated_from_the_start_witness:
  "fst (server_authenticate bytes_uuid_lib [replicate 16 1 \<mapsto> [7]] (\<lambda>_ _. replicate 32 9)
      \<lparr>arx_uuid = replicate 16 1, arx_token = replicate 32 9\<rparr> (authenticated_new (replicate 16 0)))
    = (Inl DuplicatedAuth :: (bytes, unit) server_error + unit) \<and>
   authenticate_is_valid bytes_uuid_lib [7] (\<lambda>_ _. replicate 32 9)
      \<lparr>arx_uuid = replicate 16 1, arx_token = replicate 32 9\<rparr>"
proof -
  have "reachable (\<lambda>a. a = authenticated_new (replicate 16 0))
      (auth_step bytes_uuid_lib [replicate 16 1 \<mapsto> [7]]) (authenticated_new (replicate 16 0))"
    by (rule reachable_init) simp
  note start = authenticated_from_the_start [OF this, THEN conjunct1]
  show ?thesis by (simp add: start authenticate_is_valid_def)
qed

end
