(* ===== verification/Server_Udp.thy ===== *)
theory Server_Udp
  imports Server_Auth
begin

text \<open>
  The UDP sessions of a server connection: \<^verbatim>\<open>tuic-server/src/connection/udp_session.rs\<close>. A session has a
  task that listens on its sockets and owns it; the connection's map only holds weak references.
  The close channel is a one-shot sender in the session and the message it sends. Sockets are
  parameters: what the calls on them return.
\<close>

section \<open>Opening the sockets\<close>

text \<open>The results of the calls, by the domain of the socket (whether it is IPv6).\<close>

record sockets =
  socket_new :: "bool \<Rightarrow> io_error + unit"
  set_nonblocking :: "bool \<Rightarrow> io_error + unit"
  set_only_v6 :: "bool \<Rightarrow> io_error + unit"
  socket_bind :: "bool \<Rightarrow> io_error + unit"
  socket_from_std :: "bool \<Rightarrow> io_error + unit"

definition open_socket_v4 :: "sockets \<Rightarrow> ('u, 'm) server_error + unit" where
  "open_socket_v4 S =
     try_bind (map_err (SocketError ''failed to create UDP associate IPv4 socket'') (socket_new S False)) (\<lambda>_.
     try_bind (map_err (SocketError ''failed setting UDP associate IPv4 socket as non-blocking'')
       (set_nonblocking S False)) (\<lambda>_.
     try_bind (map_err (SocketError ''failed to bind UDP associate IPv4 socket'') (socket_bind S False)) (\<lambda>_.
     map_err ServerIo (socket_from_std S False))))"

definition open_socket_v6 :: "sockets \<Rightarrow> ('u, 'm) server_error + unit" where
  "open_socket_v6 S =
     try_bind (map_err (SocketError ''failed to create UDP associate IPv6 socket'') (socket_new S True)) (\<lambda>_.
     try_bind (map_err (SocketError ''failed setting UDP associate IPv6 socket as non-blocking'')
       (set_nonblocking S True)) (\<lambda>_.
     try_bind (map_err (SocketError ''failed setting UDP associate IPv6 socket as IPv6-only'')
       (set_only_v6 S True)) (\<lambda>_.
     try_bind (map_err (SocketError ''failed to bind UDP associate IPv6 socket'') (socket_bind S True)) (\<lambda>_.
     map_err ServerIo (socket_from_std S True)))))"

section \<open>Sessions and their listeners\<close>

text \<open>
  \<open>Listening\<close>: in the loop; \<open>Leaving\<close>: after its \<open>break\<close>, before it has removed the session from the
  connection's map. \<open>relay_close\<close>: the sender is still in the session; \<open>relay_told\<close>: the message is
  in the channel. A session that is gone has no entry.
\<close>

datatype listener = Listening | Leaving

record relay =
  relay_assoc_id :: u16
  relay_socket_v6 :: bool
  relay_close :: bool
  relay_told :: bool
  relay_listener :: listener

record udp_relays =
  relay_map :: "u16 \<Rightarrow> nat option"
  relays :: "nat \<Rightarrow> relay option"
  relay_next :: nat

definition udp_relays_new :: udp_relays where
  "udp_relays_new = \<lparr>relay_map = Map.empty, relays = Map.empty, relay_next = 0\<rparr>"

text \<open>\<open>UdpSession::new\<close>: the session and its listener; the returned weak reference is its number.\<close>

definition relay_new :: "sockets \<Rightarrow> bool \<Rightarrow> u16 \<Rightarrow> udp_relays \<Rightarrow>
    (('u, 'm) server_error + nat) \<times> udp_relays" where
  "relay_new S udp_relay_ipv6 assoc_id s =
     (case open_socket_v4 S of Inl e \<Rightarrow> (Inl e, s) | Inr _ \<Rightarrow>
     (case (if udp_relay_ipv6 then open_socket_v6 S else Inr ()) of Inl e \<Rightarrow> (Inl e, s) | Inr _ \<Rightarrow>
       (Inr (relay_next s), s\<lparr>relays := (relays s)(relay_next s \<mapsto>
          \<lparr>relay_assoc_id = assoc_id, relay_socket_v6 = udp_relay_ipv6, relay_close = True,
           relay_told = False, relay_listener = Listening\<rparr>),
          relay_next := relay_next s + 1\<rparr>)))"

text \<open>Looking the session of a packet up in \<open>handle_packet\<close>, making it when there is none.\<close>

definition relay_for :: "sockets \<Rightarrow> bool \<Rightarrow> u16 \<Rightarrow> udp_relays \<Rightarrow>
    (('u, 'm) server_error + nat) \<times> udp_relays" where
  "relay_for S udp_relay_ipv6 assoc_id s = (case relay_map s assoc_id of
     Some sid \<Rightarrow> (Inr sid, s)
   | None \<Rightarrow> (case relay_new S udp_relay_ipv6 assoc_id s of
       (Inl e, s) \<Rightarrow> (Inl e, s)
     | (Inr sid, s) \<Rightarrow> (Inr sid, s\<lparr>relay_map := (relay_map s)(assoc_id \<mapsto> sid)\<rparr>)))"

text \<open>\<open>close\<close>: the sender is taken, if it is there, and sends.\<close>

definition relay_shut :: "nat \<Rightarrow> udp_relays \<Rightarrow> udp_relays" where
  "relay_shut sid s = (case relays s sid of None \<Rightarrow> s
   | Some r \<Rightarrow> if relay_close r
       then s\<lparr>relays := (relays s)(sid \<mapsto> r\<lparr>relay_close := False, relay_told := True\<rparr>)\<rparr> else s)"

text \<open>\<open>handle_dissociate\<close>.\<close>

definition relay_dissociate :: "u16 \<Rightarrow> udp_relays \<Rightarrow> udp_relays" where
  "relay_dissociate assoc_id s = (case relay_map s assoc_id of None \<Rightarrow> s
   | Some sid \<Rightarrow> relay_shut sid (s\<lparr>relay_map := (relay_map s)(assoc_id := None)\<rparr>))"

text \<open>
  The steps of the listener: its timer closes the session, the message ends its loop, and then it
  removes the association from the map and is gone.
\<close>

definition listener_timeout :: "nat \<Rightarrow> udp_relays \<Rightarrow> udp_relays" where
  "listener_timeout sid s = relay_shut sid s"

definition listener_leave :: "nat \<Rightarrow> udp_relays \<Rightarrow> udp_relays" where
  "listener_leave sid s = (case relays s sid of None \<Rightarrow> s
   | Some r \<Rightarrow> if relay_told r \<and> relay_listener r = Listening
       then s\<lparr>relays := (relays s)(sid \<mapsto> r\<lparr>relay_listener := Leaving\<rparr>)\<rparr> else s)"

definition listener_finish :: "nat \<Rightarrow> udp_relays \<Rightarrow> udp_relays" where
  "listener_finish sid s = (case relays s sid of None \<Rightarrow> s
   | Some r \<Rightarrow> if relay_listener r = Leaving
       then s\<lparr>relay_map := (relay_map s)(relay_assoc_id r := None), relays := (relays s)(sid := None)\<rparr>
       else s)"

text \<open>\<open>UdpSession::send\<close>: the socket the packet goes to (whether it is the IPv6 one).\<close>

definition relay_send :: "(bytes \<Rightarrow> socket_addr \<Rightarrow> io_error + nat) \<Rightarrow> bytes \<Rightarrow> socket_addr \<Rightarrow> relay \<Rightarrow>
    ('u, 'm) server_error + bool" where
  "relay_send send_to pkt addr r =
     (if socket_addr_is_v6 addr \<and> \<not> relay_socket_v6 r then Inl (UdpRelayIpv6Disabled addr)
      else try_bind (map_err ServerIo (send_to pkt addr)) (\<lambda>_. Inr (socket_addr_is_v6 addr)))"

text \<open>\<open>UdpSession::recv\<close>: a buffer of the configured size receives; what does not fit is cut off.\<close>

definition relay_recv :: "nat \<Rightarrow> io_error + bytes \<times> socket_addr \<Rightarrow> io_error + bytes \<times> socket_addr" where
  "relay_recv max_external_packet_size received =
     try_bind received (\<lambda>(dgram, addr). Inr (take max_external_packet_size dgram, addr))"

inductive relay_step :: "bool \<Rightarrow> udp_relays \<Rightarrow> udp_relays \<Rightarrow> bool" for dissociates where
  relay_packet: "relay_for S v6 a s = (r :: (unit, unit) server_error + nat, s') \<Longrightarrow> relay_step dissociates s s'"
| relay_dissociated: "dissociates \<Longrightarrow> relay_step dissociates s (relay_dissociate a s)"
| relay_timeout: "relay_step dissociates s (listener_timeout sid s)"
| relay_leave: "relay_step dissociates s (listener_leave sid s)"
| relay_finish: "relay_step dissociates s (listener_finish sid s)"

section \<open>Invariants\<close>

text \<open>
  Every entry of the map is a session of its association that is not gone; the numbers are fresh;
  the message has been sent exactly when the sender was taken, and a listener only leaves on it.
\<close>

definition relay_ok :: "relay \<Rightarrow> bool" where
  "relay_ok r \<longleftrightarrow> relay_told r = (\<not> relay_close r) \<and> (relay_listener r = Leaving \<longrightarrow> relay_told r)"

definition relays_ok :: "udp_relays \<Rightarrow> bool" where
  "relays_ok s \<longleftrightarrow>
     (\<forall>a sid. relay_map s a = Some sid \<longrightarrow> (\<exists>r. relays s sid = Some r \<and> relay_assoc_id r = a)) \<and>
     (\<forall>sid r. relays s sid = Some r \<longrightarrow> sid < relay_next s \<and> relay_ok r)"

text \<open>Without \<open>Dissociate\<close> also: every session that is not gone is the one of its association.\<close>

definition relays_unique :: "udp_relays \<Rightarrow> bool" where
  "relays_unique s \<longleftrightarrow> relays_ok s \<and>
     (\<forall>sid r. relays s sid = Some r \<longrightarrow> relay_map s (relay_assoc_id r) = Some sid)"

lemmas relay_operations = relay_shut_def relay_dissociate_def listener_timeout_def listener_leave_def
  listener_finish_def

definition relay_added :: "bool \<Rightarrow> u16 \<Rightarrow> udp_relays \<Rightarrow> udp_relays" where
  "relay_added v6 a s = s\<lparr>relays := (relays s)(relay_next s \<mapsto>
     \<lparr>relay_assoc_id = a, relay_socket_v6 = v6, relay_close = True,
      relay_told = False, relay_listener = Listening\<rparr>), relay_next := relay_next s + 1\<rparr>"

lemma relay_newE:
  assumes "relay_new S v6 a s = (q, s')"
  obtains e where "q = Inl e" and "s' = s"
  | "q = Inr (relay_next s)" and "s' = relay_added v6 a s"
proof (cases "q")
  case (Inl e)
  with assms have "s' = s" by (auto simp: relay_new_def split: sum.split_asm)
  with Inl show thesis by (rule that(1))
next
  case (Inr sid)
  with assms have "sid = relay_next s" "s' = relay_added v6 a s"
    by (auto simp: relay_new_def relay_added_def split: sum.split_asm)
  with Inr show thesis by (intro that(2)) simp_all
qed

lemma relay_for_cases:
  fixes r :: "('u, 'm) server_error + nat"
  assumes "relay_for S v6 a s = (r, s')"
  obtains (same) "s' = s"
  | (new) "relay_map s a = None" and "r = Inr (relay_next s)"
      and "s' = s\<lparr>relay_map := (relay_map s)(a \<mapsto> relay_next s), relays := (relays s)(relay_next s \<mapsto>
          \<lparr>relay_assoc_id = a, relay_socket_v6 = v6, relay_close = True,
           relay_told = False, relay_listener = Listening\<rparr>), relay_next := relay_next s + 1\<rparr>"
proof (cases "relay_map s a")
  case (Some sid)
  with assms have "s' = s" by (simp add: relay_for_def)
  then show thesis by (rule same)
next
  case None
  obtain q :: "('u, 'm) server_error + nat" and s1 where made: "relay_new S v6 a s = (q, s1)"
    by (rule prod.exhaust)
  show thesis
  proof (cases q)
    case (Inl e)
    with made have "s1 = s" by (auto elim: relay_newE)
    with assms None made Inl have "s' = s" by (simp add: relay_for_def)
    then show thesis by (rule same)
  next
    case (Inr sid)
    with made have "sid = relay_next s" "s1 = relay_added v6 a s" by (auto elim: relay_newE)
    with assms None made Inr show thesis
      by (intro new) (auto simp: relay_for_def relay_added_def)
  qed
qed

lemma relay_unmap_ok: "relays_ok s \<Longrightarrow> relays_ok (s\<lparr>relay_map := (relay_map s)(a := None)\<rparr>)"
  by (simp add: relays_ok_def)

lemma relay_update_ok:
  assumes "relays_ok s" and "relays s sid = Some r" and "relay_assoc_id r' = relay_assoc_id r"
    and "relay_ok r'"
  shows "relays_ok (s\<lparr>relays := (relays s)(sid \<mapsto> r')\<rparr>)"
proof -
  have "\<exists>q. (if b = sid then Some r' else relays s b) = Some q \<and> relay_assoc_id q = a"
    if "relay_map s a = Some b" for a b
    using that assms(1-3) unfolding relays_ok_def by (metis option.inject)
  with assms show ?thesis by (simp add: relays_ok_def)
qed

lemma relay_shut_ok: "relays_ok s \<Longrightarrow> relays_ok (relay_shut sid s)"
  by (auto simp: relay_shut_def relay_ok_def intro!: relay_update_ok split: option.split)

lemma relays_ok_relay: "relays_ok s \<Longrightarrow> relays s sid = Some r \<Longrightarrow> relay_ok r"
  by (simp add: relays_ok_def)

lemma listener_leave_ok: "relays_ok s \<Longrightarrow> relays_ok (listener_leave sid s)"
  by (auto simp: listener_leave_def relay_ok_def intro!: relay_update_ok
      dest: relays_ok_relay [of s sid] split: option.split)

lemma listener_finish_ok:
  assumes "relays_ok s"
  shows "relays_ok (listener_finish sid s)"
proof (cases "\<exists>r. relays s sid = Some r \<and> relay_listener r = Leaving")
  case True
  then obtain r where r: "relays s sid = Some r" "relay_listener r = Leaving" by blast
  have "b \<noteq> sid" if "relay_map s a = Some b" "a \<noteq> relay_assoc_id r" for a b
    using that assms r(1) unfolding relays_ok_def by (metis option.inject)
  with assms r show ?thesis by (simp add: relays_ok_def listener_finish_def)
next
  case False
  then have "listener_finish sid s = s" by (auto simp: listener_finish_def split: option.splits)
  with assms show ?thesis by simp
qed

lemma relay_for_ok:
  assumes "relay_for S v6 a s = (r, s')" and "relays_ok s"
  shows "relays_ok s'"
  using assms(1)
proof (cases rule: relay_for_cases)
  case same
  with assms(2) show ?thesis by simp
next
  case new
  have fresh: "relays s (relay_next s) = None"
    using assms(2) unfolding relays_ok_def by (metis less_irrefl not_None_eq)
  then have "relay_map s b \<noteq> Some (relay_next s)" for b
    using assms(2) unfolding relays_ok_def by fastforce
  with new assms(2) fresh show ?thesis
    by (auto simp: relays_ok_def relay_ok_def less_Suc_eq)
qed

lemma relay_dissociate_ok: "relays_ok s \<Longrightarrow> relays_ok (relay_dissociate a s)"
  by (simp add: relay_dissociate_def relay_shut_ok relay_unmap_ok split: option.split)

lemma relay_next_unchanged [simp]:
  "relay_next (relay_shut sid s) = relay_next s"
  "relay_next (relay_dissociate a s) = relay_next s"
  "relay_next (listener_timeout sid s) = relay_next s"
  "relay_next (listener_leave sid s) = relay_next s"
  "relay_next (listener_finish sid s) = relay_next s"
  by (simp_all add: relay_operations split: option.split)

lemma relay_step_ok:
  assumes "relay_step d s s'" and "relays_ok s"
  shows "relays_ok s'"
  using assms
proof (induction rule: relay_step.induct)
  case (relay_packet S v6 a s r s')
  then show ?case by (rule relay_for_ok)
next
  case (relay_dissociated s a)
  then show ?case by (simp add: relay_dissociate_ok)
next
  case (relay_timeout s sid)
  then show ?case by (simp add: listener_timeout_def relay_shut_ok)
next
  case (relay_leave s sid)
  then show ?case by (rule listener_leave_ok)
next
  case (relay_finish s sid)
  then show ?case by (rule listener_finish_ok)
qed

lemma relay_step_unique:
  assumes "relay_step d s s'" and "\<not> d" and "relays_unique s"
  shows "relays_unique s'"
proof -
  have ok: "relays_ok s'" using relay_step_ok [OF assms(1)] assms(3) by (simp add: relays_unique_def)
  have "relay_map s' (relay_assoc_id r) = Some sid" if "relays s' sid = Some r" for sid r
    using assms that
  proof (induction rule: relay_step.induct)
    case (relay_packet S v6 a s r' s')
    from relay_packet.hyps show ?case
    proof (cases rule: relay_for_cases)
      case same
      with relay_packet.prems show ?thesis by (simp add: relays_unique_def)
    next
      case new
      with relay_packet.prems show ?thesis
        by (auto simp: relays_unique_def split: if_splits)
    qed
  next
    case (relay_finish s sid')
    show ?case
    proof (cases "\<exists>r'. relays s sid' = Some r' \<and> relay_listener r' = Leaving")
      case True
      then obtain r' where r': "relays s sid' = Some r'" "relay_listener r' = Leaving" by blast
      with relay_finish.prems have "relays s sid = Some r" "sid \<noteq> sid'"
        by (auto simp: listener_finish_def split: if_splits)
      moreover from this r' relay_finish.prems have "relay_assoc_id r \<noteq> relay_assoc_id r'"
        unfolding relays_unique_def by (metis option.inject)
      ultimately show ?thesis
        using r' relay_finish.prems by (simp add: relays_unique_def listener_finish_def)
    next
      case False
      then have "listener_finish sid' s = s" by (auto simp: listener_finish_def split: option.splits)
      with relay_finish.prems show ?thesis by (simp add: relays_unique_def)
    qed
  qed (auto simp: relays_unique_def relay_operations split: option.splits if_splits)
  with ok show ?thesis by (simp add: relays_unique_def)
qed

interpretation relay: invariant_system "\<lambda>s. s = udp_relays_new" "relay_step d" relays_ok
proof unfold_locales
  show "s = udp_relays_new \<Longrightarrow> relays_ok s" for s
    by (simp add: relays_ok_def udp_relays_new_def)
  show "relays_ok s \<Longrightarrow> relay_step d s s' \<Longrightarrow> relays_ok s'" for s s'
    by (rule relay_step_ok)
qed

interpretation relay_quiet: invariant_system "\<lambda>s. s = udp_relays_new" "relay_step False" relays_unique
proof unfold_locales
  show "s = udp_relays_new \<Longrightarrow> relays_unique s" for s
    by (simp add: relays_unique_def relays_ok_def udp_relays_new_def)
  show "relays_unique s \<Longrightarrow> relay_step False s s' \<Longrightarrow> relays_unique s'" for s s'
    by (rule relay_step_unique) auto
qed

section \<open>Properties\<close>

text \<open>Sockets on which every call succeeds.\<close>

definition sockets_open :: "sockets \<Rightarrow> bool" where
  "sockets_open S \<longleftrightarrow> (\<forall>v6. socket_new S v6 = Inr () \<and> set_nonblocking S v6 = Inr () \<and>
     set_only_v6 S v6 = Inr () \<and> socket_bind S v6 = Inr () \<and> socket_from_std S v6 = Inr ())"

definition open_sockets :: sockets where
  "open_sockets = \<lparr>socket_new = \<lambda>_. Inr (), set_nonblocking = \<lambda>_. Inr (), set_only_v6 = \<lambda>_. Inr (),
     socket_bind = \<lambda>_. Inr (), socket_from_std = \<lambda>_. Inr ()\<rparr>"

lemma open_sockets_open: "sockets_open open_sockets"
  by (simp add: sockets_open_def open_sockets_def)

lemma relay_new_open:
  "sockets_open S \<Longrightarrow> relay_new S v6 a s = (Inr (relay_next s), relay_added v6 a s)"
  by (simp add: relay_new_def relay_added_def open_socket_v4_def open_socket_v6_def sockets_open_def)

text \<open>
  C37: a UDP session ends. In every state the sessions of a connection reach, whatever packets,
  dissociations, timers and listeners did before, once the timer of a session's listener fires
  (whether or not a \<open>Dissociate\<close> came) the listener leaves its loop and the session is gone, and its
  association is free.
\<close>

theorem timeout_reclaims_session:
  assumes "reachable (\<lambda>s. s = udp_relays_new) (relay_step dissociates) s" and "relays s sid = Some r"
  shows "relays (listener_finish sid (listener_leave sid (listener_timeout sid s))) sid = None \<and>
    relay_map (listener_finish sid (listener_leave sid (listener_timeout sid s))) (relay_assoc_id r) = None"
proof -
  have "relay_ok r"
    using relay.reachable_inv [OF assms(1)] assms(2) by (rule relays_ok_relay)
  then show ?thesis
    using assms(2) by (cases "relay_listener r")
      (auto simp: listener_timeout_def listener_leave_def listener_finish_def relay_shut_def relay_ok_def)
qed

text \<open>
  C23: one session for each association, as long as the client sends no \<open>Dissociate\<close>. Then every
  entry of the connection's map is a session of its association, and every session that is not gone
  is the entry of its association: none is out of reach of a packet or a later \<open>Dissociate\<close>.
\<close>

theorem one_session_per_association:
  assumes "reachable (\<lambda>s. s = udp_relays_new) (relay_step False) s"
  shows "relay_map s a = Some sid \<longleftrightarrow> (\<exists>r. relays s sid = Some r \<and> relay_assoc_id r = a)"
  using relay_quiet.reachable_inv [OF assms] unfolding relays_unique_def relays_ok_def by blast

text \<open>
  With a \<open>Dissociate\<close> that no longer holds. When a packet reopens the association before the
  closed session's listener has left, that listener removes the entry of the new session: the new
  session lives on, no entry leads to it, and another \<open>Dissociate\<close> leaves it as it is.
\<close>

theorem late_listener_orphans_session:
  fixes r2 :: "('u, 'm) server_error + nat"
  assumes "reachable (\<lambda>s. s = udp_relays_new) (relay_step dissociates) s"
    and "relay_map s a = Some sid" and "relays s sid = Some r" and "relay_listener r = Listening"
    and "sockets_open S" and "relay_for S ipv6_on a (relay_dissociate a s) = (r2, s2)"
    and "s3 = listener_finish sid (listener_leave sid s2)"
  shows "r2 = Inr (relay_next s) \<and> relay_map s3 a = None \<and>
    (\<exists>r. relays s3 (relay_next s) = Some r \<and> relay_assoc_id r = a \<and> relay_listener r = Listening \<and>
       relay_close r \<and> \<not> relay_told r) \<and> relay_dissociate a s3 = s3"
proof -
  let ?s1 = "relay_dissociate a s"
  have ok: "relays_ok s" using relay.reachable_inv [OF assms(1)] .
  then have "relay_assoc_id r = a" "relay_ok r"
    using assms(2,3) unfolding relays_ok_def by (metis option.inject)+
  then have s1: "relay_map ?s1 a = None" "relay_next ?s1 = relay_next s"
    "\<exists>r'. relays ?s1 sid = Some r' \<and> relay_told r' \<and> relay_listener r' = Listening \<and> relay_assoc_id r' = a"
    using assms(2-4) by (auto simp: relay_dissociate_def relay_shut_def relay_ok_def)
  have "sid < relay_next s" using ok assms(3) by (simp add: relays_ok_def)
  with s1 assms(5-7) show ?thesis
    by (auto simp: relay_for_def relay_new_open relay_added_def listener_leave_def listener_finish_def
        relay_dissociate_def)
qed

theorem timeout_reclaims_session_witness:
  "let s = snd (relay_for open_sockets True 5 udp_relays_new :: ((unit, unit) server_error + nat) \<times> udp_relays)
   in relays (listener_finish 0 (listener_leave 0 (listener_timeout 0 s))) 0 = None \<and> relays s 0 \<noteq> None"
proof -
  let ?p = "relay_for open_sockets True 5 udp_relays_new :: ((unit, unit) server_error + nat) \<times> udp_relays"
  have "reachable (\<lambda>s. s = udp_relays_new) (relay_step True) (snd ?p)"
    by (rule reachable_step [OF reachable_init], rule refl, rule relay_packet, rule surjective_pairing)
  moreover have "relays (snd ?p) 0 = Some \<lparr>relay_assoc_id = 5, relay_socket_v6 = True, relay_close = True,
      relay_told = False, relay_listener = Listening\<rparr>"
    by code_simp
  ultimately have "relays (listener_finish 0 (listener_leave 0 (listener_timeout 0 (snd ?p)))) 0 = None"
    "relays (snd ?p) 0 \<noteq> None"
    using timeout_reclaims_session [of True "snd ?p" 0] by simp_all
  then show ?thesis by (simp add: Let_def)
qed

theorem one_session_per_association_witness:
  "relay_map (snd (relay_for open_sockets True 5 udp_relays_new ::
      ((unit, unit) server_error + nat) \<times> udp_relays)) 5 = Some 0"
proof -
  let ?p = "relay_for open_sockets True 5 udp_relays_new :: ((unit, unit) server_error + nat) \<times> udp_relays"
  have "reachable (\<lambda>s. s = udp_relays_new) (relay_step False) (snd ?p)"
    by (rule reachable_step [OF reachable_init], rule refl, rule relay_packet, rule surjective_pairing)
  moreover have "relays (snd ?p) 0 = Some \<lparr>relay_assoc_id = 5, relay_socket_v6 = True, relay_close = True,
      relay_told = False, relay_listener = Listening\<rparr>"
    by code_simp
  ultimately show ?thesis using one_session_per_association [of "snd ?p" 5 0] by simp
qed

theorem late_listener_orphans_session_witness:
  "let s = snd (relay_for open_sockets True 5 udp_relays_new :: ((unit, unit) server_error + nat) \<times> udp_relays);
     s2 = snd (relay_for open_sockets True 5 (relay_dissociate 5 s) ::
       ((unit, unit) server_error + nat) \<times> udp_relays);
     s3 = listener_finish 0 (listener_leave 0 s2)
   in relay_dissociate 5 s3 = s3 \<and> relays s3 1 \<noteq> None"
proof -
  let ?p = "relay_for open_sockets True 5 udp_relays_new :: ((unit, unit) server_error + nat) \<times> udp_relays"
  let ?r = "\<lparr>relay_assoc_id = 5, relay_socket_v6 = True, relay_close = True, relay_told = False,
    relay_listener = Listening\<rparr>"
  let ?q = "relay_for open_sockets True 5 (relay_dissociate 5 (snd ?p)) ::
    ((unit, unit) server_error + nat) \<times> udp_relays"
  let ?t = "listener_finish 0 (listener_leave 0 (snd ?q))"
  have reach: "reachable (\<lambda>s. s = udp_relays_new) (relay_step True) (snd ?p)"
    by (rule reachable_step [OF reachable_init], rule refl, rule relay_packet, rule surjective_pairing)
  have entry: "relay_map (snd ?p) 5 = Some 0" and live: "relays (snd ?p) 0 = Some ?r"
    and "relay_listener ?r = Listening" and fresh: "relay_next (snd ?p) = 1" by code_simp+
  have "?q = (fst ?q, snd ?q)" by simp
  note orphan = late_listener_orphans_session [OF reach entry live \<open>relay_listener ?r = Listening\<close>
      open_sockets_open this refl]
  then show ?thesis unfolding Let_def fresh by blast
qed

end
