(* ===== verification/Server_Restful.thy ===== *)
theory Server_Restful
  imports Tuic_Prelude
begin

text \<open>
  The RESTful interface of the server, \<^verbatim>\<open>tuic-server/src/restful.rs\<close>: the three statics (online
  counters, online clients, traffic counters), the five HTTP handlers and the four functions the
  connections call. A client is identified by the stable id of its QUIC connection, as its \<open>Hash\<close>
  and \<open>Eq\<close> are; atomic operations are single steps on the state, and an \<open>AtomicU64\<close> wraps.
\<close>

section \<open>State\<close>

text \<open>
  The part of the configuration the interface reads: the users, and the \<open>restful\<close> section with its
  secret (empty: no check) and its client limit (0: none).
\<close>

record restful_config =
  rf_secret :: string
  rf_maximum_clients_per_user :: u64

record quic_client =
  qc_stable_id :: nat
  qc_remote_address :: nat

record 'u restful =
  online_counter :: "'u \<Rightarrow> u64 option"
  online_clients :: "'u \<Rightarrow> quic_client list option"
  traffic_stats :: "'u \<Rightarrow> (u64 \<times> u64) option"
  closed_clients :: "(nat \<times> nat) list"

text \<open>
  \<open>closed_clients\<close> lists the \<open>close\<close> calls on connections: the stable id and the error code. The counters and the
  traffic are \<open>LateInit\<close> statics, here from where \<open>start\<close> has set them: the server spawns it before it accepts
  connections, but waits for nothing, and what the crate lateinit does on an earlier access is not modelled.
\<close>

definition restful_start :: "('u \<Rightarrow> 'p option) \<Rightarrow> 'u restful" where
  "restful_start users =
     \<lparr>online_counter = (\<lambda>u. map_option (\<lambda>_. 0) (users u)),
      online_clients = Map.empty,
      traffic_stats = (\<lambda>u. map_option (\<lambda>_. (0, 0)) (users u)),
      closed_clients = []\<rparr>"

definition close_client :: "nat \<Rightarrow> quic_client \<Rightarrow> 'u restful \<Rightarrow> 'u restful" where
  "close_client code c s = s\<lparr>closed_clients := closed_clients s @ [(qc_stable_id c, code)]\<rparr>"

text \<open>\<open>HashSet\<close> insertion and removal, by stable id.\<close>

definition client_insert :: "quic_client \<Rightarrow> quic_client list \<Rightarrow> quic_client list" where
  "client_insert c cs = (if \<exists>d \<in> set cs. qc_stable_id d = qc_stable_id c then cs else c # cs)"

definition client_remove :: "quic_client \<Rightarrow> quic_client list \<Rightarrow> quic_client list" where
  "client_remove c cs = filter (\<lambda>d. qc_stable_id d \<noteq> qc_stable_id c) cs"

section \<open>The HTTP handlers\<close>

datatype status = OK | UNAUTHORIZED

text \<open>
  The guard at the head of every handler: a chain of \<open>if let\<close> that ends in the comparison. With
  no bearer token in the request the chain fails before it compares.
\<close>

definition rejected :: "restful_config option \<Rightarrow> string option \<Rightarrow> bool" where
  "rejected cfg token = (case cfg of None \<Rightarrow> False
   | Some restful \<Rightarrow> rf_secret restful \<noteq> [] \<and>
      (case token of None \<Rightarrow> False | Some token \<Rightarrow> rf_secret restful \<noteq> token))"

definition kick_user :: "'u restful \<Rightarrow> 'u \<Rightarrow> 'u restful" where
  "kick_user s user = (case online_clients s user of
     None \<Rightarrow> s | Some list \<Rightarrow> foldl (\<lambda>s c. close_client 6002 c s) s list)"

definition kick :: "restful_config option \<Rightarrow> string option \<Rightarrow> 'u list \<Rightarrow> 'u restful \<Rightarrow> status \<times> 'u restful"
  where
  "kick cfg token users s =
     (if rejected cfg token then (UNAUTHORIZED, s) else (OK, foldl kick_user s users))"

definition list_online :: "restful_config option \<Rightarrow> string option \<Rightarrow> 'u restful \<Rightarrow> status \<times> ('u \<Rightarrow> u64 option)"
  where
  "list_online cfg token s =
     (if rejected cfg token then (UNAUTHORIZED, Map.empty)
      else (OK, \<lambda>u. case online_counter s u of
        Some count \<Rightarrow> if count \<noteq> 0 then Some count else None | None \<Rightarrow> None))"

definition list_detailed_online ::
    "restful_config option \<Rightarrow> string option \<Rightarrow> 'u restful \<Rightarrow> status \<times> ('u \<Rightarrow> nat list option)" where
  "list_detailed_online cfg token s =
     (if rejected cfg token then (UNAUTHORIZED, Map.empty)
      else (OK, \<lambda>u. case online_clients s u of
        Some list \<Rightarrow> if list = [] then None else Some (map qc_remote_address list) | None \<Rightarrow> None))"

definition traffic_entries :: "'u restful \<Rightarrow> 'u \<Rightarrow> (u64 \<times> u64) option" where
  "traffic_entries s u = (case traffic_stats s u of
     Some (tx, rx) \<Rightarrow> if tx \<noteq> 0 \<or> rx \<noteq> 0 then Some (tx, rx) else None | None \<Rightarrow> None)"

definition list_traffic ::
    "restful_config option \<Rightarrow> string option \<Rightarrow> 'u restful \<Rightarrow> status \<times> ('u \<Rightarrow> (u64 \<times> u64) option)" where
  "list_traffic cfg token s =
     (if rejected cfg token then (UNAUTHORIZED, Map.empty) else (OK, traffic_entries s))"

definition reset_traffic ::
    "restful_config option \<Rightarrow> string option \<Rightarrow> 'u restful \<Rightarrow>
      (status \<times> ('u \<Rightarrow> (u64 \<times> u64) option)) \<times> 'u restful" where
  "reset_traffic cfg token s =
     (if rejected cfg token then ((UNAUTHORIZED, Map.empty), s)
      else ((OK, traffic_entries s),
        s\<lparr>traffic_stats := (\<lambda>u. map_option (\<lambda>_. (0, 0)) (traffic_stats s u))\<rparr>))"

section \<open>The calls of the connections\<close>

text \<open>
  The map of online clients is a \<open>CHashMap\<close> of the crate chashmap-async, of which the code calls
  \<open>upsert(key, insert, update)\<close>: a parameter. It is documented to update the value of a key that is
  there and to insert the given value, which is not updated, for a key that is not.
\<close>

type_synonym 'u upsert = "'u \<Rightarrow> quic_client list \<Rightarrow> (quic_client list \<Rightarrow> quic_client list) \<Rightarrow>
  ('u \<Rightarrow> quic_client list option) \<Rightarrow> ('u \<Rightarrow> quic_client list option)"

definition upsert_ok :: "'u upsert \<Rightarrow> bool" where
  "upsert_ok ups \<longleftrightarrow>
     (\<forall>k ins upd m v. m k = Some v \<longrightarrow> ups k ins upd m = m(k \<mapsto> upd v)) \<and>
     (\<forall>k ins upd m. m k = None \<longrightarrow> ups k ins upd m = m(k \<mapsto> ins))"

definition map_upsert :: "'u upsert" where
  "map_upsert k ins upd m = (case m k of Some v \<Rightarrow> m(k \<mapsto> upd v) | None \<Rightarrow> m(k \<mapsto> ins))"

lemma map_upsert_ok: "upsert_ok map_upsert"
  by (simp add: upsert_ok_def map_upsert_def)

text \<open>
  The counter's previous value is compared with the limit. A user without an entry in the counters
  is the \<open>expect\<close>.
\<close>

definition restful_client_connect ::
    "'u upsert \<Rightarrow> restful_config option \<Rightarrow> 'u \<Rightarrow> quic_client \<Rightarrow> 'u restful \<Rightarrow> unit outcome \<times> 'u restful" where
  "restful_client_connect ups cfg uuid conn s = (case cfg of None \<Rightarrow> (Returns (), s)
   | Some cfg \<Rightarrow> (case online_counter s uuid of None \<Rightarrow> (Panics UnwrapNone, s)
     | Some current \<Rightarrow>
         let s = s\<lparr>online_counter := (online_counter s)(uuid \<mapsto> current + 1)\<rparr> in
         if rf_maximum_clients_per_user cfg \<noteq> 0 \<and> rf_maximum_clients_per_user cfg < current
         then (Returns (), close_client 6001 conn s)
         else (Returns (), s\<lparr>online_clients :=
           ups uuid [] (client_insert conn) (online_clients s)\<rparr>)))"

definition restful_client_disconnect ::
    "restful_config option \<Rightarrow> 'u \<Rightarrow> quic_client \<Rightarrow> 'u restful \<Rightarrow> unit outcome \<times> 'u restful" where
  "restful_client_disconnect cfg uuid conn s = (case cfg of None \<Rightarrow> (Returns (), s)
   | Some _ \<Rightarrow> (case online_counter s uuid of None \<Rightarrow> (Panics UnwrapNone, s)
     | Some current \<Rightarrow>
         let s = s\<lparr>online_counter := (online_counter s)(uuid \<mapsto> current - 1)\<rparr> in
         (Returns (), case online_clients s uuid of None \<Rightarrow> s
          | Some v \<Rightarrow> s\<lparr>online_clients := (online_clients s)(uuid \<mapsto> client_remove conn v)\<rparr>)))"

definition traffic_tx :: "restful_config option \<Rightarrow> 'u \<Rightarrow> u64 \<Rightarrow> 'u restful \<Rightarrow> 'u restful" where
  "traffic_tx cfg uuid n s = (case cfg of None \<Rightarrow> s | Some _ \<Rightarrow>
     (case traffic_stats s uuid of None \<Rightarrow> s
      | Some (tx, rx) \<Rightarrow> s\<lparr>traffic_stats := (traffic_stats s)(uuid \<mapsto> (tx + n, rx))\<rparr>))"

definition traffic_rx :: "restful_config option \<Rightarrow> 'u \<Rightarrow> u64 \<Rightarrow> 'u restful \<Rightarrow> 'u restful" where
  "traffic_rx cfg uuid n s = (case cfg of None \<Rightarrow> s | Some _ \<Rightarrow>
     (case traffic_stats s uuid of None \<Rightarrow> s
      | Some (tx, rx) \<Rightarrow> s\<lparr>traffic_stats := (traffic_stats s)(uuid \<mapsto> (tx, rx + n))\<rparr>))"

section \<open>Lemmas\<close>

lemma foldl_close_client:
  "foldl (\<lambda>s c. close_client code c s) s cs =
    s\<lparr>closed_clients := closed_clients s @ map (\<lambda>c. (qc_stable_id c, code)) cs\<rparr>"
  by (induction cs arbitrary: s) (simp_all add: close_client_def)

lemma kick_user_closed:
  "closed_clients (kick_user s user) = closed_clients s @
    (case online_clients s user of None \<Rightarrow> [] | Some cs \<Rightarrow> map (\<lambda>c. (qc_stable_id c, 6002)) cs)"
  by (simp add: kick_user_def foldl_close_client split: option.split)

text \<open>A sequence of connects of one user.\<close>

fun connect_all :: "'u upsert \<Rightarrow> restful_config \<Rightarrow> 'u \<Rightarrow> quic_client list \<Rightarrow> 'u restful \<Rightarrow> 'u restful" where
  "connect_all ups cfg uuid [] s = s"
| "connect_all ups cfg uuid (c # cs) s =
     connect_all ups cfg uuid cs (snd (restful_client_connect ups (Some cfg) uuid c s))"

lemma connect_all_closed:
  assumes "rf_maximum_clients_per_user cfg \<noteq> 0" and "online_counter s uuid = Some (of_nat n)"
    and "n + length cs < 18446744073709551616"
  shows "closed_clients (connect_all ups cfg uuid cs s) = closed_clients s @
    map (\<lambda>c. (qc_stable_id c, 6001)) (drop (Suc (unat (rf_maximum_clients_per_user cfg)) - n) cs)"
  using assms(2,3)
proof (induction cs arbitrary: s n)
  case Nil
  then show ?case by simp
next
  case (Cons c cs)
  let ?max = "rf_maximum_clients_per_user cfg"
  let ?s = "snd (restful_client_connect ups (Some cfg) uuid c s)"
  have count: "online_counter ?s uuid = Some (of_nat (Suc n))"
    using Cons.prems by (simp add: restful_client_connect_def Let_def close_client_def add.commute)
  have "unat (of_nat n :: u64) = n" using Cons.prems(2) by (simp add: unat_of_nat)
  then have "?max < of_nat n \<longleftrightarrow> unat ?max < n" by (simp add: word_less_nat_alt)
  then have closed: "closed_clients ?s = closed_clients s @
      (if unat ?max < n then [(qc_stable_id c, 6001)] else [])"
    using Cons.prems assms(1) by (simp add: restful_client_connect_def Let_def close_client_def)
  from Cons.IH [OF count] Cons.prems(2) closed show ?case
    by (cases "unat ?max < n") (simp_all add: Suc_diff_le)
qed

text \<open>Traffic accounting: the operations on the statistics of one user, and what resets report.\<close>

datatype traffic_op = CountTx u64 | CountRx u64 | ResetTraffic

fun run_traffic ::
    "restful_config \<Rightarrow> 'u \<Rightarrow> traffic_op list \<Rightarrow> 'u restful \<Rightarrow> (u64 \<times> u64) list \<times> 'u restful" where
  "run_traffic cfg u [] s = ([], s)"
| "run_traffic cfg u (CountTx n # ops) s = run_traffic cfg u ops (traffic_tx (Some cfg) u n s)"
| "run_traffic cfg u (CountRx n # ops) s = run_traffic cfg u ops (traffic_rx (Some cfg) u n s)"
| "run_traffic cfg u (ResetTraffic # ops) s =
     (case reset_traffic (Some cfg) (Some (rf_secret cfg)) s of ((_, entries), s) \<Rightarrow>
      case run_traffic cfg u ops s of (reports, s) \<Rightarrow>
        ((case entries u of Some r \<Rightarrow> [r] | None \<Rightarrow> []) @ reports, s))"

fun tx_of :: "traffic_op \<Rightarrow> u64" where
  "tx_of (CountTx n) = n" | "tx_of _ = 0"

fun rx_of :: "traffic_op \<Rightarrow> u64" where
  "rx_of (CountRx n) = n" | "rx_of _ = 0"

lemma run_traffic_sums:
  assumes "traffic_stats s u = Some (t0, r0)" and "run_traffic cfg u ops s = (reports, s')"
  obtains t r where "traffic_stats s' u = Some (t, r)"
    and "sum_list (map fst reports) + t = t0 + sum_list (map tx_of ops)"
    and "sum_list (map snd reports) + r = r0 + sum_list (map rx_of ops)"
proof -
  have "\<exists>t r. traffic_stats s' u = Some (t, r) \<and>
      sum_list (map fst reports) + t = t0 + sum_list (map tx_of ops) \<and>
      sum_list (map snd reports) + r = r0 + sum_list (map rx_of ops)"
    using assms
  proof (induction cfg u ops s arbitrary: t0 r0 reports rule: run_traffic.induct)
    case (1 cfg u s)
    then show ?case by simp
  next
    case (2 cfg u n ops s)
    from "2.prems" have "traffic_stats (traffic_tx (Some cfg) u n s) u = Some (t0 + n, r0)"
      by (simp add: traffic_tx_def)
    from "2.IH" [OF this] "2.prems" show ?case by (simp add: add.assoc)
  next
    case (3 cfg u n ops s)
    from "3.prems" have "traffic_stats (traffic_rx (Some cfg) u n s) u = Some (t0, r0 + n)"
      by (simp add: traffic_rx_def)
    from "3.IH" [OF this] "3.prems" show ?case by (simp add: add.assoc)
  next
    case (4 cfg u ops s)
    let ?s = "s\<lparr>traffic_stats := (\<lambda>u. map_option (\<lambda>_. (0, 0)) (traffic_stats s u))\<rparr>"
    have reset: "reset_traffic (Some cfg) (Some (rf_secret cfg)) s = ((OK, traffic_entries s), ?s)"
      by (simp add: reset_traffic_def rejected_def)
    obtain rest where run: "run_traffic cfg u ops ?s = (rest, s')"
      and reports: "reports = (case traffic_entries s u of Some r \<Rightarrow> [r] | None \<Rightarrow> []) @ rest"
      using "4.prems"(2) reset by (auto split: prod.splits)
    have "traffic_stats ?s u = Some (0, 0)" using "4.prems"(1) by simp
    from "4.IH" [OF reset [symmetric] refl this run] reports "4.prems"(1) show ?case
      by (auto simp: traffic_entries_def add.assoc)
  qed
  with that show thesis by blast
qed

section \<open>Properties\<close>

text \<open>
  C35: no traffic is lost or reported twice by resets: whatever the interleaving of traffic and resets, what
  the resets reported and what the list of traffic then shows for the user add up to what was counted, in each
  direction, modulo \<open>2 ^ 64\<close>. The list leaves a user out that has nothing left to report, and it changes
  nothing: it shows the same again until more is counted or a reset reports it.
\<close>

theorem traffic_is_conserved:
  assumes "users u \<noteq> None" and "run_traffic cfg u ops (restful_start users) = (reports, s')"
  shows "\<exists>t r. traffic_stats s' u = Some (t, r) \<and>
    sum_list (map fst reports) + t = sum_list (map tx_of ops) \<and>
    sum_list (map snd reports) + r = sum_list (map rx_of ops) \<and>
    fst (list_traffic (Some cfg) (Some (rf_secret cfg)) s') = OK \<and>
    snd (list_traffic (Some cfg) (Some (rf_secret cfg)) s') u = (if t = 0 \<and> r = 0 then None else Some (t, r))"
proof -
  have "traffic_stats (restful_start users) u = Some (0, 0)"
    using assms(1) by (auto simp: restful_start_def)
  then obtain t r where "traffic_stats s' u = Some (t, r)"
    and "sum_list (map fst reports) + t = sum_list (map tx_of ops)"
    and "sum_list (map snd reports) + r = sum_list (map rx_of ops)"
    using run_traffic_sums [OF _ assms(2)] by (metis add_0)
  then show ?thesis by (auto simp: list_traffic_def rejected_def traffic_entries_def)
qed

theorem traffic_is_conserved_witness:
  "snd (list_traffic (Some \<lparr>rf_secret = ''s'', rf_maximum_clients_per_user = 0\<rparr>) (Some ''s'')
      (snd (run_traffic \<lparr>rf_secret = ''s'', rf_maximum_clients_per_user = 0\<rparr> (7 :: nat)
        [CountTx 5, ResetTraffic, CountTx 2, CountRx 1] (restful_start [7 \<mapsto> ()])))) 7 = Some (2, 1)"
proof -
  let ?cfg = "\<lparr>rf_secret = ''s'', rf_maximum_clients_per_user = 0\<rparr>"
  let ?run = "run_traffic ?cfg (7 :: nat) [CountTx 5, ResetTraffic, CountTx 2, CountRx 1]
    (restful_start [7 \<mapsto> ()])"
  define s' where "s' = snd ?run"
  have "fst ?run = [(5, 0)]" by code_simp
  then have run: "?run = ([(5, 0)], s')" by (metis prod.collapse s'_def)
  have "[7 \<mapsto> ()] (7 :: nat) \<noteq> None" by simp
  from traffic_is_conserved [OF this run] obtain t r where counted: "5 + t = (7 :: u64)" "r = (1 :: u64)"
    and listed: "snd (list_traffic (Some ?cfg) (Some ''s'') s') 7 = (if t = 0 \<and> r = 0 then None else Some (t, r))" by auto
  from counted(1) have "t = 7 - 5" by (metis add_diff_cancel_left')
  with counted(2) listed show ?thesis unfolding s'_def [symmetric] by simp
qed

text \<open>
  The client limit lets one client more in than it says: of the clients of a user that connect
  one after another, the first \<open>maximum + 1\<close> stay and every later one is closed with the code 6001,
  because the count before the new client is compared.
\<close>

theorem limit_admits_one_more:
  assumes "rf_maximum_clients_per_user cfg \<noteq> 0" and "users u \<noteq> None"
    and "length cs < 18446744073709551616"
  shows "closed_clients (connect_all ups cfg u cs (restful_start users)) =
    map (\<lambda>c. (qc_stable_id c, 6001)) (drop (unat (rf_maximum_clients_per_user cfg) + 1) cs)"
proof -
  have "online_counter (restful_start users) u = Some (of_nat 0)"
    using assms(2) by (auto simp: restful_start_def)
  from connect_all_closed [OF assms(1) this, of cs ups] assms(3) show ?thesis
    by (simp add: restful_start_def)
qed

theorem limit_admits_one_more_witness:
  "closed_clients (connect_all map_upsert \<lparr>rf_secret = ''s'', rf_maximum_clients_per_user = 1\<rparr> (7 :: nat)
      [\<lparr>qc_stable_id = 1, qc_remote_address = 10\<rparr>, \<lparr>qc_stable_id = 2, qc_remote_address = 10\<rparr>,
       \<lparr>qc_stable_id = 3, qc_remote_address = 10\<rparr>] (restful_start [7 \<mapsto> ()])) = [(3, 6001)]"
proof -
  from limit_admits_one_more [of "\<lparr>rf_secret = ''s'', rf_maximum_clients_per_user = 1\<rparr>"
      "[7 \<mapsto> ()]" "7 :: nat" "[\<lparr>qc_stable_id = 1, qc_remote_address = 10\<rparr>, \<lparr>qc_stable_id = 2, qc_remote_address = 10\<rparr>,
       \<lparr>qc_stable_id = 3, qc_remote_address = 10\<rparr>]" map_upsert]
  show ?thesis by (simp del: connect_all.simps)
qed

text \<open>
  The first client of a user is counted but not listed: the set that \<open>upsert\<close> makes for it is
  empty. So it does not show among the clients, and kicking the user does not close it.
\<close>

theorem first_client_cannot_be_kicked:
  assumes "upsert_ok ups" and "online_clients s u = None" and "online_counter s u = Some n"
    and "n \<le> rf_maximum_clients_per_user cfg \<or> rf_maximum_clients_per_user cfg = 0"
    and "restful_client_connect ups (Some cfg) u conn s = (r, s')"
    and "kick (Some cfg) (Some (rf_secret cfg)) [u] s' = (status, s'')"
  shows "r = Returns () \<and> online_counter s' u = Some (n + 1) \<and>
    snd (list_detailed_online (Some cfg) (Some (rf_secret cfg)) s') u = None \<and>
    status = OK \<and> closed_clients s'' = closed_clients s"
proof -
  have "\<not> (rf_maximum_clients_per_user cfg \<noteq> 0 \<and> rf_maximum_clients_per_user cfg < n)"
    using assms(4) by auto
  then have s': "r = Returns ()" "s' = s\<lparr>online_counter := (online_counter s)(u \<mapsto> n + 1),
      online_clients := (online_clients s)(u \<mapsto> [])\<rparr>"
    using assms(1-3,5) by (auto simp: restful_client_connect_def upsert_ok_def Let_def)
  with assms(6) show ?thesis
    by (auto simp: kick_def rejected_def list_detailed_online_def kick_user_closed)
qed

theorem first_client_cannot_be_kicked_witness:
  "let cfg = \<lparr>rf_secret = ''s'', rf_maximum_clients_per_user = 0\<rparr>;
     s = snd (restful_client_connect map_upsert (Some cfg) (7 :: nat) \<lparr>qc_stable_id = 1, qc_remote_address = 10\<rparr>
       (restful_start [7 \<mapsto> ()]))
   in closed_clients (snd (kick (Some cfg) (Some ''s'') [7] s)) = []"
proof -
  let ?cfg = "\<lparr>rf_secret = ''s'', rf_maximum_clients_per_user = 0\<rparr>"
  have "online_clients (restful_start [7 \<mapsto> ()]) (7 :: nat) = None"
    and "online_counter (restful_start [7 \<mapsto> ()]) (7 :: nat) = Some 0"
    by (simp_all add: restful_start_def)
  from first_client_cannot_be_kicked [OF map_upsert_ok this _ surjective_pairing surjective_pairing,
      of ?cfg "\<lparr>qc_stable_id = 1, qc_remote_address = 10\<rparr>"]
  show ?thesis by (simp add: Let_def restful_start_def)
qed

text \<open>
  The bearer token. With a secret configured, a request with another token is refused and
  changes nothing; a request with no token at all is served like one with the right token.
\<close>

theorem missing_token_is_served:
  assumes "rf_secret cfg \<noteq> []" and "tok \<noteq> rf_secret cfg"
  shows "kick (Some cfg) (Some tok) us s = (UNAUTHORIZED, s) \<and>
    reset_traffic (Some cfg) (Some tok) s = ((UNAUTHORIZED, Map.empty), s) \<and>
    kick (Some cfg) None us s = kick (Some cfg) (Some (rf_secret cfg)) us s \<and>
    reset_traffic (Some cfg) None s = reset_traffic (Some cfg) (Some (rf_secret cfg)) s \<and>
    list_online (Some cfg) None s = list_online (Some cfg) (Some (rf_secret cfg)) s \<and>
    list_detailed_online (Some cfg) None s = list_detailed_online (Some cfg) (Some (rf_secret cfg)) s \<and>
    list_traffic (Some cfg) None s = list_traffic (Some cfg) (Some (rf_secret cfg)) s \<and>
    fst (kick (Some cfg) None us s) = OK"
  using assms by (auto simp: kick_def reset_traffic_def list_online_def list_detailed_online_def
      list_traffic_def rejected_def)

theorem missing_token_is_served_witness:
  "fst (kick (Some \<lparr>rf_secret = ''s'', rf_maximum_clients_per_user = 0\<rparr>) None [7 :: nat]
      (restful_start [7 \<mapsto> ()])) = OK"
proof -
  let ?cfg = "\<lparr>rf_secret = ''s'', rf_maximum_clients_per_user = 0\<rparr>"
  have "rf_secret ?cfg \<noteq> []" and "''x'' \<noteq> rf_secret ?cfg" by simp_all
  from missing_token_is_served [OF this] show ?thesis by blast
qed

text \<open>
  A connection that is closed before its authentication timeout is disconnected before it is
  connected: the counter of its user wraps below zero, the user is listed with \<open>2 ^ 64 - 1\<close>
  clients, and under any limit the next client is turned away.
\<close>

theorem early_disconnect_wraps_counter:
  assumes "online_counter s u = Some 0"
    and "rf_maximum_clients_per_user cfg \<noteq> 0" and "rf_maximum_clients_per_user cfg < - 1"
    and "restful_client_disconnect (Some cfg) u conn s = (r, s1)"
    and "restful_client_connect ups (Some cfg) u conn' s1 = (r', s2)"
  shows "snd (list_online (Some cfg) (Some (rf_secret cfg)) s1) u = Some (- 1) \<and>
    closed_clients s2 = closed_clients s @ [(qc_stable_id conn', 6001)] \<and>
    online_counter s2 u = Some 0"
proof -
  have "online_counter s1 u = Some (- 1)" "closed_clients s1 = closed_clients s"
    using assms(1,4) by (auto simp: restful_client_disconnect_def Let_def split: option.splits)
  with assms(2,3,5) show ?thesis
    by (auto simp: list_online_def rejected_def restful_client_connect_def close_client_def Let_def)
qed

theorem early_disconnect_wraps_counter_witness:
  "let cfg = \<lparr>rf_secret = ''s'', rf_maximum_clients_per_user = 5\<rparr>;
     c = \<lparr>qc_stable_id = 1, qc_remote_address = 10\<rparr>; d = \<lparr>qc_stable_id = 2, qc_remote_address = 10\<rparr>;
     s1 = snd (restful_client_disconnect (Some cfg) (7 :: nat) c (restful_start [7 \<mapsto> ()]));
     s2 = snd (restful_client_connect map_upsert (Some cfg) 7 d s1)
   in closed_clients s2 = [(2, 6001)]"
proof -
  let ?cfg = "\<lparr>rf_secret = ''s'', rf_maximum_clients_per_user = 5\<rparr>"
  have "online_counter (restful_start [7 \<mapsto> ()]) (7 :: nat) = Some 0" by (simp add: restful_start_def)
  note wraps = early_disconnect_wraps_counter [OF this _ _ surjective_pairing surjective_pairing]
  have "closed_clients (restful_start [7 \<mapsto> ()] :: nat restful) = []" by (simp add: restful_start_def)
  with wraps [where cfg = ?cfg and ups = map_upsert
      and conn' = "\<lparr>qc_stable_id = 2, qc_remote_address = 10\<rparr>"
      and conn = "\<lparr>qc_stable_id = 1, qc_remote_address = 10\<rparr>"]
  show ?thesis by (simp add: Let_def)
qed

end
