(* ===== verification/Server_Conn.thy ===== *)
theory Server_Conn
  imports Server_Udp Server_Restful
begin

text \<open>
  A connection of the server: \<^verbatim>\<open>tuic-server/src/connection/mod.rs\<close> and \<open>handle_stream.rs\<close>, and the
  tasks on UDP packets of \<open>handle_task.rs\<close>. A handler runs as one step on the state, or as the parts between which it
  may wait, with the answers it awaits (timers, sockets, lookups, the transport) as parameters; \<open>None\<close> as its result
  says that it still waits.
\<close>

section \<open>The connection\<close>

datatype udp_relay_mode = Native | Quic

definition ERROR_CODE :: nat where
  "ERROR_CODE = 6000"

definition INIT_CONCURRENT_STREAMS :: u32 where
  "INIT_CONCURRENT_STREAMS = 32"

text \<open>The reason of a close: a text, or a text that ends with the display of an error.\<close>

datatype ('u, 'm) close_reason = Reason string | ReasonWith string "('u, 'm) server_error"

text \<open>
  What a connection shares with its clones. \<open>sc_quic\<close> is the state of the QUIC connection, of which
  three calls are kept apart: \<open>sc_closed\<close> is its \<open>close_reason\<close>, \<open>sc_closes\<close> lists the \<open>close\<close> calls
  and \<open>sc_quic_max_uni\<close>, \<open>sc_quic_max_bi\<close> are the stream limits it was told. \<open>sc_sent\<close> lists the packets
  handed to the sockets of UDP sessions, by number of the session. \<open>sc_restful\<close> are the statics of
  the RESTful interface.
\<close>

record ('u, 'q, 'm) server_conn =
  sc_quic :: 'q
  sc_closed :: "connection_error option"
  sc_closes :: "(nat \<times> ('u, 'm) close_reason) list"
  sc_quic_max_uni :: u32
  sc_quic_max_bi :: u32
  sc_model :: connection
  sc_auth :: "'u authenticated"
  sc_udp_sessions :: udp_relays
  sc_sent :: "(nat \<times> bytes \<times> socket_addr) list"
  sc_udp_relay_mode :: "udp_relay_mode option"
  sc_uni_stream_cnt :: nat
  sc_bi_stream_cnt :: nat
  sc_max_uni_streams :: u32
  sc_max_bi_streams :: u32
  sc_restful :: "'u restful"

definition server_conn_new :: "'u \<Rightarrow> 'q \<Rightarrow> 'u restful \<Rightarrow> ('u, 'q, 'm) server_conn" where
  "server_conn_new nil q rest =
     \<lparr>sc_quic = q, sc_closed = None, sc_closes = [],
      sc_quic_max_uni = INIT_CONCURRENT_STREAMS, sc_quic_max_bi = INIT_CONCURRENT_STREAMS,
      sc_model = connection_new, sc_auth = authenticated_new nil, sc_udp_sessions = udp_relays_new,
      sc_sent = [], sc_udp_relay_mode = None, sc_uni_stream_cnt = 0, sc_bi_stream_cnt = 0,
      sc_max_uni_streams = INIT_CONCURRENT_STREAMS, sc_max_bi_streams = INIT_CONCURRENT_STREAMS,
      sc_restful = rest\<rparr>"

text \<open>
  The configuration a connection reads, the libraries, and the build: whether it checks overflows and
  which log levels are on (the arguments of a log line are only computed when its level is).
\<close>

record ('u, 'q, 'e, 's, 'r) app =
  overflow_checks :: bool
  logs_info :: bool
  logs_warn :: bool
  cfg_users :: "'u \<Rightarrow> bytes option"
  cfg_restful :: "restful_config option"
  cfg_udp_relay_ipv6 :: bool
  cfg_gc_lifetime :: nat
  lib_uuid :: "'u uuid_lib"
  lib_quic :: "('q, 'e, 's, 'r) quic"
  lib_read :: "nat \<Rightarrow> ('r, io_error, bytes) reader"
  lib_upsert :: "'u upsert"
  lib_sockets :: sockets
  lib_lookup_host :: "bytes \<Rightarrow> u16 \<Rightarrow> io_error + socket_addr list"
  lib_send_to :: "bytes \<Rightarrow> socket_addr \<Rightarrow> io_error + nat"

text \<open>\<open>Connection::close\<close>. A close reason that is there stays.\<close>

definition conn_close :: "('u, 'm) close_reason \<Rightarrow> ('u, 'q, 'm) server_conn \<Rightarrow> ('u, 'q, 'm) server_conn" where
  "conn_close reason c =
     c\<lparr>sc_closes := sc_closes c @ [(ERROR_CODE, reason)],
       sc_closed := (case sc_closed c of None \<Rightarrow> Some ConnLocallyClosed | Some e \<Rightarrow> Some e)\<rparr>"

definition is_closed :: "('u, 'q, 'm) server_conn \<Rightarrow> bool" where
  "is_closed c \<longleftrightarrow> sc_closed c \<noteq> None"

definition conn_authenticate ::
    "('u, 'q, 'e, 's, 'r) app \<Rightarrow> 'u authenticate_rx \<Rightarrow> ('u, 'q, 'm) server_conn \<Rightarrow>
      (('u, 'm) server_error + unit) \<times> ('u, 'q, 'm) server_conn" where
  "conn_authenticate A auth c =
     (case server_authenticate (lib_uuid A) (cfg_users A)
        (keying_material_exporter (lib_quic A) (sc_quic c)) auth (sc_auth c) of
      (r, a) \<Rightarrow> (r, c\<lparr>sc_auth := a\<rparr>))"

text \<open>\<open>timeout_authenticate\<close> after its timer, and one turn of \<open>collect_garbage\<close> (whether it ends).\<close>

definition conn_timeout_authenticate ::
    "('u, 'q, 'e, 's, 'r) app \<Rightarrow> quic_client \<Rightarrow> ('u, 'q, 'm) server_conn \<Rightarrow>
      unit outcome \<times> ('u, 'q, 'm) server_conn" where
  "conn_timeout_authenticate A inner c = (case timeout_authenticate (sc_auth c) of
     Some uuid \<Rightarrow> (case restful_client_connect (lib_upsert A) (cfg_restful A) uuid inner (sc_restful c) of
       (r, rest) \<Rightarrow> (r, c\<lparr>sc_restful := rest\<rparr>))
   | None \<Rightarrow> (Returns (), conn_close (Reason ''Authentication error'') c))"

definition conn_collect_garbage ::
    "('u, 'q, 'e, 's, 'r) app \<Rightarrow> nat \<Rightarrow> quic_client \<Rightarrow> ('u, 'q, 'm) server_conn \<Rightarrow>
      bool outcome \<times> ('u, 'q, 'm) server_conn" where
  "conn_collect_garbage A now inner c =
     (if is_closed c then (case authenticated_get (sc_auth c) of
        Some uuid \<Rightarrow> (case restful_client_disconnect (cfg_restful A) uuid inner (sc_restful c) of
          (r, rest) \<Rightarrow> (outcome_bind r (\<lambda>_. Returns True), c\<lparr>sc_restful := rest\<rparr>))
      | None \<Rightarrow> (Returns True, c))
      else (Returns False, c\<lparr>sc_model := connection_collect_garbage now (cfg_gc_lifetime A) (sc_model c)\<rparr>))"

section \<open>Accepting streams and datagrams\<close>

datatype ('s, 'r) incoming =
    IncomingUni "connection_error + 'r"
  | IncomingBi "connection_error + 's \<times> 'r"
  | IncomingDatagram "connection_error + bytes"

datatype ('s, 'r) spawned = SpawnUni 'r | SpawnBi 's 'r | SpawnDatagram bytes

text \<open>
  What \<open>select!\<close> accepted is handed to a handler that is spawned, a stream with a register of its
  counter. An error returns before the register is made.
\<close>

definition handle_incoming ::
    "('s, 'r) incoming \<Rightarrow> ('u, 'q, 'm) server_conn \<Rightarrow>
      (('u, 'm) server_error + ('s, 'r) spawned) \<times> ('u, 'q, 'm) server_conn" where
  "handle_incoming inc c = (case inc of
     IncomingUni res \<Rightarrow> (case res of Inl e \<Rightarrow> (Inl (server_error_from e), c)
       | Inr recv \<Rightarrow> (Inr (SpawnUni recv), c\<lparr>sc_uni_stream_cnt := sc_uni_stream_cnt c + 1\<rparr>))
   | IncomingBi res \<Rightarrow> (case res of Inl e \<Rightarrow> (Inl (server_error_from e), c)
       | Inr (send, recv) \<Rightarrow> (Inr (SpawnBi send recv), c\<lparr>sc_bi_stream_cnt := sc_bi_stream_cnt c + 1\<rparr>))
   | IncomingDatagram res \<Rightarrow> (case res of Inl e \<Rightarrow> (Inl (server_error_from e), c)
       | Inr dg \<Rightarrow> (Inr (SpawnDatagram dg), c)))"

text \<open>The limit doubles when the counter, as a \<open>u32\<close>, is equal to it.\<close>

definition grow_uni_streams ::
    "('u, 'q, 'e, 's, 'r) app \<Rightarrow> ('u, 'q, 'm) server_conn \<Rightarrow> unit outcome \<times> ('u, 'q, 'm) server_conn" where
  "grow_uni_streams A c =
     (if (of_nat (sc_uni_stream_cnt c) :: u32) = sc_max_uni_streams c then
        (case u32_double (overflow_checks A) (sc_max_uni_streams c) of
           Panics p \<Rightarrow> (Panics p, c)
         | Returns n \<Rightarrow> (Returns (), c\<lparr>sc_max_uni_streams := n, sc_quic_max_uni := n\<rparr>))
      else (Returns (), c))"

definition grow_bi_streams ::
    "('u, 'q, 'e, 's, 'r) app \<Rightarrow> ('u, 'q, 'm) server_conn \<Rightarrow> unit outcome \<times> ('u, 'q, 'm) server_conn" where
  "grow_bi_streams A c =
     (if (of_nat (sc_bi_stream_cnt c) :: u32) = sc_max_bi_streams c then
        (case u32_double (overflow_checks A) (sc_max_bi_streams c) of
           Panics p \<Rightarrow> (Panics p, c)
         | Returns n \<Rightarrow> (Returns (), c\<lparr>sc_max_bi_streams := n, sc_quic_max_bi := n\<rparr>))
      else (Returns (), c))"

text \<open>The registers that the handlers hold are dropped when they end.\<close>

definition drop_uni_register :: "('u, 'q, 'm) server_conn \<Rightarrow> ('u, 'q, 'm) server_conn" where
  "drop_uni_register c = c\<lparr>sc_uni_stream_cnt := sc_uni_stream_cnt c - 1\<rparr>"

definition drop_bi_register :: "('u, 'q, 'm) server_conn \<Rightarrow> ('u, 'q, 'm) server_conn" where
  "drop_bi_register c = c\<lparr>sc_bi_stream_cnt := sc_bi_stream_cnt c - 1\<rparr>"

section \<open>Tasks on UDP packets\<close>

text \<open>A log line that shows \<open>frag_id + 1\<close> on \<open>u8\<close>.\<close>

definition log_fragment :: "bool \<Rightarrow> bool \<Rightarrow> u8 \<Rightarrow> unit outcome" where
  "log_fragment oc enabled frag_id =
     (if enabled \<and> oc \<and> frag_id = 255 then Panics ArithmeticOverflow else Returns ())"

definition resolve_dns ::
    "(bytes \<Rightarrow> u16 \<Rightarrow> io_error + socket_addr list) \<Rightarrow> address \<Rightarrow> io_error + socket_addr list" where
  "resolve_dns lookup_host addr = (case addr of
     NoAddress \<Rightarrow> Inl (InvalidInput ''empty address'')
   | DomainAddress domain port \<Rightarrow> lookup_host domain port
   | SocketAddress addr \<Rightarrow> Inr [addr])"

text \<open>
  \<open>handle_packet\<close> in the parts between which it may wait, with no timer, while others change the connection: before the
  payload is read, which of a stream is still to arrive; from there to the lookup of the target's name, with
  what is then kept, the number of the session, the packet and the target; and from the answer of the lookup on. An
  error of the inner block \<open>process\<close> is only logged.
\<close>

definition packet_begin ::
    "('u, 'q, 'e, 's, 'r) app \<Rightarrow> packet_rx \<Rightarrow> udp_relay_mode \<Rightarrow> ('u, 'q, 'm) server_conn \<Rightarrow>
      unit outcome \<times> ('u, 'q, 'm) server_conn" where
  "packet_begin A pkt mode c =
     (case log_fragment (overflow_checks A) (logs_info A) (prx_frag_id pkt) of
        Panics p \<Rightarrow> (Panics p, c)
      | Returns _ \<Rightarrow> (Returns (), c\<lparr>sc_udp_relay_mode := Some mode\<rparr>))"

definition packet_received ::
    "('u, 'q, 'e, 's, 'r) app \<Rightarrow> nat \<Rightarrow> packet_rx \<Rightarrow> 'r packet_source \<Rightarrow>
      ('u, 'q, ('e, 's, 'r) quinn_error) server_conn \<Rightarrow>
      (unit outcome + nat \<times> bytes \<times> address) \<times> ('u, 'q, ('e, 's, 'r) quinn_error) server_conn" where
  "packet_received A now pkt src c =
     (case (packet_accept (overflow_checks A) (lib_read A) now pkt src (sc_model c) ::
            ('e, 's, 'r) receipt \<times> connection) of
        (Panics p, model) \<Rightarrow> (Inl (Panics p), c\<lparr>sc_model := model\<rparr>)
      | (Returns (Inl e), model) \<Rightarrow>
          (Inl (log_fragment (overflow_checks A) (logs_warn A) (prx_frag_id pkt)), c\<lparr>sc_model := model\<rparr>)
      | (Returns (Inr None), model) \<Rightarrow> (Inl (Returns ()), c\<lparr>sc_model := model\<rparr>)
      | (Returns (Inr (Some (pkt, addr, assoc_id))), model) \<Rightarrow>
          (case (relay_for (lib_sockets A) (cfg_udp_relay_ipv6 A) assoc_id (sc_udp_sessions c) ::
              (('u, ('e, 's, 'r) quinn_error) server_error + nat) \<times> udp_relays) of
             (Inl e, udp) \<Rightarrow> (Inl (Returns ()), c\<lparr>sc_model := model, sc_udp_sessions := udp\<rparr>)
           | (Inr session, udp) \<Rightarrow> (Inr (session, pkt, addr), c\<lparr>sc_model := model, sc_udp_sessions := udp\<rparr>)))"

definition packet_resolved ::
    "('u, 'q, 'e, 's, 'r) app \<Rightarrow> nat \<Rightarrow> bytes \<Rightarrow> address \<Rightarrow> ('u, 'q, 'm) server_conn \<Rightarrow>
      (('u, 'm) server_error + bool) \<times> ('u, 'q, 'm) server_conn" where
  "packet_resolved A session pkt addr c = (case resolve_dns (lib_lookup_host A) addr of
     Inl e \<Rightarrow> (Inl (ServerIo e), c)
   | Inr [] \<Rightarrow> (Inl (ServerIo (NotFound ''no address resolved'')), c)
   | Inr (socket_addr # _) \<Rightarrow>
     (case authenticated_get (sc_auth c) of
        None \<Rightarrow> (Inl (ServerOther ''Unexpected autherization state''), c)
      | Some uuid \<Rightarrow>
        (let c = c\<lparr>sc_restful := traffic_tx (cfg_restful A) uuid (of_nat (length pkt)) (sc_restful c)\<rparr> in
     (case relays (sc_udp_sessions c) session of
        None \<Rightarrow> (Inl (ServerOther ''UdpSession dropped already''), c)
      | Some r \<Rightarrow>
     (case relay_send (lib_send_to A) pkt socket_addr r of
        Inl e \<Rightarrow> (Inl e, c)
      | Inr v6 \<Rightarrow> (Inr v6, c\<lparr>sc_sent := sc_sent c @ [(session, pkt, socket_addr)]\<rparr>))))))"

text \<open>The inner block \<open>process\<close> of \<open>handle_packet\<close>, an assembled packet to its target, when the lookup does not wait.\<close>

definition process_packet ::
    "('u, 'q, 'e, 's, 'r) app \<Rightarrow> bytes \<Rightarrow> address \<Rightarrow> u16 \<Rightarrow> ('u, 'q, 'm) server_conn \<Rightarrow>
      (('u, 'm) server_error + bool) \<times> ('u, 'q, 'm) server_conn" where
  "process_packet A pkt addr assoc_id c =
     (case relay_for (lib_sockets A) (cfg_udp_relay_ipv6 A) assoc_id (sc_udp_sessions c) of
        (Inl e, udp) \<Rightarrow> (Inl e, c\<lparr>sc_udp_sessions := udp\<rparr>)
      | (Inr session, udp) \<Rightarrow> packet_resolved A session pkt addr (c\<lparr>sc_udp_sessions := udp\<rparr>))"

text \<open>\<open>handle_packet\<close> when neither the payload nor the lookup waits.\<close>

definition handle_packet ::
    "('u, 'q, 'e, 's, 'r) app \<Rightarrow> nat \<Rightarrow> packet_rx \<Rightarrow> 'r packet_source \<Rightarrow> udp_relay_mode \<Rightarrow>
      ('u, 'q, ('e, 's, 'r) quinn_error) server_conn \<Rightarrow>
      unit outcome \<times> ('u, 'q, ('e, 's, 'r) quinn_error) server_conn" where
  "handle_packet A now pkt src mode c = (case packet_begin A pkt mode c of
     (Panics p, c) \<Rightarrow> (Panics p, c)
   | (Returns _, c) \<Rightarrow> (case packet_received A now pkt src c of
       (Inl res, c) \<Rightarrow> (res, c)
     | (Inr (session, pkt, addr), c) \<Rightarrow> (Returns (), snd (packet_resolved A session pkt addr c))))"

text \<open>The two as one text, as the source has them.\<close>

lemma process_packet_unfold:
  "process_packet A pkt addr assoc_id c =
     (case relay_for (lib_sockets A) (cfg_udp_relay_ipv6 A) assoc_id (sc_udp_sessions c) of
        (Inl e, udp) \<Rightarrow> (Inl e, c\<lparr>sc_udp_sessions := udp\<rparr>)
      | (Inr session, udp) \<Rightarrow> (let c = c\<lparr>sc_udp_sessions := udp\<rparr> in
     (case resolve_dns (lib_lookup_host A) addr of
        Inl e \<Rightarrow> (Inl (ServerIo e), c)
      | Inr [] \<Rightarrow> (Inl (ServerIo (NotFound ''no address resolved'')), c)
      | Inr (socket_addr # _) \<Rightarrow>
     (case authenticated_get (sc_auth c) of
        None \<Rightarrow> (Inl (ServerOther ''Unexpected autherization state''), c)
      | Some uuid \<Rightarrow>
        (let c = c\<lparr>sc_restful := traffic_tx (cfg_restful A) uuid (of_nat (length pkt)) (sc_restful c)\<rparr> in
     (case relays (sc_udp_sessions c) session of
        None \<Rightarrow> (Inl (ServerOther ''UdpSession dropped already''), c)
      | Some r \<Rightarrow>
     (case relay_send (lib_send_to A) pkt socket_addr r of
        Inl e \<Rightarrow> (Inl e, c)
      | Inr v6 \<Rightarrow> (Inr v6, c\<lparr>sc_sent := sc_sent c @ [(session, pkt, socket_addr)]\<rparr>))))))))"
  unfolding process_packet_def packet_resolved_def Let_def ..

lemma handle_packet_unfold:
  fixes c :: "('u, 'q, ('e, 's, 'r) quinn_error) server_conn"
  shows
  "handle_packet A now pkt src mode c =
     (case log_fragment (overflow_checks A) (logs_info A) (prx_frag_id pkt) of
        Panics p \<Rightarrow> (Panics p, c)
      | Returns _ \<Rightarrow> (let c = c\<lparr>sc_udp_relay_mode := Some mode\<rparr> in
     (case (packet_accept (overflow_checks A) (lib_read A) now pkt src (sc_model c) ::
            ('e, 's, 'r) receipt \<times> connection) of
        (Panics p, model) \<Rightarrow> (Panics p, c\<lparr>sc_model := model\<rparr>)
      | (Returns (Inl e), model) \<Rightarrow>
          (log_fragment (overflow_checks A) (logs_warn A) (prx_frag_id pkt), c\<lparr>sc_model := model\<rparr>)
      | (Returns (Inr None), model) \<Rightarrow> (Returns (), c\<lparr>sc_model := model\<rparr>)
      | (Returns (Inr (Some (pkt, addr, assoc_id))), model) \<Rightarrow>
          (Returns (), snd (process_packet A pkt addr assoc_id (c\<lparr>sc_model := model\<rparr>))))))"
proof -
  obtain res model where acc: "(packet_accept (overflow_checks A) (lib_read A) now pkt src (sc_model c) ::
      ('e, 's, 'r) receipt \<times> connection) = (res, model)" by (rule prod.exhaust)
  have made: "snd (process_packet A p a i (c\<lparr>sc_udp_relay_mode := Some mode, sc_model := model\<rparr>)) =
      (case (relay_for (lib_sockets A) (cfg_udp_relay_ipv6 A) i (sc_udp_sessions c) ::
          (('u, ('e, 's, 'r) quinn_error) server_error + nat) \<times> udp_relays) of
         (Inl e, udp) \<Rightarrow> c\<lparr>sc_udp_relay_mode := Some mode, sc_model := model, sc_udp_sessions := udp\<rparr>
       | (Inr session, udp) \<Rightarrow> snd (packet_resolved A session p a
           (c\<lparr>sc_udp_relay_mode := Some mode, sc_model := model, sc_udp_sessions := udp\<rparr>)))" for p a i
    by (simp add: process_packet_def split: prod.split sum.split)
  show ?thesis
    by (simp add: handle_packet_def packet_begin_def packet_received_def acc made
        split: outcome.split prod.split sum.split option.split)
qed

definition handle_dissociate :: "u16 \<Rightarrow> ('u, 'q, 'm) server_conn \<Rightarrow> ('u, 'q, 'm) server_conn" where
  "handle_dissociate assoc_id c = c\<lparr>sc_udp_sessions := relay_dissociate assoc_id (sc_udp_sessions c)\<rparr>"

text \<open>
  A packet from outside, for the client: both the log line and the choice unwrap the mode. An
  error of the transport is only logged.
\<close>

definition relay_packet ::
    "('u, 'q, 'e, 's, 'r) app \<Rightarrow> bytes \<Rightarrow> address \<Rightarrow> u16 \<Rightarrow>
      ('u, 'q, ('e, 's, 'r) quinn_error) server_conn \<Rightarrow>
      (string + unit) outcome \<times> ('u, 'q, ('e, 's, 'r) quinn_error) server_conn" where
  "relay_packet A pkt addr assoc_id c =
     (if logs_info A \<and> sc_udp_relay_mode c = None then (Panics UnwrapNone, c)
      else (case authenticated_get (sc_auth c) of
        None \<Rightarrow> (Returns (Inl ''Unreachable''), c)
      | Some uuid \<Rightarrow>
        (let c = c\<lparr>sc_restful := traffic_rx (cfg_restful A) uuid (of_nat (length pkt)) (sc_restful c)\<rparr> in
     (case sc_udp_relay_mode c of
        None \<Rightarrow> (Panics UnwrapNone, c)
      | Some mode \<Rightarrow>
     (case (case mode of
              Native \<Rightarrow> packet_native (overflow_checks A) (lib_uuid A) (lib_quic A) pkt addr assoc_id
                (sc_model c, sc_quic c)
            | Quic \<Rightarrow> packet_quic (overflow_checks A) (lib_uuid A) (lib_quic A) pkt addr assoc_id
                (sc_model c, sc_quic c)) of
        (res, model, q) \<Rightarrow>
          (outcome_bind res (\<lambda>_. Returns (Inr ())), c\<lparr>sc_model := model, sc_quic := q\<rparr>))))))"

end
