(* ===== verification/Server_Io.thy ===== *)
theory Server_Io
  imports Tuic_Wire
begin

text \<open>
  The TCP relay of the server: \<open>exchange_tcp\<close> of \<^verbatim>\<open>tuic-server/src/io.rs\<close>, between the client's stream
  \<open>a\<close> and the connection \<open>b\<close> to the target. Each turn of the loop takes what \<open>select!\<close> took: a read
  of one side, with its result, and, when it brought data, the result of writing them to the other.
  The definition runs on the list of these; a list that ends leaves the loop waiting.
\<close>

definition BUFFER_SIZE :: nat where
  "BUFFER_SIZE = 8 * 1024"

datatype 'e turn =
    ReadClient "'e + bytes option" "'e + unit"
  | ReadTarget "'e + bytes" "'e + unit"

text \<open>The two counters, and what was handed to the writers of the target and of the client.\<close>

record exchange =
  a2b_num :: nat
  b2a_num :: nat
  to_target :: bytes
  to_client :: bytes

definition exchange_start :: exchange where
  "exchange_start = \<lparr>a2b_num = 0, b2a_num = 0, to_target = [], to_client = []\<rparr>"

text \<open>One turn: the new state, and when it breaks the loop, the error it breaks with.\<close>

fun exchange_turn :: "'e turn \<Rightarrow> exchange \<Rightarrow> exchange \<times> 'e option option" where
  "exchange_turn (ReadClient (Inr (Some buf)) written) x =
     (x\<lparr>a2b_num := a2b_num x + length buf, to_target := to_target x @ buf\<rparr>,
      case written of Inl err \<Rightarrow> Some (Some err) | Inr _ \<Rightarrow> None)"
| "exchange_turn (ReadClient (Inr None) _) x = (x, Some None)"
| "exchange_turn (ReadClient (Inl err) _) x = (x, Some (Some err))"
| "exchange_turn (ReadTarget (Inr buf) written) x =
     (if length buf = 0 then (x, Some None)
      else (x\<lparr>b2a_num := b2a_num x + length buf, to_client := to_client x @ buf\<rparr>,
        case written of Inl err \<Rightarrow> Some (Some err) | Inr _ \<Rightarrow> None))"
| "exchange_turn (ReadTarget (Inl err) _) x = (x, Some (Some err))"

text \<open>The loop: its state, the error once it has ended, and the turns it did not take.\<close>

fun exchange_loop :: "'e turn list \<Rightarrow> exchange \<Rightarrow> exchange \<times> 'e option option \<times> 'e turn list" where
  "exchange_loop [] x = (x, None, [])"
| "exchange_loop (t # ts) x = (case exchange_turn t x of
     (x, Some last_err) \<Rightarrow> (x, Some last_err, ts)
   | (x, None) \<Rightarrow> exchange_loop ts x)"

text \<open>What \<open>exchange_tcp\<close> returns, once it does: the two counters and the error.\<close>

definition exchange_tcp :: "'e turn list \<Rightarrow> (nat \<times> nat \<times> 'e option) option" where
  "exchange_tcp ts = (case exchange_loop ts exchange_start of
     (x, ended, _) \<Rightarrow> (case ended of None \<Rightarrow> None
       | Some last_err \<Rightarrow> Some (a2b_num x, b2a_num x, last_err)))"

section \<open>What the turns read\<close>

fun from_client :: "'e turn list \<Rightarrow> bytes" where
  "from_client [] = []"
| "from_client (ReadClient (Inr (Some buf)) _ # ts) = buf @ from_client ts"
| "from_client (_ # ts) = from_client ts"

fun from_target :: "'e turn list \<Rightarrow> bytes" where
  "from_target [] = []"
| "from_target (ReadTarget (Inr buf) _ # ts) = buf @ from_target ts"
| "from_target (_ # ts) = from_target ts"

definition counters_agree :: "exchange \<Rightarrow> bool" where
  "counters_agree x \<longleftrightarrow> a2b_num x = length (to_target x) \<and> b2a_num x = length (to_client x)"

text \<open>Turns that end the loop.\<close>

fun ends_loop :: "'e turn \<Rightarrow> bool" where
  "ends_loop (ReadClient (Inr (Some _)) (Inr _)) = False"
| "ends_loop (ReadTarget (Inr buf) (Inr _)) = (buf = [])"
| "ends_loop _ = True"

lemma exchange_turn_ends: "snd (exchange_turn t x) = None \<longleftrightarrow> \<not> ends_loop t"
  by (cases "(t, x)" rule: exchange_turn.cases) (auto split: sum.split elim: ends_loop.elims)

lemma exchange_turn_forwards:
  assumes "exchange_turn t x = (x', e)"
  shows "to_target x' = to_target x @ from_client [t]" and "to_client x' = to_client x @ from_target [t]"
    and "counters_agree x \<Longrightarrow> counters_agree x'"
  using assms by (cases "(t, x)" rule: exchange_turn.cases;
      auto simp: counters_agree_def split: if_splits)+

lemma from_client_append: "from_client (ts @ us) = from_client ts @ from_client us"
  by (induction ts rule: from_client.induct) auto

lemma from_target_append: "from_target (ts @ us) = from_target ts @ from_target us"
  by (induction ts rule: from_target.induct) auto

lemma exchange_loop_forwards:
  assumes "\<forall>t \<in> set ts. \<not> ends_loop t"
  obtains x' where "\<And>us. exchange_loop (ts @ us) x = exchange_loop us x'"
    and "to_target x' = to_target x @ from_client ts" and "to_client x' = to_client x @ from_target ts"
    and "counters_agree x \<Longrightarrow> counters_agree x'"
  using assms
proof (induction ts arbitrary: x thesis)
  case Nil
  then show ?case by (intro Nil.prems(1) [of x]) auto
next
  case (Cons t ts)
  obtain x1 e where turn: "exchange_turn t x = (x1, e)" by (rule prod.exhaust)
  note fwd = exchange_turn_forwards [OF turn]
  from Cons.prems(2) turn exchange_turn_ends [of t x] have "e = None" by simp
  with turn have loop: "exchange_loop ((t # ts) @ us) x = exchange_loop (ts @ us) x1" for us by simp
  obtain x2 where "\<And>us. exchange_loop (ts @ us) x1 = exchange_loop us x2"
    "to_target x2 = to_target x1 @ from_client ts" "to_client x2 = to_client x1 @ from_target ts"
    "counters_agree x1 \<Longrightarrow> counters_agree x2"
    using Cons.IH [of x1] Cons.prems(2) by auto
  with loop fwd show ?case
    using from_client_append [of "[t]" ts] from_target_append [of "[t]" ts]
    by (intro Cons.prems(1) [of x2]) simp_all
qed

text \<open>The error the loop ends with at a turn that ends it.\<close>

fun turn_error :: "'e turn \<Rightarrow> 'e option" where
  "turn_error (ReadClient (Inl err) _) = Some err"
| "turn_error (ReadClient (Inr (Some _)) (Inl err)) = Some err"
| "turn_error (ReadTarget (Inl err) _) = Some err"
| "turn_error (ReadTarget (Inr (_ # _)) (Inl err)) = Some err"
| "turn_error _ = None"

lemma exchange_turn_error: "ends_loop t \<Longrightarrow> snd (exchange_turn t x) = Some (turn_error t)"
  by (cases t rule: turn_error.cases) (auto elim: ends_loop.elims)

lemma exchange_loop_outcome:
  assumes "\<forall>t \<in> set ts. \<not> ends_loop t" and "ends_loop t"
  shows "exchange_loop (ts @ t # rest) exchange_start =
    (\<lparr>a2b_num = length (from_client (ts @ [t])), b2a_num = length (from_target (ts @ [t])),
      to_target = from_client (ts @ [t]), to_client = from_target (ts @ [t])\<rparr>, Some (turn_error t), rest)"
proof -
  obtain x where loop: "\<And>us. exchange_loop (ts @ us) exchange_start = exchange_loop us x"
    and x: "to_target x = from_client ts" "to_client x = from_target ts" "counters_agree x"
    by (rule exchange_loop_forwards [OF assms(1), of exchange_start])
      (simp add: exchange_start_def counters_agree_def)
  obtain x' e where turn: "exchange_turn t x = (x', e)" by (rule prod.exhaust)
  have "e = Some (turn_error t)" using exchange_turn_error [OF assms(2), of x] turn by simp
  moreover have "x' = \<lparr>a2b_num = length (from_client (ts @ [t])), b2a_num = length (from_target (ts @ [t])),
      to_target = from_client (ts @ [t]), to_client = from_target (ts @ [t])\<rparr>"
    using exchange_turn_forwards [OF turn] x
    by (simp add: counters_agree_def from_client_append from_target_append)
  ultimately show ?thesis using loop turn by simp
qed

section \<open>Properties\<close>

text \<open>
  C24: the relay hands each side exactly the bytes it read from the other, in order, up to the first
  turn that ends the loop: an end of stream, or an error of a read or of a write. Then it returns,
  with the numbers of these bytes and the error. Nothing that comes later is read.
\<close>

theorem exchange_forwards_both_ways:
  assumes "\<forall>t \<in> set ts. \<not> ends_loop t" and "ends_loop t"
  shows "exchange_tcp (ts @ t # rest) =
      Some (length (from_client (ts @ [t])), length (from_target (ts @ [t])), turn_error t) \<and>
    to_target (fst (exchange_loop (ts @ t # rest) exchange_start)) = from_client (ts @ [t]) \<and>
    to_client (fst (exchange_loop (ts @ t # rest) exchange_start)) = from_target (ts @ [t])"
  by (simp add: exchange_tcp_def exchange_loop_outcome [OF assms])

theorem exchange_forwards_both_ways_witness:
  "exchange_tcp [ReadClient (Inr (Some [1, 2])) (Inr ()), ReadTarget (Inr [3]) (Inr ()),
      ReadTarget (Inr [4, 5]) (Inl ''reset''), ReadClient (Inr (Some [6])) (Inr ())]
    = Some (2, 3, Some ''reset'')"
proof -
  let ?ts = "[ReadClient (Inr (Some [1, 2])) (Inr ()), ReadTarget (Inr [3]) (Inr ())] :: string turn list"
  let ?t = "ReadTarget (Inr [4, 5]) (Inl ''reset'') :: string turn"
  have "\<forall>t \<in> set ?ts. \<not> ends_loop t" "ends_loop ?t" by simp_all
  from exchange_forwards_both_ways [OF this, of "[ReadClient (Inr (Some [6])) (Inr ())]"]
  show ?thesis by simp
qed

text \<open>
  A client that ends its side of the stream ends the relay in both directions: the answer the
  target still sends is neither read nor forwarded, and no error is reported.
\<close>

theorem half_close_drops_answer:
  assumes "\<forall>t \<in> set ts. \<not> ends_loop t"
  shows "exchange_tcp (ts @ ReadClient (Inr None) w # map (\<lambda>buf. ReadTarget (Inr buf) (Inr ())) answer) =
      Some (length (from_client ts), length (from_target ts), None) \<and>
    to_client (fst (exchange_loop (ts @ ReadClient (Inr None) w #
      map (\<lambda>buf. ReadTarget (Inr buf) (Inr ())) answer) exchange_start)) = from_target ts"
  by (simp add: exchange_tcp_def exchange_loop_outcome [OF assms] from_client_append from_target_append)

theorem half_close_drops_answer_witness:
  "exchange_tcp [ReadClient (Inr (Some [1, 2])) (Inr ()), ReadClient (Inr None) (Inr ()),
      ReadTarget (Inr [3]) (Inr ())] = (Some (2, 0, None) :: (nat \<times> nat \<times> string option) option)"
proof -
  have "\<forall>t \<in> set [ReadClient (Inr (Some [1, 2])) (Inr ()) :: string turn]. \<not> ends_loop t" by simp
  from half_close_drops_answer [OF this, of "Inr ()" "[[3]]"] show ?thesis by simp
qed

end
