(* ===== verification/Server_Stream.thy ===== *)
theory Server_Stream
  imports Server_Conn Server_Io
begin

text \<open>
  The handlers of the server's incoming streams and datagrams, \<^verbatim>\<open>tuic-server/src/connection/handle_stream.rs\<close>,
  and \<open>handle_connect\<close> of \<open>handle_task.rs\<close>, which relays a TCP stream. Each handler grows the stream
  limit, parses and checks its task, and runs it; an error of the first two closes the connection.
\<close>

section \<open>Relaying a TCP stream\<close>

text \<open>
  What connecting to an address answers, and what the relay's \<open>select!\<close> takes on the connection. An address that
  never answers leaves the handler waiting: \<open>Dialling\<close>, below.
\<close>

record 't dialer =
  tcp_connect :: "socket_addr \<Rightarrow> io_error + 't"
  set_nodelay :: "'t \<Rightarrow> io_error + unit"
  tcp_turns :: "'t \<Rightarrow> io_error turn list"

datatype 't dialled = NodelayFailed io_error | Dialled 't | NotDialled "io_error option"

text \<open>The loop over the addresses: the first that connects, or the last error.\<close>

fun dial :: "'t dialer \<Rightarrow> socket_addr list \<Rightarrow> io_error option \<Rightarrow> 't dialled" where
  "dial D [] last_err = NotDialled last_err"
| "dial D (addr # addrs) last_err = (case tcp_connect D addr of
     Inr s \<Rightarrow> (case set_nodelay D s of Inl e \<Rightarrow> NodelayFailed e | Inr _ \<Rightarrow> Dialled s)
   | Inl err \<Rightarrow> dial D addrs (Some err))"

datatype stream_call = ResetClient nat | FinishClient | ShutdownClient | ShutdownTarget

datatype connect_error = ConnectIo io_error | UnexpectedAuth

text \<open>
  The calls that end the streams, and the error that is logged, when the lookup and every address that is dialled
  answer. \<open>None\<close> while bytes are exchanged; when it ends, the task drops the command with its register.
\<close>

definition handle_connect ::
    "('u, 'q, 'e, 's, 'r) app \<Rightarrow> 't dialer \<Rightarrow> connect_rx \<Rightarrow> ('u, 'q, 'm) server_conn \<Rightarrow>
      (stream_call list \<times> connect_error option) option \<times> ('u, 'q, 'm) server_conn" where
  "handle_connect A D conn c =
     (let dropped = c\<lparr>sc_model := connection_drop_connect (sc_model c)\<rparr> in
     (case (case resolve_dns (lib_lookup_host A) (crx_addr conn) of
              Inr addrs \<Rightarrow> dial D addrs None
            | Inl err \<Rightarrow> NotDialled (Some err)) of
        NodelayFailed e \<Rightarrow> (Some ([], Some (ConnectIo e)), dropped)
      | NotDialled last_err \<Rightarrow> (Some ([ShutdownClient],
          Some (ConnectIo (case last_err of Some err \<Rightarrow> err | None \<Rightarrow> NotFound ''no address resolved''))),
          dropped)
      | Dialled stream \<Rightarrow> (case exchange_tcp (tcp_turns D stream) of
          None \<Rightarrow> (None, c)
        | Some (tx, rx, err) \<Rightarrow>
            (let calls = [if err \<noteq> None then ResetClient ERROR_CODE else FinishClient, ShutdownTarget] in
            (case authenticated_get (sc_auth c) of
               None \<Rightarrow> (Some (calls, Some UnexpectedAuth), dropped)
             | Some uuid \<Rightarrow> (Some (calls, map_option ConnectIo err),
                 dropped\<lparr>sc_restful := traffic_rx (cfg_restful A) uuid (of_nat rx)
                   (traffic_tx (cfg_restful A) uuid (of_nat tx) (sc_restful c))\<rparr>))))))"

text \<open>
  The same handler in the parts between which it may wait, with no timer, for the lookup, for the answer of an address, and for
  the end of the exchange. One part takes one such answer; the result is \<open>None\<close> while the exchange goes on, and
  otherwise what the handler waits for next, or how it ended.
\<close>

datatype 't connecting =
    LookingUp connect_rx
  | Dialling connect_rx "socket_addr list" "io_error option"
  | Exchanging connect_rx 't

fun connect_step ::
    "('u, 'q, 'e, 's, 'r) app \<Rightarrow> 't dialer \<Rightarrow> 't connecting \<Rightarrow> ('u, 'q, 'm) server_conn \<Rightarrow>
      ((stream_call list \<times> connect_error option) + 't connecting) option \<times> ('u, 'q, 'm) server_conn" where
  "connect_step A D (LookingUp conn) c =
     (Some (Inr (case resolve_dns (lib_lookup_host A) (crx_addr conn) of
        Inr addrs \<Rightarrow> Dialling conn addrs None
      | Inl err \<Rightarrow> Dialling conn [] (Some err))), c)"
| "connect_step A D (Dialling conn [] last_err) c =
     (Some (Inl ([ShutdownClient],
        Some (ConnectIo (case last_err of Some err \<Rightarrow> err | None \<Rightarrow> NotFound ''no address resolved'')))),
      c\<lparr>sc_model := connection_drop_connect (sc_model c)\<rparr>)"
| "connect_step A D (Dialling conn (addr # addrs) last_err) c = (case tcp_connect D addr of
     Inr s \<Rightarrow> (case set_nodelay D s of
         Inl e \<Rightarrow> (Some (Inl ([], Some (ConnectIo e))), c\<lparr>sc_model := connection_drop_connect (sc_model c)\<rparr>)
       | Inr _ \<Rightarrow> (Some (Inr (Exchanging conn s)), c))
   | Inl err \<Rightarrow> (Some (Inr (Dialling conn addrs (Some err))), c))"
| "connect_step A D (Exchanging conn stream) c =
     (let dropped = c\<lparr>sc_model := connection_drop_connect (sc_model c)\<rparr> in
     (case exchange_tcp (tcp_turns D stream) of
        None \<Rightarrow> (None, c)
      | Some (tx, rx, err) \<Rightarrow>
          (let calls = [if err \<noteq> None then ResetClient ERROR_CODE else FinishClient, ShutdownTarget] in
          (case authenticated_get (sc_auth c) of
             None \<Rightarrow> (Some (Inl (calls, Some UnexpectedAuth)), dropped)
           | Some uuid \<Rightarrow> (Some (Inl (calls, map_option ConnectIo err)),
               dropped\<lparr>sc_restful := traffic_rx (cfg_restful A) uuid (of_nat rx)
                 (traffic_tx (cfg_restful A) uuid (of_nat tx) (sc_restful c))\<rparr>)))))"

text \<open>At most \<open>n\<close> parts, one right after the other.\<close>

fun connect_run ::
    "('u, 'q, 'e, 's, 'r) app \<Rightarrow> 't dialer \<Rightarrow> nat \<Rightarrow> 't connecting \<Rightarrow> ('u, 'q, 'm) server_conn \<Rightarrow>
      (stream_call list \<times> connect_error option) option \<times> ('u, 'q, 'm) server_conn" where
  "connect_run A D 0 h c = (None, c)"
| "connect_run A D (Suc n) h c = (case connect_step A D h c of
     (None, c) \<Rightarrow> (None, c)
   | (Some (Inl ended), c) \<Rightarrow> (Some ended, c)
   | (Some (Inr h), c) \<Rightarrow> connect_run A D n h c)"

lemma connect_run_dialling:
  "length addrs + 2 \<le> n \<Longrightarrow> connect_run A D n (Dialling conn addrs last_err) c =
     (case dial D addrs last_err of
        NodelayFailed e \<Rightarrow> (Some ([], Some (ConnectIo e)), c\<lparr>sc_model := connection_drop_connect (sc_model c)\<rparr>)
      | NotDialled last_err \<Rightarrow> (Some ([ShutdownClient],
          Some (ConnectIo (case last_err of Some err \<Rightarrow> err | None \<Rightarrow> NotFound ''no address resolved''))),
          c\<lparr>sc_model := connection_drop_connect (sc_model c)\<rparr>)
      | Dialled stream \<Rightarrow> connect_run A D 1 (Exchanging conn stream) c)"
proof (induction addrs arbitrary: last_err n)
  case Nil
  then obtain m where "n = Suc m" by (cases n) auto
  then show ?case by simp
next
  case (Cons addr addrs)
  then obtain m where n: "n = Suc (Suc m)" and "length addrs + 2 \<le> Suc m" by (cases n; cases "n - 1") auto
  with Cons.IH [of "Suc m"] show ?case
    by (auto simp: Let_def split: sum.split option.split prod.split)
qed

text \<open>With nothing in between, the parts are \<open>handle_connect\<close>.\<close>

lemma handle_connect_parts:
  assumes "(case resolve_dns (lib_lookup_host A) (crx_addr conn) of Inr addrs \<Rightarrow> length addrs | Inl _ \<Rightarrow> 0) + 3 \<le> n"
  shows "connect_run A D n (LookingUp conn) c = handle_connect A D conn c"
proof -
  obtain m where n: "n = Suc m" using assms by (cases n) auto
  show ?thesis
  proof (cases "resolve_dns (lib_lookup_host A) (crx_addr conn)")
    case (Inl err)
    with assms n have "length ([] :: socket_addr list) + 2 \<le> m" by simp
    from connect_run_dialling [OF this, of A D conn "Some err" c] Inl show ?thesis by (simp add: n handle_connect_def Let_def)
  next
    case (Inr addrs)
    with assms n have "length addrs + 2 \<le> m" by simp
    from connect_run_dialling [OF this, of A D conn None c] Inr show ?thesis
      by (auto simp: n handle_connect_def Let_def split: dialled.split option.split)
  qed
qed

section \<open>Waiting for authentication\<close>

text \<open>
  The \<open>select!\<close> on \<open>auth.wait()\<close> and \<open>closed()\<close>; when both are ready, \<open>pick\<close> says whether it takes the
  second.
\<close>

datatype waited = Authed | ClosedWith connection_error | Waiting

definition await_auth :: "bool \<Rightarrow> ('u, 'q, 'm) server_conn \<Rightarrow> waited" where
  "await_auth pick c =
     (if authenticated_wait_ready (sc_auth c)
      then (case sc_closed c of Some e \<Rightarrow> if pick then ClosedWith e else Authed | None \<Rightarrow> Authed)
      else (case sc_closed c of Some e \<Rightarrow> ClosedWith e | None \<Rightarrow> Waiting))"

fun is_packet :: "('u, 's, 'r) task \<Rightarrow> bool" where
  "is_packet (TaskPacket _ _) = True"
| "is_packet _ = False"

section \<open>Pre-processing\<close>

text \<open>
  \<open>timed_out\<close> says that the negotiation timer fired before the header was read, \<open>pick\<close> is the choice
  of the \<open>select!\<close>. A command refused after it was parsed is dropped, a \<open>Connect\<close> with its register.
\<close>

definition pre_process_uni ::
    "('u, 'q, 'e, 's, 'r) app \<Rightarrow> bool \<Rightarrow> bool \<Rightarrow> 'r \<Rightarrow> ('u, 'q, ('e, 's, 'r) quinn_error) server_conn \<Rightarrow>
      (('u, ('e, 's, 'r) quinn_error) server_error + ('u, 's, 'r) task) option \<times>
      ('u, 'q, ('e, 's, 'r) quinn_error) server_conn" where
  "pre_process_uni A timed_out pick recv c =
     (if timed_out then (Some (Inl TaskNegotiationTimeout), c)
      else (case server_accept_uni_stream (lib_uuid A) (lib_read A) recv (sc_model c) of
        (Inl e, model) \<Rightarrow> (Some (Inl (ServerModel e)), c\<lparr>sc_model := model\<rparr>)
      | (Inr task, model) \<Rightarrow>
     (case (case task of
              TaskAuthenticate auth \<Rightarrow> conn_authenticate A auth (c\<lparr>sc_model := model\<rparr>)
            | _ \<Rightarrow> (Inr (), c\<lparr>sc_model := model\<rparr>)) of
        (Inl e, c) \<Rightarrow> (Some (Inl e), c)
      | (Inr _, c) \<Rightarrow>
     (case await_auth pick c of
        Waiting \<Rightarrow> (None, c)
      | ClosedWith e \<Rightarrow> (Some (Inl (server_error_from e)), c)
      | Authed \<Rightarrow>
          if is_packet task \<and> sc_udp_relay_mode c = Some Native
          then (Some (Inl UnexpectedPacketSource), c)
          else (Some (Inr task), c)))))"

definition pre_process_bi ::
    "('u, 'q, 'e, 's, 'r) app \<Rightarrow> bool \<Rightarrow> bool \<Rightarrow> 's \<Rightarrow> 'r \<Rightarrow>
      ('u, 'q, ('e, 's, 'r) quinn_error) server_conn \<Rightarrow>
      (('u, ('e, 's, 'r) quinn_error) server_error + ('u, 's, 'r) task) option \<times>
      ('u, 'q, ('e, 's, 'r) quinn_error) server_conn" where
  "pre_process_bi A timed_out pick send recv c =
     (if timed_out then (Some (Inl TaskNegotiationTimeout), c)
      else (case server_accept_bi_stream (lib_uuid A) (lib_read A) send recv (sc_model c) of
        (Inl e, model) \<Rightarrow> (Some (Inl (ServerModel e)), c\<lparr>sc_model := model\<rparr>)
      | (Inr task, model) \<Rightarrow>
     (case await_auth pick c of
        Waiting \<Rightarrow> (None, c\<lparr>sc_model := model\<rparr>)
      | ClosedWith e \<Rightarrow> (Some (Inl (server_error_from e)), c\<lparr>sc_model := connection_drop_connect model\<rparr>)
      | Authed \<Rightarrow> (Some (Inr task), c\<lparr>sc_model := model\<rparr>))))"

definition pre_process_datagram ::
    "('u, 'q, 'e, 's, 'r) app \<Rightarrow> bool \<Rightarrow> bytes \<Rightarrow> ('u, 'q, ('e, 's, 'r) quinn_error) server_conn \<Rightarrow>
      (('u, ('e, 's, 'r) quinn_error) server_error + ('u, 's, 'r) task) option outcome \<times>
      ('u, 'q, ('e, 's, 'r) quinn_error) server_conn" where
  "pre_process_datagram A pick dg c =
     (case server_accept_datagram (lib_uuid A) dg (sc_model c) of
        (Panics p, model) \<Rightarrow> (Panics p, c\<lparr>sc_model := model\<rparr>)
      | (Returns (Inl e), model) \<Rightarrow> (Returns (Some (Inl (ServerModel e))), c\<lparr>sc_model := model\<rparr>)
      | (Returns (Inr task), model) \<Rightarrow> (let c = c\<lparr>sc_model := model\<rparr> in
     (case await_auth pick c of
        Waiting \<Rightarrow> (Returns None, c)
      | ClosedWith e \<Rightarrow> (Returns (Some (Inl (server_error_from e))), c)
      | Authed \<Rightarrow>
          if is_packet task \<and> sc_udp_relay_mode c = Some Quic
          then (Returns (Some (Inl UnexpectedPacketSource)), c)
          else (Returns (Some (Inr task)), c))))"

section \<open>The handlers\<close>

text \<open>
  The result is \<open>None\<close> while the handler waits. Its register is dropped when it ends, also by a panic.
\<close>

definition handle_uni_stream ::
    "('u, 'q, 'e, 's, 'r) app \<Rightarrow> nat \<Rightarrow> bool \<Rightarrow> bool \<Rightarrow> 'r \<Rightarrow>
      ('u, 'q, ('e, 's, 'r) quinn_error) server_conn \<Rightarrow>
      unit outcome option \<times> ('u, 'q, ('e, 's, 'r) quinn_error) server_conn" where
  "handle_uni_stream A now timed_out pick recv c = (case grow_uni_streams A c of
     (Panics p, c) \<Rightarrow> (Some (Panics p), drop_uni_register c)
   | (Returns _, c) \<Rightarrow> (case pre_process_uni A timed_out pick recv c of
       (None, c) \<Rightarrow> (None, c)
     | (Some (Inl err), c) \<Rightarrow> (Some (Returns ()), drop_uni_register (conn_close (ReasonWith
         ''A serious error occurred at unidirectional stream pre-process stage '' err) c))
     | (Some (Inr task), c) \<Rightarrow> (case (case task of
           TaskAuthenticate auth \<Rightarrow> (Returns (), c)
         | TaskPacket pkt src \<Rightarrow> handle_packet A now pkt src Quic c
         | TaskDissociate assoc_id \<Rightarrow> (Returns (), handle_dissociate assoc_id c)
         | _ \<Rightarrow> (Panics Unreachable, c)) of
         (r, c) \<Rightarrow> (Some r, drop_uni_register c))))"

definition handle_bi_stream ::
    "('u, 'q, 'e, 's, 'r) app \<Rightarrow> 't dialer \<Rightarrow> bool \<Rightarrow> bool \<Rightarrow> 's \<Rightarrow> 'r \<Rightarrow>
      ('u, 'q, ('e, 's, 'r) quinn_error) server_conn \<Rightarrow>
      (stream_call list \<times> connect_error option) outcome option \<times>
      ('u, 'q, ('e, 's, 'r) quinn_error) server_conn" where
  "handle_bi_stream A D timed_out pick send recv c = (case grow_bi_streams A c of
     (Panics p, c) \<Rightarrow> (Some (Panics p), drop_bi_register c)
   | (Returns _, c) \<Rightarrow> (case pre_process_bi A timed_out pick send recv c of
       (None, c) \<Rightarrow> (None, c)
     | (Some (Inl err), c) \<Rightarrow> (Some (Returns ([], None)), drop_bi_register (conn_close (ReasonWith
         ''A serious error occurred at bidirectional stream pre-process stage '' err) c))
     | (Some (Inr task), c) \<Rightarrow> (case task of
           TaskConnect conn _ _ \<Rightarrow> (case handle_connect A D conn c of
             (None, c) \<Rightarrow> (None, c)
           | (Some ended, c) \<Rightarrow> (Some (Returns ended), drop_bi_register c))
         | _ \<Rightarrow> (Some (Panics Unreachable), drop_bi_register c))))"

definition handle_datagram ::
    "('u, 'q, 'e, 's, 'r) app \<Rightarrow> nat \<Rightarrow> bool \<Rightarrow> bytes \<Rightarrow>
      ('u, 'q, ('e, 's, 'r) quinn_error) server_conn \<Rightarrow>
      unit outcome option \<times> ('u, 'q, ('e, 's, 'r) quinn_error) server_conn" where
  "handle_datagram A now pick dg c = (case pre_process_datagram A pick dg c of
     (Panics p, c) \<Rightarrow> (Some (Panics p), c)
   | (Returns None, c) \<Rightarrow> (None, c)
   | (Returns (Some (Inl err)), c) \<Rightarrow> (Some (Returns ()), conn_close (ReasonWith
       ''A serious error occurred at datagram pre-process stage '' err) c)
   | (Returns (Some (Inr task)), c) \<Rightarrow> (case task of
       TaskPacket pkt src \<Rightarrow> (case handle_packet A now pkt src Native c of (r, c) \<Rightarrow> (Some r, c))
     | TaskHeartbeat \<Rightarrow> (Some (Returns ()), c)
     | _ \<Rightarrow> (Some (Panics Unreachable), c)))"

section \<open>The steps of a connection\<close>

text \<open>
  Any handler may run next, on any task, as a whole or one of the parts between which it may wait: this covers every
  interleaving of the parts, since what they hand over is arbitrary, except that the mode is set before a
  payload is read. The environment closes the connection, and the RESTful interface, which other connections
  share, changes in any way.
\<close>

inductive server_step ::
    "('u, 'q, ('e, 's, 'r) quinn_error) server_conn \<Rightarrow> ('u, 'q, ('e, 's, 'r) quinn_error) server_conn \<Rightarrow> bool"
  where
  step_incoming: "server_step c (snd (handle_incoming (inc :: ('s, 'r) incoming) c))"
| step_uni: "server_step c (snd (handle_uni_stream A now timed_out pick recv c))"
| step_bi: "server_step c (snd (handle_bi_stream A (D :: nat dialer) timed_out pick send recv c))"
| step_datagram: "server_step c (snd (handle_datagram A now pick dg c))"
| step_packet: "server_step c (snd (handle_packet A now pkt src mode c))"
| step_connect: "server_step c (snd (handle_connect (A :: ('u, 'q, 'e, 's, 'r) app) (D :: nat dialer) conn c))"
| step_grow_uni: "server_step c (snd (grow_uni_streams (A :: ('u, 'q, 'e, 's, 'r) app) c))"
| step_grow_bi: "server_step c (snd (grow_bi_streams (A :: ('u, 'q, 'e, 's, 'r) app) c))"
| step_pre_process_uni: "server_step c (snd (pre_process_uni A timed_out pick recv c))"
| step_pre_process_bi: "server_step c (snd (pre_process_bi A timed_out pick send recv c))"
| step_pre_process_datagram: "server_step c (snd (pre_process_datagram A pick dg c))"
| step_packet_begin: "server_step c (snd (packet_begin (A :: ('u, 'q, 'e, 's, 'r) app) pkt mode c))"
| step_packet_received: "sc_udp_relay_mode c \<noteq> None \<Longrightarrow> server_step c (snd (packet_received A now pkt src c))"
| step_packet_resolved: "server_step c (snd (packet_resolved (A :: ('u, 'q, 'e, 's, 'r) app) sid payload addr c))"
| step_connect_part: "server_step c (snd (connect_step (A :: ('u, 'q, 'e, 's, 'r) app) (D :: nat dialer) h c))"
| step_close: "server_step c (conn_close reason c)"
| step_drop_uni: "server_step c (drop_uni_register c)"
| step_drop_bi: "server_step c (drop_bi_register c)"
| step_dissociate: "server_step c (handle_dissociate assoc_id c)"
| step_relay_packet: "server_step c (snd (relay_packet A pkt addr assoc_id c))"
| step_timeout: "server_step c (c\<lparr>sc_udp_sessions := listener_timeout sid (sc_udp_sessions c)\<rparr>)"
| step_leave: "server_step c (c\<lparr>sc_udp_sessions := listener_leave sid (sc_udp_sessions c)\<rparr>)"
| step_finish: "server_step c (c\<lparr>sc_udp_sessions := listener_finish sid (sc_udp_sessions c)\<rparr>)"
| step_auth_timeout: "server_step c (snd (conn_timeout_authenticate (A :: ('u, 'q, 'e, 's, 'r) app) inner c))"
| step_collect_garbage: "server_step c (snd (conn_collect_garbage (A :: ('u, 'q, 'e, 's, 'r) app) now inner c))"
| step_closed: "server_step c (c\<lparr>sc_closed := Some e\<rparr>)"
| step_restful: "server_step c (c\<lparr>sc_restful := rest\<rparr>)"
| step_quic: "server_step c (c\<lparr>sc_quic := q\<rparr>)"

end
