(* ===== verification/Server_Invariant.thy ===== *)
theory Server_Invariant
  imports Server_Stream
begin

text \<open>
  The invariant of a server connection under every order of its handlers, and the properties of the
  handlers.
\<close>

section \<open>The invariant\<close>

text \<open>
  The stream limits are the ones the transport was told and powers of two times the initial one; the
  mode is known as soon as there has been a UDP session; a connection that was closed is closed.
\<close>

definition limits_ok :: "('u, 'q, 'm) server_conn \<Rightarrow> bool" where
  "limits_ok c \<longleftrightarrow> sc_quic_max_uni c = sc_max_uni_streams c \<and> sc_quic_max_bi c = sc_max_bi_streams c \<and>
     (\<exists>k. sc_max_uni_streams c = INIT_CONCURRENT_STREAMS * 2 ^ k) \<and>
     (\<exists>k. sc_max_bi_streams c = INIT_CONCURRENT_STREAMS * 2 ^ k)"

definition udp_ok :: "('u, 'q, 'm) server_conn \<Rightarrow> bool" where
  "udp_ok c \<longleftrightarrow> relays_ok (sc_udp_sessions c) \<and>
     (sc_udp_relay_mode c = None \<longrightarrow> relay_next (sc_udp_sessions c) = 0)"

definition closes_ok :: "('u, 'q, 'm) server_conn \<Rightarrow> bool" where
  "closes_ok c \<longleftrightarrow> (sc_closes c \<noteq> [] \<longrightarrow> is_closed c)"

definition conn_ok :: "'u \<Rightarrow> ('u, 'q, 'm) server_conn \<Rightarrow> bool" where
  "conn_ok nil c \<longleftrightarrow> auth_settled nil (sc_auth c) \<and> limits_ok c \<and> udp_ok c \<and> closes_ok c"

named_theorems conn_frame \<open>updates that the invariant does not look at\<close>

lemma conn_ok_frame [conn_frame]:
  "conn_ok nil (c\<lparr>sc_model := m\<rparr>) = conn_ok nil c"
  "conn_ok nil (c\<lparr>sc_restful := rest\<rparr>) = conn_ok nil c"
  "conn_ok nil (c\<lparr>sc_quic := q\<rparr>) = conn_ok nil c"
  "conn_ok nil (c\<lparr>sc_sent := w\<rparr>) = conn_ok nil c"
  "conn_ok nil (c\<lparr>sc_uni_stream_cnt := n\<rparr>) = conn_ok nil c"
  "conn_ok nil (c\<lparr>sc_bi_stream_cnt := n\<rparr>) = conn_ok nil c"
  "conn_ok nil (drop_uni_register c) = conn_ok nil c"
  "conn_ok nil (drop_bi_register c) = conn_ok nil c"
  by (simp_all add: conn_ok_def limits_ok_def udp_ok_def closes_ok_def is_closed_def
      drop_uni_register_def drop_bi_register_def)

lemma conn_ok_new: "conn_ok nil (server_conn_new nil q rest)"
proof -
  have "\<exists>k. INIT_CONCURRENT_STREAMS = INIT_CONCURRENT_STREAMS * 2 ^ k" by (rule exI [of _ 0]) simp
  then show ?thesis
    by (simp add: conn_ok_def server_conn_new_def limits_ok_def udp_ok_def closes_ok_def auth_settled_def
        authenticated_new_def relays_ok_def udp_relays_new_def)
qed

lemma conn_ok_close: "conn_ok nil c \<Longrightarrow> conn_ok nil (conn_close reason c)"
  by (auto simp: conn_ok_def limits_ok_def udp_ok_def closes_ok_def is_closed_def conn_close_def
      split: option.split)

lemma conn_ok_closed: "conn_ok nil c \<Longrightarrow> conn_ok nil (c\<lparr>sc_closed := Some e\<rparr>)"
  by (simp add: conn_ok_def limits_ok_def udp_ok_def closes_ok_def is_closed_def)

lemma conn_ok_mode: "conn_ok nil c \<Longrightarrow> conn_ok nil (c\<lparr>sc_udp_relay_mode := Some mode\<rparr>)"
  by (simp add: conn_ok_def limits_ok_def udp_ok_def closes_ok_def is_closed_def)

lemma conn_ok_udp:
  assumes "conn_ok nil c" and "relays_ok udp"
    and "relay_next udp = relay_next (sc_udp_sessions c) \<or> sc_udp_relay_mode c \<noteq> None"
  shows "conn_ok nil (c\<lparr>sc_udp_sessions := udp\<rparr>)"
  using assms by (auto simp: conn_ok_def limits_ok_def udp_ok_def closes_ok_def is_closed_def)

lemma conn_ok_relays: "conn_ok nil c \<Longrightarrow> relays_ok (sc_udp_sessions c)"
  by (simp add: conn_ok_def udp_ok_def)

lemma conn_ok_settled: "conn_ok nil c \<Longrightarrow> auth_settled nil (sc_auth c)"
  by (simp add: conn_ok_def)

lemma u32_double_power:
  assumes "u32_double oc m = Returns n" and "\<exists>k. m = INIT_CONCURRENT_STREAMS * 2 ^ k"
  shows "\<exists>k. n = INIT_CONCURRENT_STREAMS * 2 ^ k"
proof -
  from assms(2) obtain k where "m = INIT_CONCURRENT_STREAMS * 2 ^ k" by blast
  moreover from assms(1) have "n = m * 2" by (simp add: u32_double_def split: if_splits)
  ultimately have "n = INIT_CONCURRENT_STREAMS * 2 ^ Suc k" by simp
  then show ?thesis by blast
qed

lemma conn_ok_grow:
  assumes "conn_ok nil c"
  shows "conn_ok nil (snd (grow_uni_streams A c))" and "conn_ok nil (snd (grow_bi_streams A c))"
  using assms
  by (auto simp: grow_uni_streams_def grow_bi_streams_def conn_ok_def limits_ok_def udp_ok_def closes_ok_def
      is_closed_def split: outcome.split dest: u32_double_power)

lemma conn_ok_authenticate:
  assumes "conn_ok nil c"
  shows "conn_authenticate A auth c = (Inl DuplicatedAuth, c)"
  by (simp add: conn_authenticate_def server_authenticate_settled [OF conn_ok_settled [OF assms]])

lemma conn_ok_waited: "conn_ok nil c \<Longrightarrow> await_auth pick c \<noteq> Waiting"
  by (auto simp: await_auth_def authenticated_wait_ready_def conn_ok_def auth_settled_def
      split: option.split)

lemma conn_ok_get: "conn_ok nil c \<Longrightarrow> authenticated_get (sc_auth c) = Some nil"
  by (simp add: conn_ok_def auth_settled_def authenticated_get_def)

section \<open>Every handler keeps it\<close>

lemma conn_ok_handle_incoming: "conn_ok nil c \<Longrightarrow> conn_ok nil (snd (handle_incoming inc c))"
  by (simp add: handle_incoming_def conn_frame split: incoming.split sum.split prod.split)

lemma conn_ok_process_packet:
  fixes c :: "('u, 'q, 'm) server_conn"
  assumes "conn_ok nil c" and "sc_udp_relay_mode c \<noteq> None"
  shows "conn_ok nil (snd (process_packet A pkt addr assoc_id c))"
proof -
  obtain r :: "('u, 'm) server_error + nat" and udp where made: "relay_for (lib_sockets A) (cfg_udp_relay_ipv6 A) assoc_id (sc_udp_sessions c)
      = (r, udp)" by (rule prod.exhaust)
  have "relays_ok udp" by (rule relay_for_ok [OF made conn_ok_relays [OF assms(1)]])
  then have "conn_ok nil (c\<lparr>sc_udp_sessions := udp\<rparr>)" using assms by (simp add: conn_ok_udp)
  with made show ?thesis
    by (simp add: process_packet_unfold conn_frame Let_def split: sum.split list.split option.split)
qed

lemma conn_ok_handle_packet:
  assumes "conn_ok nil c"
  shows "conn_ok nil (snd (handle_packet A now pkt src mode c))"
proof (cases "log_fragment (overflow_checks A) (logs_info A) (prx_frag_id pkt)")
  case (Panics p)
  with assms show ?thesis by (simp add: handle_packet_unfold)
next
  case (Returns u)
  have "conn_ok nil (c\<lparr>sc_udp_relay_mode := Some mode, sc_model := m\<rparr>)" for m
    using conn_ok_mode [OF assms, of mode] by (simp add: conn_frame)
  with Returns show ?thesis
    by (simp add: handle_packet_unfold Let_def conn_ok_process_packet
        split: prod.split outcome.split sum.split option.split)
qed

lemma conn_ok_packet_parts:
  fixes c :: "('u, 'q, ('e, 's, 'r) quinn_error) server_conn" and A :: "('u, 'q, 'e, 's, 'r) app"
  assumes "conn_ok nil c"
  shows "conn_ok nil (snd (packet_begin A pkt mode c))"
    and "sc_udp_relay_mode c \<noteq> None \<Longrightarrow> conn_ok nil (snd (packet_received A now pkt src c))"
    and "conn_ok nil (snd (packet_resolved A session payload addr c))"
proof -
  show "conn_ok nil (snd (packet_begin A pkt mode c))"
    using assms by (simp add: packet_begin_def conn_ok_mode split: outcome.split)
  show "conn_ok nil (snd (packet_resolved A session payload addr c))"
    using assms by (simp add: packet_resolved_def conn_frame Let_def split: sum.split list.split option.split)
  assume mode: "sc_udp_relay_mode c \<noteq> None"
  have "conn_ok nil (c\<lparr>sc_model := m, sc_udp_sessions := udp\<rparr>)"
    if "relay_for (lib_sockets A) (cfg_udp_relay_ipv6 A) a (sc_udp_sessions c) =
      (r :: ('u, ('e, 's, 'r) quinn_error) server_error + nat, udp)" for a r udp m
    using conn_ok_udp [of nil "c\<lparr>sc_model := m\<rparr>" udp] relay_for_ok [OF that conn_ok_relays [OF assms]] assms mode
    by (simp add: conn_frame)
  with assms show "conn_ok nil (snd (packet_received A now pkt src c))"
    by (auto simp: packet_received_def conn_frame split: outcome.split prod.split sum.split option.split)
qed

lemma conn_ok_connect_step: "conn_ok nil c \<Longrightarrow> conn_ok nil (snd (connect_step A D h c))"
  by (cases "(A, D, h, c)" rule: connect_step.cases)
    (auto simp: conn_frame Let_def split: sum.split option.split prod.split)

lemma conn_ok_handle_dissociate: "conn_ok nil c \<Longrightarrow> conn_ok nil (handle_dissociate assoc_id c)"
  by (simp add: handle_dissociate_def conn_ok_udp relay_dissociate_ok conn_ok_relays)

lemma conn_ok_listener:
  assumes "conn_ok nil c"
  shows "conn_ok nil (c\<lparr>sc_udp_sessions := listener_timeout sid (sc_udp_sessions c)\<rparr>)"
    and "conn_ok nil (c\<lparr>sc_udp_sessions := listener_leave sid (sc_udp_sessions c)\<rparr>)"
    and "conn_ok nil (c\<lparr>sc_udp_sessions := listener_finish sid (sc_udp_sessions c)\<rparr>)"
  using assms conn_ok_relays [OF assms]
  by (simp_all add: conn_ok_udp listener_timeout_def relay_shut_ok listener_leave_ok listener_finish_ok)

lemma conn_ok_relay_packet:
  "conn_ok nil c \<Longrightarrow> conn_ok nil (snd (relay_packet A pkt addr assoc_id c))"
  by (auto simp: relay_packet_def conn_frame Let_def split: option.split prod.split)

lemma conn_ok_handle_connect: "conn_ok nil c \<Longrightarrow> conn_ok nil (snd (handle_connect A D conn c))"
  by (simp add: handle_connect_def conn_frame Let_def
      split: option.split prod.split sum.split dialled.split)

lemma conn_ok_pre_process_uni:
  assumes "conn_ok nil c"
  shows "conn_ok nil (snd (pre_process_uni A timed_out pick recv c))"
proof -
  have "conn_authenticate A auth (c\<lparr>sc_model := m\<rparr>) = (Inl DuplicatedAuth, c\<lparr>sc_model := m\<rparr>)" for auth m
    using assms by (simp add: conn_ok_authenticate conn_frame)
  with assms show ?thesis
    by (auto simp: pre_process_uni_def conn_frame
        split: prod.splits sum.splits waited.splits task.splits)
qed

lemma conn_ok_pre_process_bi:
  "conn_ok nil c \<Longrightarrow> conn_ok nil (snd (pre_process_bi A timed_out pick send recv c))"
  by (simp add: pre_process_bi_def conn_frame split: prod.split sum.split waited.split)

lemma conn_ok_pre_process_datagram:
  "conn_ok nil c \<Longrightarrow> conn_ok nil (snd (pre_process_datagram A pick dg c))"
  by (simp add: pre_process_datagram_def conn_frame Let_def
      split: prod.split sum.split outcome.split waited.split)

lemma conn_ok_timers:
  assumes "conn_ok nil c"
  shows "conn_ok nil (snd (conn_timeout_authenticate A inner c))"
    and "conn_ok nil (snd (conn_collect_garbage A now inner c))"
  using assms by (simp_all add: conn_timeout_authenticate_def conn_collect_garbage_def conn_ok_close
      conn_frame split: option.split prod.split)

lemma conn_ok_handle_uni_stream:
  assumes "conn_ok nil c"
  shows "conn_ok nil (snd (handle_uni_stream A now timed_out pick recv c))"
proof -
  obtain g c1 where grown: "grow_uni_streams A c = (g, c1)" by (rule prod.exhaust)
  obtain r c2 where pre: "pre_process_uni A timed_out pick recv c1 = (r, c2)" by (rule prod.exhaust)
  have "conn_ok nil c1" using conn_ok_grow(1) [OF assms, of A] grown by simp
  moreover from this have "conn_ok nil c2"
    using conn_ok_pre_process_uni [of nil c1 A timed_out pick recv] pre by simp
  moreover have "conn_ok nil c3" if "handle_packet A now pkt src Quic c2 = (p, c3)" for pkt src p c3
    using conn_ok_handle_packet [OF \<open>conn_ok nil c2\<close>, of A now pkt src Quic] that by simp
  ultimately show ?thesis
    using grown pre by (auto simp: handle_uni_stream_def conn_frame conn_ok_close conn_ok_handle_dissociate
        split: outcome.split option.split sum.split task.split prod.splits)
qed

lemma conn_ok_handle_bi_stream:
  assumes "conn_ok nil c"
  shows "conn_ok nil (snd (handle_bi_stream A D timed_out pick send recv c))"
proof -
  obtain g c1 where grown: "grow_bi_streams A c = (g, c1)" by (rule prod.exhaust)
  obtain r c2 where pre: "pre_process_bi A timed_out pick send recv c1 = (r, c2)" by (rule prod.exhaust)
  have "conn_ok nil c1" using conn_ok_grow(2) [OF assms, of A] grown by simp
  moreover from this have "conn_ok nil c2"
    using conn_ok_pre_process_bi [of nil c1 A timed_out pick send recv] pre by simp
  moreover have "conn_ok nil c3" if "handle_connect A D conn c2 = (p, c3)" for conn p c3
    using conn_ok_handle_connect [OF \<open>conn_ok nil c2\<close>, of A D conn] that by simp
  ultimately show ?thesis
    using grown pre by (auto simp: handle_bi_stream_def conn_frame conn_ok_close
        split: outcome.split option.split sum.split task.split prod.splits)
qed

lemma conn_ok_handle_datagram:
  assumes "conn_ok nil c"
  shows "conn_ok nil (snd (handle_datagram A now pick dg c))"
proof -
  obtain r c2 where pre: "pre_process_datagram A pick dg c = (r, c2)" by (rule prod.exhaust)
  then have "conn_ok nil c2" using conn_ok_pre_process_datagram [OF assms, of A pick dg] by simp
  moreover have "conn_ok nil c3" if "handle_packet A now pkt src Native c2 = (p, c3)" for pkt src p c3
    using conn_ok_handle_packet [OF \<open>conn_ok nil c2\<close>, of A now pkt src Native] that by simp
  ultimately show ?thesis
    using pre by (auto simp: handle_datagram_def conn_ok_close
        split: outcome.split option.split sum.split task.split prod.splits)
qed

lemma server_step_ok: "server_step c c' \<Longrightarrow> conn_ok nil c \<Longrightarrow> conn_ok nil c'"
  by (induction rule: server_step.induct)
    (simp_all add: conn_ok_handle_incoming conn_ok_handle_uni_stream conn_ok_handle_bi_stream
      conn_ok_handle_datagram conn_ok_handle_packet conn_ok_handle_connect conn_ok_handle_dissociate
      conn_ok_relay_packet conn_ok_listener conn_ok_timers conn_ok_closed conn_ok_grow conn_ok_pre_process_uni
      conn_ok_pre_process_bi conn_ok_pre_process_datagram conn_ok_packet_parts conn_ok_connect_step
      conn_ok_close conn_frame)

definition server_fresh ::
    "'u \<Rightarrow> ('u, 'q, ('e, 's, 'r) quinn_error) server_conn \<Rightarrow> bool" where
  "server_fresh nil c \<longleftrightarrow> (\<exists>q rest. c = server_conn_new nil q rest)"

interpretation server: invariant_system "server_fresh nil" server_step "conn_ok nil"
proof unfold_locales
  show "server_fresh nil c \<Longrightarrow> conn_ok nil c" for c
    by (auto simp: server_fresh_def conn_ok_new)
  show "conn_ok nil c \<Longrightarrow> server_step c c' \<Longrightarrow> conn_ok nil c'" for c c'
    by (rule server_step_ok)
qed

end
