(* ===== verification/Tuic_Streams.thy ===== *)
theory Tuic_Streams
  imports Tuic_Quinn
begin

text \<open>
  Commands on streams: what the sending operations of \<^verbatim>\<open>tuic-quinn/src/lib.rs\<close> put on the streams they open, and
  what the other side makes of a stream that carries it, in whatever pieces it arrives. A packet in the quic
  mode travels with one stream per fragment, and the streams are read in any order.
\<close>

section \<open>What the sender puts on streams\<close>

text \<open>
  A transport that opens streams and takes what is written on them: \<open>opened\<close> lists the streams, \<open>sent\<close> is what
  was written on each. A new stream is none of the others and empty.
\<close>

definition takes_streams ::
    "('q, 'e, 's, 'r) quic \<Rightarrow> ('q \<Rightarrow> 's list) \<Rightarrow> ('q \<Rightarrow> 's \<Rightarrow> bytes) \<Rightarrow> bool" where
  "takes_streams Q opened sent \<longleftrightarrow>
     (\<forall>q. \<exists>s q'. open_uni Q q = (Inr s, q') \<and> s \<notin> set (opened q) \<and> opened q' = opened q @ [s] \<and>
        sent q' = (sent q)(s := [])) \<and>
     (\<forall>q. \<exists>s r q'. open_bi Q q = (Inr (s, r), q') \<and> s \<notin> set (opened q) \<and> opened q' = opened q @ [s] \<and>
        sent q' = (sent q)(s := [])) \<and>
     (\<forall>q s bs. s \<in> set (opened q) \<longrightarrow> (\<exists>q'. poll_write_all Q s bs q = (Inr (), q') \<and> opened q' = opened q \<and>
        sent q' = (sent q)(s := sent q s @ bs))) \<and>
     (\<forall>q s bs. s \<in> set (opened q) \<longrightarrow> (\<exists>q'. write_all Q s bs q = (Inr (), q') \<and> opened q' = opened q \<and>
        sent q' = (sent q)(s := sent q s @ bs))) \<and>
     (\<forall>q s. s \<in> set (opened q) \<longrightarrow> (\<exists>q'. finish Q s q = (Inr (), q') \<and> opened q' = opened q \<and> sent q' = sent q))"

lemma takes_streamsD:
  assumes "takes_streams Q opened sent"
  shows "\<exists>s q'. open_uni Q q = (Inr s, q') \<and> s \<notin> set (opened q) \<and> opened q' = opened q @ [s] \<and>
      sent q' = (sent q)(s := [])"
    and "\<exists>s r q'. open_bi Q q = (Inr (s, r), q') \<and> s \<notin> set (opened q) \<and> opened q' = opened q @ [s] \<and>
      sent q' = (sent q)(s := [])"
    and "s \<in> set (opened q) \<Longrightarrow> \<exists>q'. poll_write_all Q s bs q = (Inr (), q') \<and> opened q' = opened q \<and>
      sent q' = (sent q)(s := sent q s @ bs)"
    and "s \<in> set (opened q) \<Longrightarrow> \<exists>q'. write_all Q s bs q = (Inr (), q') \<and> opened q' = opened q \<and>
      sent q' = (sent q)(s := sent q s @ bs)"
    and "s \<in> set (opened q) \<Longrightarrow> \<exists>q'. finish Q s q = (Inr (), q') \<and> opened q' = opened q \<and> sent q' = sent q"
  using assms unfolding takes_streams_def by blast+

text \<open>One such: the streams are numbers, the state holds what was written on each.\<close>

definition stream_net :: "(bytes list, string, nat, recv_stream) quic" where
  "stream_net = \<lparr>max_datagram_size = (\<lambda>_. None), send_datagram = (\<lambda>_ q. (Inl ''disabled'', q)),
     datagram_disabled = ''disabled'', open_uni = (\<lambda>q. (Inr (length q), q @ [[]])),
     open_bi = (\<lambda>q. (Inr (length q, \<lparr>stream_chunks = [], stream_end = UnexpectedEof\<rparr>), q @ [[]])),
     poll_write_all = (\<lambda>s bs q. (Inr (), q[s := q ! s @ bs])), write_all = (\<lambda>s bs q. (Inr (), q[s := q ! s @ bs])),
     finish = (\<lambda>_ q. (Inr (), q)), export_keying_material = (\<lambda>_ _ _ _. Inl ''none'')\<rparr>"

definition net_opened :: "bytes list \<Rightarrow> nat list" where
  "net_opened q = [0..<length q]"

definition net_sent :: "bytes list \<Rightarrow> nat \<Rightarrow> bytes" where
  "net_sent q s = (if s < length q then q ! s else [])"

lemma stream_net_takes: "takes_streams stream_net net_opened net_sent"
  by (auto simp: takes_streams_def stream_net_def net_opened_def net_sent_def fun_eq_iff nth_append)

text \<open>A command on a stream of its own.\<close>

lemma send_uni_sent:
  assumes "takes_streams Q opened sent" and "send_uni U Q h data q = (r, q')"
  obtains s where "r = Inr ()" and "s \<notin> set (opened q)" and "opened q' = opened q @ [s]"
    and "sent q' = (sent q)(s := header_write U h [] @ (case data of None \<Rightarrow> [] | Some frag \<Rightarrow> frag))"
proof -
  obtain s q1 where s: "open_uni Q q = (Inr s, q1)" "s \<notin> set (opened q)" "opened q1 = opened q @ [s]"
    "sent q1 = (sent q)(s := [])" using takes_streamsD(1) [OF assms(1)] by blast
  then have "s \<in> set (opened q1)" by simp
  then obtain q2 where q2: "poll_write_all Q s (header_write U h []) q1 = (Inr (), q2)" "opened q2 = opened q1"
    "sent q2 = (sent q1)(s := sent q1 s @ header_write U h [])" using takes_streamsD(3) [OF assms(1)] by blast
  obtain q3 where q3: "(case data of None \<Rightarrow> (Inr (), q2) | Some frag \<Rightarrow> write_all Q s frag q2) = (Inr (), q3)"
    "opened q3 = opened q1"
    "sent q3 = (sent q1)(s := header_write U h [] @ (case data of None \<Rightarrow> [] | Some frag \<Rightarrow> frag))"
  proof (cases data)
    case None
    with q2 s show thesis by (intro that [of q2]) simp_all
  next
    case (Some frag)
    obtain q3 where "write_all Q s frag q2 = (Inr (), q3)" "opened q3 = opened q2"
      "sent q3 = (sent q2)(s := sent q2 s @ frag)"
      using takes_streamsD(4) [OF assms(1), of s q2 frag] q2(2) s(3) by auto
    with q2 s Some show thesis by (intro that [of q3]) simp_all
  qed
  obtain q4 where q4: "finish Q s q3 = (Inr (), q4)" "opened q4 = opened q3" "sent q4 = sent q3"
    using takes_streamsD(5) [OF assms(1), of s q3] q3(2) s(3) by auto
  have "r = Inr ()" "q' = q4"
    using assms(2) s(1) q2(1) q3(1) q4(1)
    by (auto simp: send_uni_def async_marshal_def Let_def)
  with s q3 q4 show thesis by (intro that [of s]) simp_all
qed

lemma send_streams_sent:
  assumes "takes_streams Q opened sent" and "send_streams U Q items q = (r, q')"
  shows "r = Inr () \<and> (\<exists>new. opened q' = opened q @ new \<and> distinct new \<and> set new \<inter> set (opened q) = {} \<and>
    map (sent q') new = map (fragment_datagram U) items \<and> (\<forall>s. s \<notin> set new \<longrightarrow> sent q' s = sent q s))"
  using assms(2)
proof (induction items arbitrary: q)
  case Nil
  then show ?case by simp
next
  case (Cons item items)
  obtain h frag where item: "item = (h, frag)" by (cases item)
  obtain r1 q1 where send: "send_uni U Q h (Some frag) q = (r1, q1)" by (rule prod.exhaust)
  obtain s where s: "r1 = Inr ()" "s \<notin> set (opened q)" "opened q1 = opened q @ [s]"
    "sent q1 = (sent q)(s := header_write U h [] @ frag)"
    by (rule send_uni_sent [OF assms(1) send]) simp
  with Cons.prems item send have "send_streams U Q items q1 = (r, q')" by simp
  from Cons.IH [OF this] obtain new where new: "r = Inr ()" "opened q' = opened q1 @ new" "distinct new"
    "set new \<inter> set (opened q1) = {}" "map (sent q') new = map (fragment_datagram U) items"
    "\<forall>s. s \<notin> set new \<longrightarrow> sent q' s = sent q1 s" by blast
  have "sent q' s = fragment_datagram U item"
    using new(4,6) s(3,4) by (auto simp: fragment_datagram_def put_slice_def item)
  with new s show ?case by (intro conjI exI [of _ "s # new"]) auto
qed

text \<open>The packet: one stream for each fragment.\<close>

lemma packet_quic_sent:
  fixes U :: "'u uuid_lib"
  assumes "takes_streams Q opened sent"
    and "packet_header_len addr \<le> 65535" and "length payload + 65535 < usize_modulus"
    and "payload \<noteq> []" and "\<not> splits_evenly_into_last 65535 addr payload"
    and "frag_count 65535 addr payload \<le> 255"
    and "packet_quic oc U Q payload addr a (c, q) = (res, c', q')"
  shows "res = Returns (Inr ()) \<and> (\<exists>new. opened q' = opened q @ new \<and> distinct new \<and>
    map (sent q') new = map (fragment_datagram U) (number_items a (next_pkt_id c a)
      (of_nat (length (cut_payload 65535 addr payload))) 0 addr (cut_payload 65535 addr payload)))"
proof -
  let ?items = "number_items a (next_pkt_id c a) (of_nat (length (cut_payload 65535 addr payload))) 0 addr
    (cut_payload 65535 addr payload) :: ('u header \<times> bytes) list"
  obtain tx c1 where tx: "connection_send_packet a addr 65535 c = (tx, c1)" by (rule prod.exhaust)
  note run = sent_fragments_run [OF assms(2) _ assms(3-6) tx, of oc, where ?'u = 'u]
  obtain f where f: "into_fragments oc tx payload = Returns f" "fragments_run oc f = (?items, None)"
    using run by auto
  obtain r1 q1 where send: "send_streams U Q ?items q = (r1, q1)" by (rule prod.exhaust)
  have "res = finish_loop None r1" "q' = q1"
    using assms(7) by (simp_all add: packet_quic_def tx f send)
  with send_streams_sent [OF assms(1) send] show ?thesis by (auto simp: finish_loop_def)
qed

section \<open>A stream through the server\<close>

text \<open>
  \<open>accept_uni_stream\<close> and then \<open>Packet::accept\<close> on its task, as the server's handlers call them. An
  \<open>Authenticate\<close> is no receipt of packets: it is told apart, since it ends the connection.
\<close>

definition receive_stream ::
    "bool \<Rightarrow> 'u uuid_lib \<Rightarrow> (nat \<Rightarrow> ('r, io_error, bytes) reader) \<Rightarrow> nat \<Rightarrow> 'r \<Rightarrow> connection \<Rightarrow>
      ('e, 's, 'r) receipt \<times> connection" where
  "receive_stream oc U rd now recv c = (case server_accept_uni_stream U rd recv c of
     (Inl e, c) \<Rightarrow> (Returns (Inl e), c)
   | (Inr (t :: ('u, 's, 'r) task), c) \<Rightarrow> (case t of
       TaskPacket rx src \<Rightarrow> packet_accept oc rd now rx src c
     | TaskDissociate _ \<Rightarrow> (Returns (Inr None), c)
     | _ \<Rightarrow> (Panics Unreachable, c)))"

text \<open>A stream that carries these bytes, in some pieces, whatever ends it.\<close>

definition stream_of :: "bytes \<Rightarrow> recv_stream \<Rightarrow> bool" where
  "stream_of bs recv \<longleftrightarrow> concat (stream_chunks recv) = bs"

lemma stream_of_unmarshal:
  assumes "wf_header U h" and "stream_of (header_write U h [] @ payload) recv"
  obtains rest where "async_unmarshal U stream_read_exact recv = (Inr h, rest)" and "stream_of payload rest"
proof -
  obtain chunks fin where recv: "recv = \<lparr>stream_chunks = chunks, stream_end = fin\<rparr>" by (cases recv)
  with assms(2) have "concat chunks = header_write U h [] @ payload" by (simp add: stream_of_def)
  from stream_unmarshal_written [OF assms(1) this, of fin] obtain rest where
    "async_unmarshal U stream_read_exact recv = (Inr h, \<lparr>stream_chunks = rest, stream_end = fin\<rparr>)"
    "concat rest = payload" unfolding recv by metis
  then show thesis by (intro that [of "\<lparr>stream_chunks = rest, stream_end = fin\<rparr>"]) (simp_all add: stream_of_def)
qed

lemma stream_of_read_exact: "stream_of bs recv \<Longrightarrow> fst (stream_read_exact (length bs) recv) = Inr bs"
  using stream_reader.read_enough [of "length bs" recv] by (auto simp: stream_of_def stream_unread_def)

lemma receive_stream_carried:
  assumes "stream_of (snd (arrival_datagram U (0, rx, data))) recv" and "arrival_ok (now, rx, data)"
    and "slot_insert oc now rx data (buffer_at (cn_udp_sessions c) (packet_key rx)) = (r, slot)"
  shows "\<exists>c'. receive_stream oc U stream_read_exact now recv c = (assembled_packet r :: ('e, 's, recv_stream) receipt, c') \<and>
    buffer_at (cn_udp_sessions c') (packet_key rx) = slot"
proof -
  let ?h = "packet_header_new (prx_assoc_id rx) (prx_pkt_id rx) (prx_frag_total rx) (prx_frag_id rx)
    (prx_size rx) (prx_addr rx)"
  have wf: "wf_header U (Packet ?h)" and size: "length data = unat (prx_size rx)"
    using assms(2) by (simp_all add: arrival_ok_def packet_header_new_def)
  have "stream_of (header_write U (Packet ?h) [] @ data) recv"
    using assms(1) by (simp add: arrival_datagram_def fragment_datagram_def put_slice_def)
  then obtain rest where un: "async_unmarshal U stream_read_exact recv = (Inr (Packet ?h), rest)"
    and rest: "stream_of data rest" by (rule stream_of_unmarshal [OF wf])
  obtain rx' c1 where recv: "connection_recv_packet_unrestricted ?h c = (rx', c1)" by (rule prod.exhaust)
  have rx: "rx' = rx"
    using recv_packet_unrestricted_buffer(1) [OF recv] by (simp add: packet_rx_new_def packet_header_new_def)
  obtain r' c2 where asm: "connection_assemble oc now rx data c1 = (r', c2)" by (rule prod.exhaust)
  have "receive_stream oc U stream_read_exact now recv c =
      (assembled_packet r' :: ('e, 's, recv_stream) receipt, c2)"
    using stream_of_read_exact [OF rest]
    by (simp add: receive_stream_def server_accept_uni_stream_def un recv rx packet_accept_def size asm)
  moreover have "r' = r" "buffer_at (cn_udp_sessions c2) (packet_key rx) = slot"
    using packet_rx_assemble_slot(1) [OF connection_assemble_sessions [OF asm]] assms(3)
      recv_packet_unrestricted_buffer(2) [OF recv] by simp_all
  ultimately show ?thesis by blast
qed

interpretation streams: fragment_receiver oc "receive_stream oc U stream_read_exact"
  "\<lambda>rx data recv. stream_of (snd (arrival_datagram U (0, rx, data))) recv" for oc U
  by unfold_locales (rule receive_stream_carried)

text \<open>
  A packet in the quic mode, with what arrives of each stream (\<open>recvs\<close>): the streams carry the fragments of
  the reference cut.
\<close>

lemma packet_quic_carried:
  assumes "takes_streams Q opened sent"
    and "packet_header_len addr \<le> 65535" and "length payload + 65535 < usize_modulus" and "payload \<noteq> []"
    and "\<not> splits_evenly_into_last 65535 addr payload" and "frag_count 65535 addr payload \<le> 255"
    and "packet_quic oc U Q payload addr a (c, q) = (res, c', q')"
    and "opened q' = opened q @ new" and "list_all2 (\<lambda>s recv. stream_of (sent q' s) recv) new recvs"
  obtains ds where "res = Returns (Inr ())" and "length ds = length new" and "concat ds = payload"
    and "ds \<noteq> []" and "length ds \<le> 255" and "\<forall>d \<in> set ds. length d \<le> 65535"
    and "\<forall>i < length ds. stream_of (snd (arrival_datagram U
      (0, fst (snd (fragment_arrival a (next_pkt_id c a) addr ds 0 i)), ds ! i))) (recvs ! i)"
proof -
  define ds where "ds = cut_payload 65535 addr payload"
  let ?p = "next_pkt_id c a"
  note sent = packet_quic_sent [OF assms(1-7)]
  have streams: "map (sent q') new = map (fragment_datagram U) (number_items a ?p (of_nat (length ds)) 0 addr ds)"
    using sent assms(8) by (auto simp: ds_def)
  from arg_cong [OF this, of length] have len: "length new = length ds" by simp
  have ds: "ds \<noteq> []" "length ds \<le> 255" "\<forall>d \<in> set ds. length d \<le> 65535" "concat ds = payload"
    unfolding ds_def by (rule cut_payload_sendable [OF _ _ assms(4-6)], simp, simp)+
  have "stream_of (snd (arrival_datagram U (0, fst (snd (fragment_arrival a ?p addr ds 0 i)), ds ! i))) (recvs ! i)"
    if "i < length ds" for i
  proof -
    have "stream_of (sent q' (new ! i)) (recvs ! i)" using assms(9) that len by (simp add: list_all2_conv_all_nth)
    moreover have "sent q' (new ! i) = map (sent q') new ! i" using that len by simp
    ultimately show ?thesis
      using number_items_datagram [OF that ds(2), of U a ?p addr 0] by (simp add: streams fragment_arrival_def)
  qed
  with ds len sent show thesis by (intro that [of ds]) simp_all
qed

lemma quic_packet_received:
  assumes "takes_streams Q opened sent"
    and "packet_header_len addr \<le> 65535" and "length payload + 65535 < usize_modulus" and "payload \<noteq> []"
    and "\<not> splits_evenly_into_last 65535 addr payload" and "frag_count 65535 addr payload \<le> 255"
    and "wf_address addr" and "\<not> address_is_none addr"
    and "packet_quic oc U Q payload addr a (c, q) = (res, c', q')"
    and "opened q' = opened q @ new" and "list_all2 (\<lambda>s recv. stream_of (sent q' s) recv) new recvs"
    and "distinct is" and "set is = {..<length new}" and "length ts = length is"
    and "buffer_at (cn_udp_sessions s) (a, next_pkt_id c a) = None"
  shows "res = Returns (Inr ()) \<and> new \<noteq> [] \<and>
    fst (receive_all (receive_stream oc' U stream_read_exact) (map2 (\<lambda>t i. (t, recvs ! i)) ts is) s) =
      (replicate (length new - 1) (Returns (Inr None)) @ [Returns (Inr (Some (payload, addr, a)))]
        :: ('e, 's, recv_stream) receipt list)"
proof -
  obtain ds where res: "res = Returns (Inr ())" and len: "length ds = length new" and payload: "concat ds = payload"
    and ds: "ds \<noteq> []" "length ds \<le> 255" "\<forall>d \<in> set ds. length d \<le> 65535"
    and carried: "\<forall>i < length ds. stream_of (snd (arrival_datagram U
      (0, fst (snd (fragment_arrival a (next_pkt_id c a) addr ds 0 i)), ds ! i))) (recvs ! i)"
    by (rule packet_quic_carried [OF assms(1-6,9-11)])
  from streams.receive_packet [OF ds assms(7,8,12) _ assms(14,15) carried [rule_format]] assms(13) res payload len ds(1)
  show ?thesis by auto
qed

end
