(* ===== verification/Server_Packets.thy ===== *)
theory Server_Packets
  imports Server_Invariant Tuic_Streams
begin

text \<open>
  The packets of a client through the server's handlers, in datagrams and on streams. The locale
  \<open>packet_handler\<close> is the contract that both handlers keep: what completes a packet has it sent to its
  target, everything else waits. Its fold over a list of arrivals is proved once.
\<close>

section \<open>The tasks that pre-processing hands over\<close>

lemma server_uni_tasks:
  "server_accept_uni_stream U rd recv m = (Inr task, m') \<Longrightarrow>
    (\<exists>auth. task = TaskAuthenticate auth) \<or> (\<exists>rx src. task = TaskPacket rx src) \<or>
    (\<exists>assoc_id. task = TaskDissociate assoc_id)"
  by (auto simp: server_accept_uni_stream_def split: prod.splits sum.splits header.splits)

lemma server_bi_tasks:
  "server_accept_bi_stream U rd send recv m = (Inr task, m') \<Longrightarrow> \<exists>conn s r. task = TaskConnect conn s r"
  by (auto simp: server_accept_bi_stream_def split: prod.splits sum.splits header.splits)

lemma server_datagram_tasks:
  "server_accept_datagram U dg m = (Returns (Inr task), m') \<Longrightarrow>
    (\<exists>rx src. task = TaskPacket rx src) \<or> task = TaskHeartbeat"
  by (auto simp: server_accept_datagram_def outcome_bind_eq_Returns Let_def
      split: prod.splits sum.splits header.splits)

lemma grow_uni_streams_frame:
  assumes "grow_uni_streams A c = (r, c')" and "\<not> overflow_checks A"
  obtains n where "r = Returns ()" and "c' = c\<lparr>sc_max_uni_streams := n, sc_quic_max_uni := n\<rparr> \<or> c' = c"
  using assms by (auto simp: grow_uni_streams_def u32_double_def split: if_splits)

section \<open>An assembled packet to its target\<close>

text \<open>
  A connection that relays packets one way: the invariant holds, it is open and has not relayed the other
  way. What is needed for a packet to be sent: the sockets open, the target's name resolves to an IPv4 address
  first, the socket takes it.
\<close>

definition relays_as :: "'u \<Rightarrow> udp_relay_mode \<Rightarrow> ('u, 'q, 'm) server_conn \<Rightarrow> bool" where
  "relays_as nil mode c \<longleftrightarrow> conn_ok nil c \<and> sc_closed c = None \<and>
     (sc_udp_relay_mode c = None \<or> sc_udp_relay_mode c = Some mode)"

definition can_deliver :: "('u, 'q, 'e, 's, 'r) app \<Rightarrow> bytes \<Rightarrow> address \<Rightarrow> socket_addr \<Rightarrow> bool" where
  "can_deliver A pkt addr target \<longleftrightarrow> sockets_open (lib_sockets A) \<and>
     (\<exists>targets. resolve_dns (lib_lookup_host A) addr = Inr (target # targets)) \<and>
     \<not> socket_addr_is_v6 target \<and> (\<exists>n. lib_send_to A pkt target = Inr n)"

text \<open>
  The one change of a state that sends a packet: it is handed to the UDP session of its association, which is in
  the map, and its bytes are counted.
\<close>

definition delivered ::
    "('u, 'q, 'e, 's, 'r) app \<Rightarrow> 'u \<Rightarrow> bytes \<Rightarrow> u16 \<Rightarrow> socket_addr \<Rightarrow> ('u, 'q, 'm) server_conn \<Rightarrow>
      ('u, 'q, 'm) server_conn \<Rightarrow> bool" where
  "delivered A nil pkt assoc_id target c c' \<longleftrightarrow>
     (\<exists>session. relay_map (sc_udp_sessions c') assoc_id = Some session \<and>
        sc_sent c' = sc_sent c @ [(session, pkt, target)]) \<and>
     sc_restful c' = traffic_tx (cfg_restful A) nil (of_nat (length pkt)) (sc_restful c)"

lemma relays_as_mode: "relays_as nil mode c \<Longrightarrow> relays_as nil mode (c\<lparr>sc_udp_relay_mode := Some mode\<rparr>)"
  by (simp add: relays_as_def conn_ok_mode)

lemma relays_as_frame [conn_frame]:
  "relays_as nil mode (c\<lparr>sc_model := m\<rparr>) = relays_as nil mode c"
  "relays_as nil mode (drop_uni_register c) = relays_as nil mode c"
  by (simp_all add: relays_as_def conn_frame drop_uni_register_def)

lemma relays_as_await: "relays_as nil mode c \<Longrightarrow> await_auth pick c = Authed"
  by (simp add: relays_as_def await_auth_def conn_ok_def auth_settled_def authenticated_wait_ready_def)

lemma relay_for_open:
  assumes "sockets_open S" and "relays_ok s"
  obtains session s' r where "relay_for S v a s = (Inr session, s')" and "relay_map s' a = Some session"
    and "relays s' session = Some r"
proof (cases "relay_map s a")
  case None
  then have "relay_for S v a s = (Inr (relay_next s), (relay_added v a s)\<lparr>relay_map :=
      (relay_map (relay_added v a s))(a \<mapsto> relay_next s)\<rparr>)"
    by (simp add: relay_for_def relay_new_open [OF assms(1)])
  then show thesis by (rule that) (simp_all add: relay_added_def)
next
  case (Some sid)
  then have "relay_for S v a s = (Inr sid, s)" by (simp add: relay_for_def)
  moreover obtain r where "relays s sid = Some r" using Some assms(2) unfolding relays_ok_def by blast
  ultimately show thesis using Some by (intro that)
qed

lemma process_packet_sends:
  fixes c :: "('u, 'q, 'm) server_conn"
  assumes "conn_ok nil c" and "sockets_open (lib_sockets A)"
    and "resolve_dns (lib_lookup_host A) addr = Inr (target # targets)"
    and "\<not> socket_addr_is_v6 target" and "lib_send_to A pkt target = Inr n"
  obtains session udp where "relay_map udp assoc_id = Some session"
    and "process_packet A pkt addr assoc_id c = (Inr False, c\<lparr>sc_udp_sessions := udp,
      sc_restful := traffic_tx (cfg_restful A) nil (of_nat (length pkt)) (sc_restful c),
      sc_sent := sc_sent c @ [(session, pkt, target)]\<rparr>)"
proof -
  obtain session udp r where made: "relay_for (lib_sockets A) (cfg_udp_relay_ipv6 A) assoc_id
      (sc_udp_sessions c) = (Inr session :: ('u, 'm) server_error + nat, udp)"
    and entry: "relay_map udp assoc_id = Some session" and alive: "relays udp session = Some r"
    by (rule relay_for_open [OF assms(2) conn_ok_relays [OF assms(1)]])
  have "relay_send (lib_send_to A) pkt target r = (Inr False :: ('u, 'm) server_error + bool)"
    using assms(4,5) by (simp add: relay_send_def)
  with made alive assms(3) conn_ok_get [OF assms(1)] show thesis
    by (intro that [OF entry]) (simp add: process_packet_unfold Let_def)
qed

lemma handle_packet_sends:
  fixes c :: "('u, 'q, ('e, 's, 'r) quinn_error) server_conn" and A :: "('u, 'q, 'e, 's, 'r) app"
  assumes "relays_as nil mode c" and "can_deliver A pkt addr target" and "\<not> overflow_checks A"
    and "packet_accept (overflow_checks A) (lib_read A) now rx src (sc_model c) =
      (Returns (Inr (Some (pkt, addr, a))) :: ('e, 's, 'r) receipt, m)"
    and "handle_packet A now rx src mode c = (res, c')"
  shows "res = Returns () \<and> sc_udp_relay_mode c' = Some mode \<and> sc_model c' = m \<and>
    delivered A nil pkt a target c c'"
proof -
  let ?c = "c\<lparr>sc_udp_relay_mode := Some mode, sc_model := m\<rparr>"
  have "conn_ok nil ?c" using conn_ok_mode [of nil c mode] assms(1) by (simp add: relays_as_def conn_frame)
  moreover obtain targets n where "sockets_open (lib_sockets A)"
    "resolve_dns (lib_lookup_host A) addr = Inr (target # targets)" "\<not> socket_addr_is_v6 target"
    "lib_send_to A pkt target = Inr n" using assms(2) unfolding can_deliver_def by blast
  ultimately obtain session udp where "relay_map udp a = Some session"
    and "process_packet A pkt addr a ?c = (Inr False, ?c\<lparr>sc_udp_sessions := udp,
      sc_restful := traffic_tx (cfg_restful A) nil (of_nat (length pkt)) (sc_restful ?c),
      sc_sent := sc_sent ?c @ [(session, pkt, target)]\<rparr>)" by (rule process_packet_sends)
  with assms(3-5) show ?thesis by (auto simp: handle_packet_unfold log_fragment_def delivered_def)
qed

lemma handle_packet_waits:
  fixes c :: "('u, 'q, ('e, 's, 'r) quinn_error) server_conn" and A :: "('u, 'q, 'e, 's, 'r) app"
  assumes "\<not> overflow_checks A"
    and "packet_accept (overflow_checks A) (lib_read A) now rx src (sc_model c) =
      (Returns (Inr None) :: ('e, 's, 'r) receipt, m)"
  shows "handle_packet A now rx src mode c = (Returns (), c\<lparr>sc_udp_relay_mode := Some mode, sc_model := m\<rparr>)"
  using assms by (simp add: handle_packet_unfold log_fragment_def)

section \<open>The contract of the handlers\<close>

text \<open>
  A handler \<open>handle\<close> of what carries packets, beside what the protocol makes of it (\<open>receive\<close>): while nothing is
  complete it does nothing that shows, and a packet that is complete is sent, once.
\<close>

locale packet_handler =
  fixes nil :: 'u and A :: "('u, 'q, 'e, 's, 'r) app" and mode :: udp_relay_mode
    and receive :: "'i \<Rightarrow> connection \<Rightarrow> ('e, 's, 'r) receipt \<times> connection"
    and handle :: "'i \<Rightarrow> ('u, 'q, ('e, 's, 'r) quinn_error) server_conn \<Rightarrow>
      unit outcome option \<times> ('u, 'q, ('e, 's, 'r) quinn_error) server_conn"
  assumes waits: "\<not> overflow_checks A \<Longrightarrow> relays_as nil mode c \<Longrightarrow>
      receive i (sc_model c) = (Returns (Inr None), m) \<Longrightarrow> handle i c = (res, c') \<Longrightarrow>
      res = Some (Returns ()) \<and> relays_as nil mode c' \<and> sc_model c' = m \<and> sc_sent c' = sc_sent c \<and>
      sc_restful c' = sc_restful c"
    and sends: "\<not> overflow_checks A \<Longrightarrow> relays_as nil mode c \<Longrightarrow> can_deliver A pkt addr target \<Longrightarrow>
      receive i (sc_model c) = (Returns (Inr (Some (pkt, addr, a))), m) \<Longrightarrow> handle i c = (res, c') \<Longrightarrow>
      res = Some (Returns ()) \<and> sc_udp_relay_mode c' = Some mode \<and> sc_model c' = m \<and>
      delivered A nil pkt a target c c'"
begin

lemma run_all_sends:
  assumes "\<not> overflow_checks A" and "can_deliver A pkt addr target" and "relays_as nil mode c"
    and "fst (run_all receive evs (sc_model c)) =
      replicate k (Returns (Inr None)) @ [Returns (Inr (Some (pkt, addr, a)))]"
    and "run_all handle evs c = (rs, c')"
  shows "rs = replicate (Suc k) (Some (Returns ())) \<and> delivered A nil pkt a target c c'"
  using assms(3-5)
proof (induction k arbitrary: evs c rs)
  case 0
  then obtain i m where evs: "evs = [i]"
    and recv: "receive i (sc_model c) = (Returns (Inr (Some (pkt, addr, a))), m)"
    by (cases evs rule: list.exhaust) (auto split: prod.splits elim: run_all.elims)
  obtain r where handle: "handle i c = (r, c')" "rs = [r]" using 0(3) evs by (auto split: prod.splits)
  show ?case using sends [OF assms(1) 0(1) assms(2) recv handle(1)] handle(2) by simp
next
  case (Suc k)
  obtain i evs' where evs: "evs = i # evs'" using Suc.prems(2) by (cases evs) auto
  obtain m where recv: "receive i (sc_model c) = (Returns (Inr None), m)"
    and rest: "fst (run_all receive evs' m) =
      replicate k (Returns (Inr None)) @ [Returns (Inr (Some (pkt, addr, a)))]"
    using Suc.prems(2) evs by (auto split: prod.splits)
  obtain r c1 rs' where step: "handle i c = (r, c1)" and rs: "rs = r # rs'"
    and run: "run_all handle evs' c1 = (rs', c')"
    using Suc.prems(3) evs by (auto split: prod.splits)
  have one: "r = Some (Returns ())" "relays_as nil mode c1" "sc_model c1 = m" "sc_sent c1 = sc_sent c"
    "sc_restful c1 = sc_restful c"
    using waits [OF assms(1) Suc.prems(1) recv step] by simp_all
  have "rs' = replicate (Suc k) (Some (Returns ())) \<and> delivered A nil pkt a target c1 c'"
    using Suc.IH [OF one(2) _ run] rest one(3) by simp
  with one rs show ?case by (simp add: delivered_def)
qed

end

section \<open>Packets in datagrams\<close>

definition receive_datagram_event ::
    "('u, 'q, 'e, 's, 'r) app \<Rightarrow> nat \<times> bool \<times> bytes \<Rightarrow> connection \<Rightarrow> ('e, 's, 'r) receipt \<times> connection" where
  "receive_datagram_event A ev m =
     (case ev of (now, pick, dg) \<Rightarrow> receive_datagram (overflow_checks A) (lib_uuid A) (lib_read A) now dg m)"

definition handle_datagram_event ::
    "('u, 'q, 'e, 's, 'r) app \<Rightarrow> nat \<times> bool \<times> bytes \<Rightarrow> ('u, 'q, ('e, 's, 'r) quinn_error) server_conn \<Rightarrow>
      unit outcome option \<times> ('u, 'q, ('e, 's, 'r) quinn_error) server_conn" where
  "handle_datagram_event A ev c = (case ev of (now, pick, dg) \<Rightarrow> handle_datagram A now pick dg c)"

lemma handle_datagram_sends:
  fixes c :: "('u, 'q, ('e, 's, 'r) quinn_error) server_conn" and A :: "('u, 'q, 'e, 's, 'r) app"
  assumes "\<not> overflow_checks A" and "relays_as nil Native c" and "can_deliver A pkt addr target"
    and "receive_datagram_event A ev (sc_model c) =
      ((Returns (Inr (Some (pkt, addr, a))), m) :: ('e, 's, 'r) receipt \<times> connection)"
    and "handle_datagram_event A ev c = (res, c')"
  shows "res = Some (Returns ()) \<and> sc_udp_relay_mode c' = Some Native \<and> sc_model c' = m \<and>
    delivered A nil pkt a target c c'"
proof -
  obtain now pick dg where ev: "ev = (now, pick, dg)" by (cases ev)
  obtain rx src m1 where acc: "server_accept_datagram (lib_uuid A) dg (sc_model c) =
      (Returns (Inr (TaskPacket rx src)) :: (('e, 's, 'r) quinn_error + ('u, 's, 'r) task) outcome, m1)"
    and asm: "packet_accept (overflow_checks A) (lib_read A) now rx src m1 =
      (Returns (Inr (Some (pkt, addr, a))) :: ('e, 's, 'r) receipt, m)"
    using assms(4) by (auto simp: receive_datagram_event_def ev receive_datagram_def
        split: prod.splits outcome.splits sum.splits task.splits)
  obtain p c1 where handle: "handle_packet A now rx src Native (c\<lparr>sc_model := m1\<rparr>) = (p, c1)"
    by (rule prod.exhaust)
  have "p = Returns () \<and> sc_udp_relay_mode c1 = Some Native \<and> sc_model c1 = m \<and>
      delivered A nil pkt a target (c\<lparr>sc_model := m1\<rparr>) c1"
    using handle_packet_sends [OF _ assms(3,1) _ handle] assms(2) asm by (simp add: relays_as_frame)
  moreover have "sc_udp_relay_mode c \<noteq> Some Quic" using assms(2) by (auto simp: relays_as_def)
  moreover have "await_auth pick (c\<lparr>sc_model := m1\<rparr>) = Authed"
    using assms(2) by (intro relays_as_await) (simp add: relays_as_frame)
  ultimately show ?thesis
    using assms(5) acc handle
    by (auto simp: handle_datagram_event_def ev handle_datagram_def pre_process_datagram_def delivered_def)
qed

lemma handle_datagram_waits:
  fixes c :: "('u, 'q, ('e, 's, 'r) quinn_error) server_conn" and A :: "('u, 'q, 'e, 's, 'r) app"
  assumes "\<not> overflow_checks A" and "relays_as nil Native c"
    and "receive_datagram_event A ev (sc_model c) =
      ((Returns (Inr None), m) :: ('e, 's, 'r) receipt \<times> connection)"
    and "handle_datagram_event A ev c = (res, c')"
  shows "res = Some (Returns ()) \<and> relays_as nil Native c' \<and> sc_model c' = m \<and> sc_sent c' = sc_sent c \<and>
    sc_restful c' = sc_restful c"
proof -
  obtain now pick dg where ev: "ev = (now, pick, dg)" by (cases ev)
  obtain task m1 where acc: "server_accept_datagram (lib_uuid A) dg (sc_model c) =
      (Returns (Inr task) :: (('e, 's, 'r) quinn_error + ('u, 's, 'r) task) outcome, m1)"
    using assms(3) by (auto simp: receive_datagram_event_def ev receive_datagram_def
        split: prod.splits outcome.splits sum.splits)
  have other: "sc_udp_relay_mode c \<noteq> Some Quic" using assms(2) by (auto simp: relays_as_def)
  have await: "await_auth pick (c\<lparr>sc_model := m1\<rparr>) = Authed"
    using assms(2) by (intro relays_as_await) (simp add: relays_as_frame)
  from server_datagram_tasks [OF acc] show ?thesis
  proof (elim disjE exE)
    fix rx src assume task: "task = TaskPacket rx src"
    with assms(3) acc have "packet_accept (overflow_checks A) (lib_read A) now rx src m1 =
        (Returns (Inr None) :: ('e, 's, 'r) receipt, m)"
      by (simp add: receive_datagram_event_def ev receive_datagram_def)
    then have "handle_packet A now rx src Native (c\<lparr>sc_model := m1\<rparr>) =
        (Returns (), c\<lparr>sc_model := m1, sc_udp_relay_mode := Some Native, sc_model := m\<rparr>)"
      using assms(1) by (intro handle_packet_waits) simp_all
    then show ?thesis
      using assms(2,4) acc task other await relays_as_mode [OF assms(2)]
      by (auto simp: handle_datagram_event_def ev handle_datagram_def pre_process_datagram_def relays_as_frame)
  next
    assume task: "task = TaskHeartbeat"
    with assms(3) acc have "m1 = m" by (simp add: receive_datagram_event_def ev receive_datagram_def)
    then show ?thesis
      using assms(2,4) acc task other await
      by (auto simp: handle_datagram_event_def ev handle_datagram_def pre_process_datagram_def relays_as_frame)
  qed
qed

interpretation datagram_handler: packet_handler nil A Native "receive_datagram_event A" "handle_datagram_event A"
  for nil :: 'u and A :: "('u, 'q, 'e, 's, 'r) app"
  by unfold_locales (rule handle_datagram_waits handle_datagram_sends, assumption+)+

section \<open>Packets on streams\<close>

text \<open>A stream is accepted, which makes its register, and its handler runs.\<close>

definition receive_stream_event ::
    "('u, 'q, 'e, 's, 'r) app \<Rightarrow> nat \<times> bool \<times> 'r \<Rightarrow> connection \<Rightarrow> ('e, 's, 'r) receipt \<times> connection" where
  "receive_stream_event A ev m =
     (case ev of (now, pick, recv) \<Rightarrow> receive_stream (overflow_checks A) (lib_uuid A) (lib_read A) now recv m)"

definition handle_stream_event ::
    "('u, 'q, 'e, 's, 'r) app \<Rightarrow> nat \<times> bool \<times> 'r \<Rightarrow> ('u, 'q, ('e, 's, 'r) quinn_error) server_conn \<Rightarrow>
      unit outcome option \<times> ('u, 'q, ('e, 's, 'r) quinn_error) server_conn" where
  "handle_stream_event A ev c = (case ev of (now, pick, recv) \<Rightarrow>
     (case handle_incoming (IncomingUni (Inr recv) :: ('s, 'r) incoming) c of
        (Inr (SpawnUni recv), c) \<Rightarrow> handle_uni_stream A now False pick recv c
      | (_, c) \<Rightarrow> (None, c)))"

text \<open>The state in which the task of a stream is handled: only the counters of streams have changed.\<close>

definition same_relay :: "('u, 'q, 'm) server_conn \<Rightarrow> ('u, 'q, 'm) server_conn \<Rightarrow> bool" where
  "same_relay c c' \<longleftrightarrow> sc_sent c' = sc_sent c \<and> sc_restful c' = sc_restful c \<and>
     sc_udp_relay_mode c' = sc_udp_relay_mode c \<and> sc_udp_sessions c' = sc_udp_sessions c \<and>
     sc_closed c' = sc_closed c"

lemma stream_handler_starts:
  fixes c :: "('u, 'q, ('e, 's, 'r) quinn_error) server_conn" and A :: "('u, 'q, 'e, 's, 'r) app"
  assumes "\<not> overflow_checks A" and "relays_as nil mode c"
    and "(server_accept_uni_stream (lib_uuid A) (lib_read A) recv (sc_model c) ::
      (('e, 's, 'r) quinn_error + ('u, 's, 'r) task) \<times> connection) = (Inr task, m)"
    and "\<forall>auth. task \<noteq> TaskAuthenticate auth" and "is_packet task \<Longrightarrow> mode = Quic"
  obtains c1 where "relays_as nil mode c1" and "sc_model c1 = m" and "same_relay c c1"
    and "handle_stream_event A (now, pick, recv) c = (case (case task of
           TaskPacket pkt src \<Rightarrow> handle_packet A now pkt src Quic c1
         | TaskDissociate assoc_id \<Rightarrow> (Returns (), handle_dissociate assoc_id c1)
         | _ \<Rightarrow> (Panics Unreachable, c1)) of (r, c) \<Rightarrow> (Some r, drop_uni_register c))"
proof -
  let ?c = "c\<lparr>sc_uni_stream_cnt := sc_uni_stream_cnt c + 1\<rparr>"
  obtain g c0 where grown: "grow_uni_streams A ?c = (g, c0)" by (rule prod.exhaust)
  then obtain n where g: "g = Returns ()"
    and c0: "c0 = ?c\<lparr>sc_max_uni_streams := n, sc_quic_max_uni := n\<rparr> \<or> c0 = ?c"
    by (rule grow_uni_streams_frame [OF _ assms(1)])
  have "conn_ok nil ?c" using assms(2) by (simp add: relays_as_def conn_frame)
  from conn_ok_grow(1) [OF this, of A] have "conn_ok nil c0" unfolding grown by simp
  with assms(2) c0 have relays: "relays_as nil mode (c0\<lparr>sc_model := m\<rparr>)" and same: "same_relay c (c0\<lparr>sc_model := m\<rparr>)"
    and model: "sc_model c0 = sc_model c" and mode: "\<not> (is_packet task \<and> sc_udp_relay_mode c0 = Some Native)"
    using assms(5) by (auto simp: relays_as_def conn_frame same_relay_def)
  note relays_as_await [OF relays, of pick]
  with assms(3,4) mode show thesis
    by (intro that [OF relays _ same])
      (auto simp: handle_stream_event_def handle_incoming_def handle_uni_stream_def grown [simplified] g
        pre_process_uni_def model split: task.split)
qed

lemma handle_stream_sends:
  fixes c :: "('u, 'q, ('e, 's, 'r) quinn_error) server_conn" and A :: "('u, 'q, 'e, 's, 'r) app"
  assumes "\<not> overflow_checks A" and "relays_as nil Quic c" and "can_deliver A pkt addr target"
    and "receive_stream_event A ev (sc_model c) =
      ((Returns (Inr (Some (pkt, addr, a))), m) :: ('e, 's, 'r) receipt \<times> connection)"
    and "handle_stream_event A ev c = (res, c')"
  shows "res = Some (Returns ()) \<and> sc_udp_relay_mode c' = Some Quic \<and> sc_model c' = m \<and>
    delivered A nil pkt a target c c'"
proof -
  obtain now pick recv where ev: "ev = (now, pick, recv)" by (cases ev)
  obtain rx src m1 where acc: "server_accept_uni_stream (lib_uuid A) (lib_read A) recv (sc_model c) =
      (Inr (TaskPacket rx src) :: ('e, 's, 'r) quinn_error + ('u, 's, 'r) task, m1)"
    and asm: "packet_accept (overflow_checks A) (lib_read A) now rx src m1 =
      (Returns (Inr (Some (pkt, addr, a))) :: ('e, 's, 'r) receipt, m)"
    using assms(4) by (auto simp: receive_stream_event_def ev receive_stream_def
        split: prod.splits outcome.splits sum.splits task.splits)
  obtain c1 where c1: "relays_as nil Quic c1" "sc_model c1 = m1" "same_relay c c1"
    and run: "handle_stream_event A (now, pick, recv) c =
      (case handle_packet A now rx src Quic c1 of (r, c) \<Rightarrow> (Some r, drop_uni_register c))"
    by (rule stream_handler_starts [OF assms(1,2) acc, where now = now and pick = pick]) auto
  obtain p c2 where handle: "handle_packet A now rx src Quic c1 = (p, c2)" by (rule prod.exhaust)
  have "p = Returns () \<and> sc_udp_relay_mode c2 = Some Quic \<and> sc_model c2 = m \<and>
      delivered A nil pkt a target c1 c2"
    using handle_packet_sends [OF c1(1) assms(3,1) _ handle] asm c1(2) by simp
  with c1(3) assms(5) run handle show ?thesis
    by (auto simp: ev delivered_def same_relay_def drop_uni_register_def)
qed

lemma handle_stream_waits:
  fixes c :: "('u, 'q, ('e, 's, 'r) quinn_error) server_conn" and A :: "('u, 'q, 'e, 's, 'r) app"
  assumes "\<not> overflow_checks A" and "relays_as nil Quic c"
    and "receive_stream_event A ev (sc_model c) =
      ((Returns (Inr None), m) :: ('e, 's, 'r) receipt \<times> connection)"
    and "handle_stream_event A ev c = (res, c')"
  shows "res = Some (Returns ()) \<and> relays_as nil Quic c' \<and> sc_model c' = m \<and> sc_sent c' = sc_sent c \<and>
    sc_restful c' = sc_restful c"
proof -
  obtain now pick recv where ev: "ev = (now, pick, recv)" by (cases ev)
  obtain task m1 where acc: "server_accept_uni_stream (lib_uuid A) (lib_read A) recv (sc_model c) =
      (Inr task :: ('e, 's, 'r) quinn_error + ('u, 's, 'r) task, m1)"
    and task: "(\<exists>rx src. task = TaskPacket rx src \<and> packet_accept (overflow_checks A) (lib_read A) now rx src m1 =
        (Returns (Inr None) :: ('e, 's, 'r) receipt, m)) \<or> (\<exists>assoc_id. task = TaskDissociate assoc_id \<and> m1 = m)"
    using assms(3) by (auto simp: receive_stream_event_def ev receive_stream_def
        split: prod.splits outcome.splits sum.splits task.splits)
  then have no_auth: "\<forall>auth. task \<noteq> TaskAuthenticate auth" by auto
  obtain c1 where c1: "relays_as nil Quic c1" "sc_model c1 = m1" "same_relay c c1"
    and run: "handle_stream_event A (now, pick, recv) c = (case (case task of
           TaskPacket pkt src \<Rightarrow> handle_packet A now pkt src Quic c1
         | TaskDissociate assoc_id \<Rightarrow> (Returns (), handle_dissociate assoc_id c1)
         | _ \<Rightarrow> (Panics Unreachable, c1)) of (r, c) \<Rightarrow> (Some r, drop_uni_register c))"
    by (rule stream_handler_starts [OF assms(1,2) acc no_auth refl])
  from task show ?thesis
  proof (elim disjE exE conjE)
    fix rx src assume t: "task = TaskPacket rx src" and "packet_accept (overflow_checks A) (lib_read A) now rx src m1 =
        (Returns (Inr None) :: ('e, 's, 'r) receipt, m)"
    then have "handle_packet A now rx src Quic c1 = (Returns (), c1\<lparr>sc_udp_relay_mode := Some Quic, sc_model := m\<rparr>)"
      using assms(1) c1(2) by (intro handle_packet_waits) simp_all
    with t run c1(3) assms(4) relays_as_mode [OF c1(1)] show ?thesis
      by (auto simp: ev same_relay_def relays_as_frame) (auto simp: drop_uni_register_def)
  next
    fix assoc_id assume "task = TaskDissociate assoc_id" and "m1 = m"
    moreover have "relays_as nil Quic (handle_dissociate assoc_id c1)"
      using c1(1) conn_ok_handle_dissociate [of nil c1 assoc_id] by (simp add: relays_as_def handle_dissociate_def)
    ultimately show ?thesis using run c1(2,3) assms(4)
      by (auto simp: ev same_relay_def relays_as_frame) (auto simp: drop_uni_register_def handle_dissociate_def)
  qed
qed

interpretation stream_handler: packet_handler nil A Quic "receive_stream_event A" "handle_stream_event A"
  for nil :: 'u and A :: "('u, 'q, 'e, 's, 'r) app"
  by unfold_locales (rule handle_stream_waits handle_stream_sends, assumption+)+

section \<open>Streams in both directions\<close>

text \<open>A stream is accepted, which makes its register, and its handler runs.\<close>

definition handle_bi_event ::
    "('u, 'q, 'e, 's, 'r) app \<Rightarrow> 't dialer \<Rightarrow> bool \<times> 's \<times> 'r \<Rightarrow> ('u, 'q, ('e, 's, 'r) quinn_error) server_conn \<Rightarrow>
      (stream_call list \<times> connect_error option) outcome option \<times> ('u, 'q, ('e, 's, 'r) quinn_error) server_conn" where
  "handle_bi_event A D ev c = (case ev of (pick, send, recv) \<Rightarrow>
     (case handle_incoming (IncomingBi (Inr (send, recv))) c of
        (Inr (SpawnBi send recv), c) \<Rightarrow> handle_bi_stream A D False pick send recv c
      | (_, c) \<Rightarrow> (None, c)))"

lemma grow_bi_streams_frame:
  assumes "grow_bi_streams A c = (r, c')" and "\<not> overflow_checks A"
  obtains n where "r = Returns ()" and "c' = c\<lparr>sc_max_bi_streams := n, sc_quic_max_bi := n\<rparr> \<or> c' = c"
  using assms by (auto simp: grow_bi_streams_def u32_double_def split: if_splits)

lemma bi_handler_starts:
  fixes c :: "('u, 'q, ('e, 's, 'r) quinn_error) server_conn" and A :: "('u, 'q, 'e, 's, 'r) app"
  assumes "\<not> overflow_checks A" and "conn_ok nil c" and "sc_closed c = None"
    and "(server_accept_bi_stream (lib_uuid A) (lib_read A) send recv (sc_model c) ::
      (('e, 's, 'r) quinn_error + ('u, 's, 'r) task) \<times> connection) = (Inr (TaskConnect conn send' recv'), m)"
  obtains c1 where "conn_ok nil c1" and "sc_model c1 = m" and "same_relay c c1"
    and "handle_bi_event A D (pick, send, recv) c = (case handle_connect A D conn c1 of
       (None, c) \<Rightarrow> (None, c) | (Some ended, c) \<Rightarrow> (Some (Returns ended), drop_bi_register c))"
proof -
  let ?c = "c\<lparr>sc_bi_stream_cnt := sc_bi_stream_cnt c + 1\<rparr>"
  obtain g c0 where grown: "grow_bi_streams A ?c = (g, c0)" by (rule prod.exhaust)
  then obtain n where g: "g = Returns ()"
    and c0: "c0 = ?c\<lparr>sc_max_bi_streams := n, sc_quic_max_bi := n\<rparr> \<or> c0 = ?c"
    by (rule grow_bi_streams_frame [OF _ assms(1)])
  have "conn_ok nil ?c" using assms(2) by (simp add: conn_frame)
  from conn_ok_grow(2) [OF this, of A] have "conn_ok nil c0" unfolding grown by simp
  with assms(3) c0 have ok: "conn_ok nil (c0\<lparr>sc_model := m\<rparr>)" and same: "same_relay c (c0\<lparr>sc_model := m\<rparr>)"
    and model: "sc_model c0 = sc_model c" and opened: "sc_closed c0 = None"
    by (auto simp: conn_frame same_relay_def)
  have "relays_as nil (case sc_udp_relay_mode c0 of None \<Rightarrow> Native | Some mode \<Rightarrow> mode) c0"
    using \<open>conn_ok nil c0\<close> opened by (simp add: relays_as_def split: option.split)
  note await = relays_as_await [OF this, of pick]
  with assms(4) show thesis
    by (intro that [OF ok _ same])
      (auto simp: handle_bi_event_def handle_incoming_def handle_bi_stream_def grown [simplified] g
        pre_process_bi_def model split: option.split)
qed

section \<open>The arrivals of a whole packet\<close>

lemma receive_datagram_events:
  "run_all (receive_datagram_event A) (map2 (\<lambda>(t, pick) i. (t, pick, ws ! i)) ts is) m =
    receive_datagrams (overflow_checks A) (lib_uuid A) (lib_read A) (map2 (\<lambda>t i. (t, ws ! i)) (map fst ts) is) m"
  by (induction ts "is" arbitrary: m rule: list_induct2')
    (auto simp: receive_datagram_event_def split_beta)

lemma receive_stream_events:
  "run_all (receive_stream_event A) (map2 (\<lambda>(t, pick) i. (t, pick, ws ! i)) ts is) m =
    receive_all (receive_stream (overflow_checks A) (lib_uuid A) (lib_read A))
      (map2 (\<lambda>t i. (t, ws ! i)) (map fst ts) is) m"
  by (induction ts "is" arbitrary: m rule: list_induct2')
    (auto simp: receive_stream_event_def split_beta)

end
