(* ===== verification/Server_Handlers.thy ===== *)
theory Server_Handlers
  imports Server_Packets
begin

text \<open>
  What the handlers of a server connection do, in every state that the connection reaches.
\<close>

section \<open>Pre-processing\<close>

lemma pre_process_uni_settled:
  assumes "conn_ok nil c" and "pre_process_uni A timed_out pick recv c = (r, c')"
  shows "r \<noteq> None" and "r = Some (Inr task) \<Longrightarrow>
    (\<exists>rx src. task = TaskPacket rx src) \<or> (\<exists>assoc_id. task = TaskDissociate assoc_id)"
proof -
  have dup: "conn_authenticate A auth (c\<lparr>sc_model := m\<rparr>) = (Inl DuplicatedAuth, c\<lparr>sc_model := m\<rparr>)"
    and waited: "await_auth pick (c\<lparr>sc_model := m\<rparr>) \<noteq> Waiting" for auth m
    using assms(1) by (simp_all add: conn_ok_authenticate conn_ok_waited conn_frame)
  show "r \<noteq> None" and "r = Some (Inr task) \<Longrightarrow>
      (\<exists>rx src. task = TaskPacket rx src) \<or> (\<exists>assoc_id. task = TaskDissociate assoc_id)"
    using assms(2)
    by (auto simp: pre_process_uni_def dup waited split: if_splits prod.splits sum.splits waited.splits
        task.splits dest: server_uni_tasks)
qed

lemma pre_process_bi_settled:
  assumes "conn_ok nil c" and "pre_process_bi A timed_out pick send recv c = (r, c')"
  shows "r \<noteq> None" and "r = Some (Inr task) \<Longrightarrow> \<exists>conn s r. task = TaskConnect conn s r"
  using assms conn_ok_waited [of nil c]
  by (auto simp: pre_process_bi_def conn_frame split: if_splits prod.splits sum.splits waited.splits
      dest: server_bi_tasks)

lemma pre_process_datagram_settled:
  assumes "conn_ok nil c" and "pre_process_datagram A pick dg c = (r, c')"
  shows "r \<noteq> Returns None" and "r = Returns (Some (Inr task)) \<Longrightarrow>
    (\<exists>rx src. task = TaskPacket rx src) \<or> task = TaskHeartbeat"
  using assms conn_ok_waited [of nil "c\<lparr>sc_model := m\<rparr>" for m]
  by (auto simp: pre_process_datagram_def conn_frame Let_def split: if_splits prod.splits sum.splits
      outcome.splits waited.splits dest: server_datagram_tasks)

text \<open>
  C18: the handlers of a connection neither hang in their pre-processing nor reach their \<open>unreachable!()\<close>. In every
  state the connection reaches pre-processing ends (nothing waits for authentication), and a task
  that gets through it is one its handler knows: a packet or a dissociation from a unidirectional
  stream (an \<open>Authenticate\<close> never gets through), a connect from a bidirectional one, a packet or a heartbeat
  from a datagram.
\<close>

theorem handlers_know_their_tasks:
  assumes "reachable (server_fresh nil) server_step c"
  shows "fst (pre_process_uni A timed_out pick recv c) \<noteq> None \<and>
    fst (pre_process_bi A timed_out pick send recv c) \<noteq> None \<and>
    fst (pre_process_datagram A pick dg c) \<noteq> Returns None \<and>
    (fst (pre_process_uni A timed_out pick recv c) = Some (Inr task) \<longrightarrow>
      (\<exists>rx src. task = TaskPacket rx src) \<or> (\<exists>assoc_id. task = TaskDissociate assoc_id)) \<and>
    (fst (pre_process_bi A timed_out pick send recv c) = Some (Inr task) \<longrightarrow>
      (\<exists>conn s r. task = TaskConnect conn s r)) \<and>
    (fst (pre_process_datagram A pick dg c) = Returns (Some (Inr task)) \<longrightarrow>
      (\<exists>rx src. task = TaskPacket rx src) \<or> task = TaskHeartbeat)"
proof -
  have ok: "conn_ok nil c" using assms by (rule server.reachable_inv)
  show ?thesis
    using pre_process_uni_settled [OF ok surjective_pairing, of A timed_out pick recv]
      pre_process_bi_settled [OF ok surjective_pairing, of A timed_out pick send recv]
      pre_process_datagram_settled [OF ok surjective_pairing, of A pick dg] by blast
qed

section \<open>Errors close the connection\<close>

text \<open>
  C32: the two ways of relaying UDP are kept apart. Once a connection relays packets as datagrams, a packet
  on a stream is not relayed: it closes the connection, with code 6000, as coming from an unexpected
  source; so does a packet in a datagram once packets are relayed on streams.
\<close>

theorem other_packet_source_closes:
  fixes c :: "('u, 'q, ('e, 's, 'r) quinn_error) server_conn" and A :: "('u, 'q, 'e, 's, 'r) app"
  assumes "reachable (server_fresh nil) server_step c" and "sc_closed c = None" and "\<not> overflow_checks A"
  shows "(sc_udp_relay_mode c = Some Native \<and>
      server_accept_uni_stream (lib_uuid A) (lib_read A) recv (sc_model c) =
        (Inr (TaskPacket rx src) :: (('e, 's, 'r) quinn_error + ('u, 's, 'r) task), m) \<longrightarrow>
      fst (handle_uni_stream A now False pick recv c) = Some (Returns ()) \<and>
      sc_closes (snd (handle_uni_stream A now False pick recv c)) = sc_closes c @ [(6000, ReasonWith
        ''A serious error occurred at unidirectional stream pre-process stage '' UnexpectedPacketSource)] \<and>
      is_closed (snd (handle_uni_stream A now False pick recv c)) \<and>
      sc_sent (snd (handle_uni_stream A now False pick recv c)) = sc_sent c \<and>
      sc_udp_relay_mode (snd (handle_uni_stream A now False pick recv c)) = Some Native) \<and>
    (sc_udp_relay_mode c = Some Quic \<and>
      server_accept_datagram (lib_uuid A) dg (sc_model c) =
        (Returns (Inr (TaskPacket rx src)) :: (('e, 's, 'r) quinn_error + ('u, 's, 'r) task) outcome, m) \<longrightarrow>
      fst (handle_datagram A now pick dg c) = Some (Returns ()) \<and>
      sc_closes (snd (handle_datagram A now pick dg c)) = sc_closes c @ [(6000, ReasonWith
        ''A serious error occurred at datagram pre-process stage '' UnexpectedPacketSource)] \<and>
      is_closed (snd (handle_datagram A now pick dg c)) \<and>
      sc_sent (snd (handle_datagram A now pick dg c)) = sc_sent c \<and>
      sc_udp_relay_mode (snd (handle_datagram A now pick dg c)) = Some Quic)"
proof -
  have "au_tx (sc_auth c) = False"
    using server.reachable_inv [OF assms(1)] by (simp add: conn_ok_def auth_settled_def)
  obtain g c1 where grown: "grow_uni_streams A c = (g, c1)" by (rule prod.exhaust)
  then obtain n where g: "g = Returns ()"
    and c1: "c1 = c\<lparr>sc_max_uni_streams := n, sc_quic_max_uni := n\<rparr> \<or> c1 = c"
    by (rule grow_uni_streams_frame [OF _ assms(3)])
  show ?thesis
    using assms(2) \<open>au_tx (sc_auth c) = False\<close> c1
    by (auto simp: handle_uni_stream_def pre_process_uni_def grown g await_auth_def
        authenticated_wait_ready_def conn_close_def drop_uni_register_def is_closed_def ERROR_CODE_def
        handle_datagram_def pre_process_datagram_def)
qed

text \<open>
  A client that sends an \<open>Authenticate\<close>, whatever user and token it carries, has its connection closed, with
  code 6000 and the error of a duplicated authentication.
\<close>

theorem authenticate_closes_connection:
  fixes c :: "('u, 'q, ('e, 's, 'r) quinn_error) server_conn" and A :: "('u, 'q, 'e, 's, 'r) app"
  assumes "reachable (server_fresh nil) server_step c" and "\<not> overflow_checks A"
    and "server_accept_uni_stream (lib_uuid A) (lib_read A) recv (sc_model c) =
      (Inr (TaskAuthenticate auth) :: (('e, 's, 'r) quinn_error + ('u, 's, 'r) task), m)"
  shows "fst (handle_uni_stream A now False pick recv c) = Some (Returns ()) \<and>
    sc_closes (snd (handle_uni_stream A now False pick recv c)) = sc_closes c @ [(6000, ReasonWith
      ''A serious error occurred at unidirectional stream pre-process stage '' DuplicatedAuth)] \<and>
    is_closed (snd (handle_uni_stream A now False pick recv c))"
proof -
  have ok: "conn_ok nil c" using assms(1) by (rule server.reachable_inv)
  obtain g c1 where grown: "grow_uni_streams A c = (g, c1)" by (rule prod.exhaust)
  then obtain n where g: "g = Returns ()"
    and c1: "c1 = c\<lparr>sc_max_uni_streams := n, sc_quic_max_uni := n\<rparr> \<or> c1 = c"
    by (rule grow_uni_streams_frame [OF _ assms(2)])
  have "conn_ok nil (c1\<lparr>sc_model := m\<rparr>)"
    using conn_ok_grow(1) [OF ok, of A] grown by (simp add: conn_frame)
  note dup = conn_ok_authenticate [OF this]
  have "sc_model c1 = sc_model c" "sc_closes c1 = sc_closes c" using c1 by auto
  with assms(3) show ?thesis
    by (auto simp: handle_uni_stream_def pre_process_uni_def grown g dup conn_close_def
        drop_uni_register_def is_closed_def ERROR_CODE_def split: option.split)
qed

section \<open>Packets\<close>

text \<open>
  C12: a datagram, or a stream, that completes a packet has it sent to its target. In every state the
  connection reaches, if it is open and does not relay the other way, the sockets open, the
  target resolves to an IPv4 address and its socket takes the packet, then the assembled packet is handed, once, to the
  UDP session of its association, which is in the connection's map, with the first address resolved;
  its bytes are counted for the user, and the connection relays that way from then on.
\<close>

theorem packet_reaches_target:
  fixes c :: "('u, 'q, ('e, 's, 'r) quinn_error) server_conn" and A :: "('u, 'q, 'e, 's, 'r) app"
  assumes "reachable (server_fresh nil) server_step c" and "sc_closed c = None"
    and "\<not> overflow_checks A" and "can_deliver A pkt addr target"
    and "case arrival of
        Inl ev \<Rightarrow> sc_udp_relay_mode c \<noteq> Some Quic \<and> handle_datagram_event A ev c = (res, c') \<and>
          (receive_datagram_event A ev (sc_model c) :: ('e, 's, 'r) receipt \<times> connection) =
            (Returns (Inr (Some (pkt, addr, assoc_id))), m)
      | Inr ev \<Rightarrow> sc_udp_relay_mode c \<noteq> Some Native \<and> handle_stream_event A ev c = (res, c') \<and>
          (receive_stream_event A ev (sc_model c) :: ('e, 's, 'r) receipt \<times> connection) =
            (Returns (Inr (Some (pkt, addr, assoc_id))), m)"
  shows "res = Some (Returns ()) \<and> sc_model c' = m \<and> delivered A nil pkt assoc_id target c c' \<and>
    sc_udp_relay_mode c' = Some (case arrival of Inl _ \<Rightarrow> Native | Inr _ \<Rightarrow> Quic)"
proof -
  have ok: "conn_ok nil c" using assms(1) by (rule server.reachable_inv)
  have mode: "m = None \<or> m = Some Native \<or> m = Some Quic" for m by (metis option.exhaust udp_relay_mode.exhaust)
  show ?thesis
  proof (cases arrival)
    case (Inl ev)
    with assms(5) ok assms(2) mode [of "sc_udp_relay_mode c"] have "relays_as nil Native c"
      by (auto simp: relays_as_def)
    from datagram_handler.sends [OF assms(3) this assms(4), of ev] assms(5) Inl show ?thesis by auto
  next
    case (Inr ev)
    with assms(5) ok assms(2) mode [of "sc_udp_relay_mode c"] have "relays_as nil Quic c"
      by (auto simp: relays_as_def)
    from stream_handler.sends [OF assms(3) this assms(4), of ev] assms(5) Inr show ?thesis by auto
  qed
qed

section \<open>Packets from outside\<close>

text \<open>
  A packet that a UDP session receives never finds the way of relaying unknown. In every state the
  connection reaches with a session that is not gone, a mode is set, so the \<open>unwrap\<close>s of \<open>relay_packet\<close>
  do not panic: it does what the transmission in that mode does, and counts the bytes.
\<close>

theorem relay_packet_knows_mode:
  fixes c :: "('u, 'q, ('e, 's, 'r) quinn_error) server_conn" and A :: "('u, 'q, 'e, 's, 'r) app"
  assumes "reachable (server_fresh nil) server_step c" and "relays (sc_udp_sessions c) sid = Some r"
    and "relay_packet A pkt addr (relay_assoc_id r) c = (res, c')"
  shows "\<exists>mode. sc_udp_relay_mode c = Some mode \<and>
    (case (case mode of
        Native \<Rightarrow> packet_native (overflow_checks A) (lib_uuid A) (lib_quic A) pkt addr (relay_assoc_id r)
          (sc_model c, sc_quic c)
      | Quic \<Rightarrow> packet_quic (overflow_checks A) (lib_uuid A) (lib_quic A) pkt addr (relay_assoc_id r)
          (sc_model c, sc_quic c)) of
      (sent, m, q) \<Rightarrow> res = outcome_bind sent (\<lambda>_. Returns (Inr ())) \<and> sc_model c' = m \<and> sc_quic c' = q) \<and>
    sc_restful c' = traffic_rx (cfg_restful A) nil (of_nat (length pkt)) (sc_restful c)"
proof -
  have ok: "conn_ok nil c" using assms(1) by (rule server.reachable_inv)
  then obtain mode where "sc_udp_relay_mode c = Some mode"
    using assms(2) by (auto simp: conn_ok_def udp_ok_def relays_ok_def)
  then show ?thesis
    using assms(3) conn_ok_get [OF ok]
    by (cases mode) (auto simp: relay_packet_def Let_def split: prod.splits)
qed

section \<open>TCP streams\<close>

lemma dial_first:
  "\<forall>a \<in> set unreachable. isl (tcp_connect D a) \<Longrightarrow> tcp_connect D addr = Inr s \<Longrightarrow>
    set_nodelay D s = Inr () \<Longrightarrow> dial D (unreachable @ addr # addrs) last_err = Dialled s"
  by (induction unreachable arbitrary: last_err) (auto split: sum.split)

lemma dial_none:
  "(\<And>a. a \<in> set addrs \<Longrightarrow> tcp_connect D a = Inl (err a)) \<Longrightarrow>
    dial D addrs last_err = NotDialled (if addrs = [] then last_err else Some (err (last addrs)))"
  by (induction addrs arbitrary: last_err) auto

lemma handle_connect_relays:
  assumes "conn_ok nil c"
    and "resolve_dns (lib_lookup_host A) (crx_addr conn) = Inr (unreachable @ reached)"
    and "\<And>a. a \<in> set unreachable \<Longrightarrow> tcp_connect D a = Inl (err a)"
    and "\<And>target rest. reached = target # rest \<Longrightarrow> tcp_connect D target = Inr s \<and> set_nodelay D s = Inr () \<and>
      tcp_turns D s = ts @ t # later \<and> (\<forall>t \<in> set ts. \<not> ends_loop t) \<and> ends_loop t"
  shows "handle_connect A D conn c = (case reached of
     [] \<Rightarrow> (Some ([ShutdownClient], Some (ConnectIo (if unreachable = []
             then NotFound ''no address resolved'' else err (last unreachable)))),
           c\<lparr>sc_model := connection_drop_connect (sc_model c)\<rparr>)
   | _ \<Rightarrow> (Some ([if turn_error t = None then FinishClient else ResetClient 6000, ShutdownTarget],
             map_option ConnectIo (turn_error t)),
           c\<lparr>sc_model := connection_drop_connect (sc_model c),
             sc_restful := traffic_rx (cfg_restful A) nil (of_nat (length (from_target (ts @ [t]))))
               (traffic_tx (cfg_restful A) nil (of_nat (length (from_client (ts @ [t])))) (sc_restful c))\<rparr>))"
proof (cases reached)
  case Nil
  with assms(2) dial_none [of unreachable D err None] assms(3) show ?thesis
    by (auto simp: handle_connect_def)
next
  case (Cons target rest)
  note reached = assms(4) [OF Cons]
  have "dial D (unreachable @ target # rest) None = Dialled s"
    using assms(3) reached by (intro dial_first) auto
  moreover have "exchange_tcp (tcp_turns D s) =
      Some (length (from_client (ts @ [t])), length (from_target (ts @ [t])), turn_error t)"
    using reached by (simp add: exchange_tcp_def exchange_loop_outcome)
  moreover have "authenticated_get (sc_auth c) = Some nil"
    using assms(1) by (rule conn_ok_get)
  ultimately show ?thesis
    using assms(2) Cons by (simp add: handle_connect_def Let_def ERROR_CODE_def)
qed

text \<open>
  C13: a \<open>Connect\<close> goes to the first address of its target that accepts a connection. Then, until the first turn
  that ends the exchange, what is read of either side, and nothing else, is handed in order to the writer of the
  other; the client's stream is finished, or reset with code 6000 on an error, the target's is shut down, the
  bytes of both directions are counted for the user, and the command is dropped. When no address accepts, the stream is shut down
  with the error of the last one, or that none was resolved.
\<close>

theorem connect_relays_to_first_reachable:
  assumes "reachable (server_fresh nil) server_step c"
    and "resolve_dns (lib_lookup_host A) (crx_addr conn) = Inr (unreachable @ reached)"
    and "\<And>a. a \<in> set unreachable \<Longrightarrow> tcp_connect D a = Inl (err a)"
    and "\<And>target rest. reached = target # rest \<Longrightarrow> tcp_connect D target = Inr s \<and> set_nodelay D s = Inr () \<and>
      tcp_turns D s = ts @ t # later \<and> (\<forall>t \<in> set ts. \<not> ends_loop t) \<and> ends_loop t"
  shows "handle_connect A D conn c = (case reached of
     [] \<Rightarrow> (Some ([ShutdownClient], Some (ConnectIo (if unreachable = []
             then NotFound ''no address resolved'' else err (last unreachable)))),
           c\<lparr>sc_model := connection_drop_connect (sc_model c)\<rparr>)
   | _ \<Rightarrow> (Some ([if turn_error t = None then FinishClient else ResetClient 6000, ShutdownTarget],
             map_option ConnectIo (turn_error t)),
           c\<lparr>sc_model := connection_drop_connect (sc_model c),
             sc_restful := traffic_rx (cfg_restful A) nil (of_nat (length (from_target (ts @ [t]))))
               (traffic_tx (cfg_restful A) nil (of_nat (length (from_client (ts @ [t])))) (sc_restful c))\<rparr>)) \<and>
    (reached \<noteq> [] \<longrightarrow> dial D (unreachable @ reached) None = Dialled s \<and>
      to_target (fst (exchange_loop (tcp_turns D s) exchange_start)) = from_client (ts @ [t]) \<and>
      to_client (fst (exchange_loop (tcp_turns D s) exchange_start)) = from_target (ts @ [t]))"
proof (rule conjI)
  show "reached \<noteq> [] \<longrightarrow> dial D (unreachable @ reached) None = Dialled s \<and>
      to_target (fst (exchange_loop (tcp_turns D s) exchange_start)) = from_client (ts @ [t]) \<and>
      to_client (fst (exchange_loop (tcp_turns D s) exchange_start)) = from_target (ts @ [t])"
  proof
    assume "reached \<noteq> []"
    then obtain target rest where reached: "reached = target # rest" by (cases reached) auto
    from assms(3) assms(4) [OF reached] show "dial D (unreachable @ reached) None = Dialled s \<and>
        to_target (fst (exchange_loop (tcp_turns D s) exchange_start)) = from_client (ts @ [t]) \<and>
        to_client (fst (exchange_loop (tcp_turns D s) exchange_start)) = from_target (ts @ [t])"
      by (auto simp: reached exchange_loop_outcome intro!: dial_first)
  qed
qed (rule handle_connect_relays [OF server.reachable_inv [OF assms(1)] assms(2)], erule assms(3), erule assms(4))

section \<open>The properties on a concrete connection\<close>

text \<open>
  A server whose sockets open and whose lookups answer 127.0.0.1, over a transport that takes
  datagrams only, with one user; a connection of it when it is new, and after a packet in a datagram.
\<close>

definition localhost :: socket_addr where
  "localhost = SocketV4 (Ipv4 127 0 0 1) 53"

definition demo_quic :: "(bytes list, string, unit, recv_stream) quic" where
  "demo_quic = \<lparr>max_datagram_size = (\<lambda>_. Some 1200), send_datagram = (\<lambda>dg q. (Inr (), q @ [dg])),
     datagram_disabled = ''disabled'', open_uni = (\<lambda>q. (Inl ''closed'', q)),
     open_bi = (\<lambda>q. (Inl ''closed'', q)), poll_write_all = (\<lambda>_ _ q. (Inl UnexpectedEof, q)),
     write_all = (\<lambda>_ _ q. (Inl ''closed'', q)), finish = (\<lambda>_ q. (Inl ''closed'', q)),
     export_keying_material = (\<lambda>_ _ _ _. Inl ''closed'')\<rparr>"

definition demo_app :: "(bytes, bytes list, string, unit, recv_stream) app" where
  "demo_app = \<lparr>overflow_checks = False, logs_info = True, logs_warn = True,
     cfg_users = [replicate 16 1 \<mapsto> [7]], cfg_restful = None, cfg_udp_relay_ipv6 = False,
     cfg_gc_lifetime = 15, lib_uuid = bytes_uuid_lib, lib_quic = demo_quic,
     lib_read = stream_read_exact, lib_upsert = map_upsert, lib_sockets = open_sockets,
     lib_lookup_host = (\<lambda>_ _. Inr [localhost]), lib_send_to = (\<lambda>pkt _. Inr (length pkt))\<rparr>"

type_synonym demo_conn = "(bytes, bytes list, (string, unit, recv_stream) quinn_error) server_conn"

definition demo_new :: demo_conn where
  "demo_new = server_conn_new (replicate 16 0) [] (restful_start [replicate 16 1 \<mapsto> [7 :: u8]])"

definition demo_packet :: packet_rx where
  "demo_packet = packet_rx_new 3 1 1 0 2 (DomainAddress [97] 53)"

definition demo_datagram :: bytes where
  "demo_datagram = fragment_datagram bytes_uuid_lib
     (Packet (packet_header_new 3 1 1 0 2 (DomainAddress [97] 53)), [8, 9])"

definition demo_relaying :: demo_conn where
  "demo_relaying = snd (handle_packet demo_app 0 demo_packet (SourceNative [8, 9]) Native demo_new)"

lemma demo_reachable:
  "reachable (server_fresh (replicate 16 0)) server_step demo_new"
  "reachable (server_fresh (replicate 16 0)) server_step demo_relaying"
proof -
  show new: "reachable (server_fresh (replicate 16 0)) server_step demo_new"
    by (rule reachable_init) (auto simp: server_fresh_def demo_new_def)
  show "reachable (server_fresh (replicate 16 0)) server_step demo_relaying"
    unfolding demo_relaying_def by (rule reachable_step [OF new step_packet])
qed

lemma demo_app_simps [simp]:
  "overflow_checks demo_app = False" "sockets_open (lib_sockets demo_app)"
  "lib_send_to demo_app pkt a = Inr (length pkt)" "lib_lookup_host demo_app d p = Inr [localhost]"
  by (simp_all add: demo_app_def open_sockets_open)

theorem handlers_know_their_tasks_witness:
  "fst (pre_process_uni demo_app False True \<lparr>stream_chunks = [[5, 3, 0, 3]], stream_end = UnexpectedEof\<rparr>
     demo_relaying) \<noteq> None"
  using handlers_know_their_tasks [OF demo_reachable(2)] by blast

theorem other_packet_source_closes_witness:
  "is_closed (snd (handle_uni_stream demo_app 0 False True
     \<lparr>stream_chunks = [demo_datagram], stream_end = UnexpectedEof\<rparr> demo_relaying))"
proof -
  let ?recv = "\<lparr>stream_chunks = [demo_datagram], stream_end = UnexpectedEof\<rparr>"
  let ?acc = "server_accept_uni_stream (lib_uuid demo_app) (lib_read demo_app) ?recv
    (sc_model demo_relaying) :: ((string, unit, recv_stream) quinn_error + (bytes, unit, recv_stream) task) \<times> _"
  have mode: "sc_udp_relay_mode demo_relaying = Some Native" and "sc_closed demo_relaying = None"
    by code_simp+
  have "fst ?acc = Inr (TaskPacket demo_packet (SourceQuic \<lparr>stream_chunks = [[8, 9]], stream_end = UnexpectedEof\<rparr>))"
    by code_simp
  then have acc: "?acc = (Inr (TaskPacket demo_packet
      (SourceQuic \<lparr>stream_chunks = [[8, 9]], stream_end = UnexpectedEof\<rparr>)), snd ?acc)"
    by (metis prod.collapse)
  have "\<not> overflow_checks demo_app" by simp
  from other_packet_source_closes [OF demo_reachable(2) \<open>sc_closed demo_relaying = None\<close> this]
    mode acc show ?thesis by blast
qed

theorem authenticate_closes_connection_witness:
  "is_closed (snd (handle_uni_stream demo_app 0 False True
     \<lparr>stream_chunks = [[5, 0], replicate 16 1, replicate 32 9], stream_end = UnexpectedEof\<rparr> demo_new))"
proof -
  let ?recv = "\<lparr>stream_chunks = [[5, 0], replicate 16 1, replicate 32 9], stream_end = UnexpectedEof\<rparr>"
  let ?auth = "\<lparr>arx_uuid = replicate 16 1, arx_token = replicate 32 9\<rparr>"
  let ?acc = "server_accept_uni_stream (lib_uuid demo_app) (lib_read demo_app) ?recv
    (sc_model demo_new) :: ((string, unit, recv_stream) quinn_error + (bytes, unit, recv_stream) task) \<times> _"
  have "fst ?acc = Inr (TaskAuthenticate ?auth)" by code_simp
  then have acc: "?acc = (Inr (TaskAuthenticate ?auth), snd ?acc)" by (metis prod.collapse)
  have "\<not> overflow_checks demo_app" by simp
  from authenticate_closes_connection [OF demo_reachable(1) this acc] show ?thesis by blast
qed

text \<open>A target that can be reached over IPv4, and a packet for it as a stream carries it.\<close>

lemma demo_deliver: "can_deliver demo_app pkt (DomainAddress d p) localhost"
  by (simp add: can_deliver_def resolve_dns_def) (simp add: localhost_def)

theorem packet_reaches_target_witness:
  "\<exists>session. sc_sent (snd (handle_stream_event demo_app
      (0, True, \<lparr>stream_chunks = [take 5 demo_datagram, drop 5 demo_datagram], stream_end = UnexpectedEof\<rparr>)
      demo_new)) = [(session, [8, 9], localhost)]"
proof -
  let ?ev = "(0, True, \<lparr>stream_chunks = [take 5 demo_datagram, drop 5 demo_datagram], stream_end = UnexpectedEof\<rparr>)
    :: nat \<times> bool \<times> recv_stream"
  let ?recv = "receive_stream_event demo_app ?ev (sc_model demo_new) :: (string, unit, recv_stream) receipt \<times> connection"
  have "fst ?recv = Returns (Inr (Some ([8, 9], DomainAddress [97] 53, 3)))" by code_simp
  then obtain m where recv: "?recv = (Returns (Inr (Some ([8, 9], DomainAddress [97] 53, 3))), m)"
    by (metis prod.collapse)
  have new: "sc_closed demo_new = None" "sc_udp_relay_mode demo_new = None" "sc_sent demo_new = []"
    by (simp_all add: demo_new_def server_conn_new_def)
  have "\<not> overflow_checks demo_app" by simp
  from packet_reaches_target [OF demo_reachable(1) new(1) this demo_deliver,
      where arrival = "Inr ?ev" and res = "fst (handle_stream_event demo_app ?ev demo_new)" and
        c' = "snd (handle_stream_event demo_app ?ev demo_new)"]
    recv new(2,3)
  show ?thesis by (auto simp: delivered_def)
qed

theorem relay_packet_knows_mode_witness:
  "\<exists>r mode. relays (sc_udp_sessions demo_relaying) 0 = Some r \<and> sc_udp_relay_mode demo_relaying = Some mode"
proof -
  have "relays (sc_udp_sessions demo_relaying) 0 = Some \<lparr>relay_assoc_id = 3, relay_socket_v6 = False,
      relay_close = True, relay_told = False, relay_listener = Listening\<rparr>" by code_simp
  note session = this
  from relay_packet_knows_mode [OF demo_reachable(2) session surjective_pairing, of demo_app "[1]" NoAddress]
  show ?thesis using session by blast
qed

text \<open>A dialer that reaches only 127.0.0.1, which answers what the client sends and ends.\<close>

definition demo_dialer :: "unit dialer" where
  "demo_dialer = \<lparr>tcp_connect = (\<lambda>a. if a = localhost then Inr () else Inl (OtherError ''refused'')),
     set_nodelay = (\<lambda>_. Inr ()), tcp_turns = (\<lambda>_. [ReadClient (Inr (Some [1, 2])) (Inr ()),
       ReadTarget (Inr [3]) (Inr ()), ReadTarget (Inr []) (Inr ())])\<rparr>"

theorem connect_relays_to_first_reachable_witness:
  "fst (handle_connect demo_app demo_dialer \<lparr>crx_addr = DomainAddress [97] 80\<rparr> demo_new) =
    Some ([FinishClient, ShutdownTarget], None) \<and>
    to_target (fst (exchange_loop (tcp_turns demo_dialer ()) exchange_start)) = [1, 2] \<and>
    to_client (fst (exchange_loop (tcp_turns demo_dialer ()) exchange_start)) = [3]"
proof -
  let ?ts = "[ReadClient (Inr (Some [1, 2])) (Inr ()), ReadTarget (Inr [3]) (Inr ())] :: io_error turn list"
  let ?t = "ReadTarget (Inr []) (Inr ()) :: io_error turn"
  have "resolve_dns (lib_lookup_host demo_app) (crx_addr \<lparr>crx_addr = DomainAddress [97] 80\<rparr>) =
      Inr ([] @ [localhost])" by (simp add: resolve_dns_def)
  note relays = connect_relays_to_first_reachable [OF demo_reachable(1) this,
      where D = demo_dialer and ts = ?ts and t = ?t and later = "[]" and s = "()"
        and err = "\<lambda>_. UnexpectedEof"]
  have "tcp_connect demo_dialer localhost = Inr () \<and> set_nodelay demo_dialer () = Inr () \<and>
      tcp_turns demo_dialer () = ?ts @ ?t # []" by (simp add: demo_dialer_def)
  then show ?thesis using relays by simp
qed

end
