(* ===== verification/Client_Udp.thy ===== *)
theory Client_Udp
  imports Tuic_Quinn
begin

text \<open>
  The UDP associations of the client's SOCKS5 server: \<^verbatim>\<open>tuic-client/src/socks5/udp_session.rs\<close> and the
  error type of \<^verbatim>\<open>tuic-client/src/error.rs\<close>. The sockets and the SOCKS5 datagram format are library
  code (socket2, socks5-server): what their calls return is a parameter.
\<close>

section \<open>Errors\<close>

text \<open>\<open>'m\<close> are the errors of TUIC over QUIC; the errors of quinn, rustls and anyhow are texts.\<close>

datatype 'm client_error =
    ClientIo io_error
  | ConnectError string
  | ClientModel 'm
  | ClientRustls string
  | ClientSocket string io_error
  | ClientTimeout
  | DnsResolve
  | WrongPacketSource
  | InvalidSocks5Auth
  | ClientOther string

section \<open>Sessions\<close>

text \<open>
  An address of the SOCKS5 protocol, and the state of a session's socket: the address that its
  \<open>peer_addr\<close> reports once it is connected, and the packets it was given to send.
\<close>

datatype socks_address = SocksDomain bytes u16 | SocksSocket socket_addr

record socks_session =
  sk_assoc_id :: u16
  sk_ctrl_addr :: socket_addr
  sk_peer :: "socket_addr option"
  sk_sent :: "(bytes \<times> socks_address) list"

record socks_sockets =
  sk_new :: "bool \<Rightarrow> io_error + unit"
  sk_set_only_v6 :: "bool \<Rightarrow> io_error + unit"
  sk_set_nonblocking :: "io_error + unit"
  sk_bind :: "ip_addr \<Rightarrow> io_error + unit"
  sk_from_std :: "io_error + unit"

definition ip_is_v6 :: "ip_addr \<Rightarrow> bool" where
  "ip_is_v6 ip = (case ip of IpV4 _ \<Rightarrow> False | IpV6 _ \<Rightarrow> True)"

definition socks_session_new ::
    "socks_sockets \<Rightarrow> u16 \<Rightarrow> socket_addr \<Rightarrow> ip_addr \<Rightarrow> bool option \<Rightarrow> 'm client_error + socks_session" where
  "socks_session_new S assoc_id ctrl_addr local_ip dual_stack =
     try_bind (map_err (ClientSocket ''failed to create socks5 server UDP associate socket'')
       (sk_new S (ip_is_v6 local_ip))) (\<lambda>_.
     try_bind (case dual_stack of None \<Rightarrow> Inr () | Some dual_stack \<Rightarrow>
       map_err (ClientSocket ''socks5 server UDP associate dual-stack socket setting error'')
         (sk_set_only_v6 S (\<not> dual_stack))) (\<lambda>_.
     try_bind (map_err (ClientSocket ''failed setting socks5 server UDP associate socket as non-blocking'')
       (sk_set_nonblocking S)) (\<lambda>_.
     try_bind (map_err (ClientSocket ''failed to bind socks5 server UDP associate socket'')
       (sk_bind S local_ip)) (\<lambda>_.
     try_bind (map_err (ClientSocket ''failed to create socks5 server UDP associate socket'')
       (sk_from_std S)) (\<lambda>_.
     Inr \<lparr>sk_assoc_id = assoc_id, sk_ctrl_addr = ctrl_addr, sk_peer = None, sk_sent = []\<rparr>)))))"

text \<open>
  \<open>send\<close>: the log lines show the peer's address, which there is only after the session has received
  something: the first one when the level \<open>debug\<close> is on, the second one when sending fails and \<open>warn\<close>
  is on. \<open>sent\<close> is the result of the socket.
\<close>

definition socks_session_send ::
    "bool \<Rightarrow> bool \<Rightarrow> io_error + unit \<Rightarrow> bytes \<Rightarrow> socks_address \<Rightarrow> socks_session \<Rightarrow>
      ('m client_error + unit) outcome \<times> socks_session" where
  "socks_session_send logs_debug logs_warn sent pkt src_addr s =
     (if logs_debug \<and> sk_peer s = None then (Panics UnwrapErr, s)
      else (case sent of
        Inl err \<Rightarrow> (if logs_warn \<and> sk_peer s = None then Panics UnwrapErr
                   else Returns (Inl (ClientIo err)), s)
      | Inr _ \<Rightarrow> (Returns (Inr ()), s\<lparr>sk_sent := sk_sent s @ [(pkt, src_addr)]\<rparr>)))"

section \<open>Receiving from the SOCKS5 client\<close>

text \<open>\<open>Ipv4Addr::to_ipv6_mapped\<close> and \<open>Ipv6Addr::to_ipv4_mapped\<close> of the standard library.\<close>

fun to_ipv6_mapped :: "ipv4 \<Rightarrow> ipv6" where
  "to_ipv6_mapped (Ipv4 a b c d) =
     Ipv6 0 0 0 0 0 65535 (push_bit 8 (ucast a) OR ucast b) (push_bit 8 (ucast c) OR ucast d)"

fun to_ipv4_mapped :: "ipv6 \<Rightarrow> ipv4 option" where
  "to_ipv4_mapped (Ipv6 s0 s1 s2 s3 s4 s5 s6 s7) =
     (if s0 = 0 \<and> s1 = 0 \<and> s2 = 0 \<and> s3 = 0 \<and> s4 = 0 \<and> s5 = 65535
      then Some (Ipv4 (ucast (drop_bit 8 s6)) (ucast s6) (ucast (drop_bit 8 s7)) (ucast s7)) else None)"

text \<open>The connected address in the family of the source it is compared with.\<close>

fun connected_as :: "socket_addr \<Rightarrow> socket_addr \<Rightarrow> socket_addr" where
  "connected_as (SocketV4 ip port) (SocketV6 _ _ _ _) = SocketV6 (to_ipv6_mapped ip) port 0 0"
| "connected_as (SocketV4 ip port) (SocketV4 _ _) = SocketV4 ip port"
| "connected_as (SocketV6 ip port flow scp) (SocketV4 _ _) = (case to_ipv4_mapped ip of
     Some ip \<Rightarrow> SocketV4 ip port | None \<Rightarrow> SocketV6 ip port flow scp)"
| "connected_as (SocketV6 ip port flow scp) (SocketV6 _ _ _ _) = SocketV6 ip port flow scp"

text \<open>
  \<open>recv\<close>: \<open>received\<close> is what the socket's \<open>recv_from\<close> returns (payload, fragment number, target and
  source), \<open>connect\<close> what connecting it to a source does: an error, or the address its \<open>peer_addr\<close>
  then reports. \<open>display\<close> renders an address.
\<close>

definition socks_session_recv ::
    "(socket_addr \<Rightarrow> string) \<Rightarrow> (socket_addr \<Rightarrow> io_error + socket_addr) \<Rightarrow>
      io_error + bytes \<times> u8 \<times> socks_address \<times> socket_addr \<Rightarrow> socks_session \<Rightarrow>
      ('m client_error + bytes \<times> socks_address) \<times> socks_session" where
  "socks_session_recv display connect received s =
     (case received of Inl e \<Rightarrow> (Inl (ClientIo e), s)
      | Inr (pkt, frag, dst_addr, src_addr) \<Rightarrow>
     (case (case sk_peer s of
              Some connected_addr \<Rightarrow>
                if src_addr \<noteq> connected_as connected_addr src_addr
                then (Inl (ClientIo (OtherError (''invalid source address: '' @ display src_addr))), s)
                else (Inr (), s)
            | None \<Rightarrow> (case connect src_addr of Inl e \<Rightarrow> (Inl (ClientIo e), s)
                | Inr peer \<Rightarrow> (Inr (), s\<lparr>sk_peer := Some peer\<rparr>))) of
        (Inl e, s) \<Rightarrow> (Inl e, s)
      | (Inr _, s) \<Rightarrow>
          (if frag \<noteq> 0 then Inl (ClientIo (OtherError ''fragmented packet is not supported''))
           else Inr (pkt, dst_addr), s)))"

section \<open>The mapped addresses\<close>

lemma to_ipv4_mapped_mapped [simp]: "to_ipv4_mapped (to_ipv6_mapped ip) = Some ip"
proof (cases ip)
  case (Ipv4 a b c d)
  have "ucast (drop_bit 8 (push_bit 8 (ucast x) OR ucast y :: u16)) = x"
    and "ucast (push_bit 8 (ucast x) OR ucast y :: u16) = y" for x y :: u8
  proof -
    have "\<not> bit y (8 + n)" for n using bit_imp_le_length [of y "8 + n"] by auto
    then show "ucast (drop_bit 8 (push_bit 8 (ucast x) OR ucast y :: u16)) = x"
      and "ucast (push_bit 8 (ucast x) OR ucast y :: u16) = y"
      by (auto intro!: bit_word_eqI simp: bit_simps)
  qed
  with Ipv4 show ?thesis by simp
qed

lemma to_ipv6_mapped_of_mapped: "to_ipv4_mapped ip6 = Some ip \<Longrightarrow> ip6 = to_ipv6_mapped ip"
proof -
  have "push_bit 8 (ucast (ucast (drop_bit 8 x) :: u8)) OR ucast (ucast x :: u8) = x" for x :: u16
    by (rule bit_word_eqI) (auto simp: bit_simps)
  then show "to_ipv4_mapped ip6 = Some ip \<Longrightarrow> ip6 = to_ipv6_mapped ip"
    by (cases ip6) (auto split: if_splits)
qed

section \<open>Properties\<close>

text \<open>
  The endpoint of an address: an IPv4-mapped IPv6 address is the IPv4 address. \<open>plain\<close>: no flow
  information and no scope.
\<close>

fun endpoint :: "socket_addr \<Rightarrow> ip_addr \<times> u16" where
  "endpoint (SocketV4 ip port) = (IpV4 ip, port)"
| "endpoint (SocketV6 ip port _ _) = (case to_ipv4_mapped ip of Some ip \<Rightarrow> (IpV4 ip, port) | None \<Rightarrow> (IpV6 ip, port))"

fun plain :: "socket_addr \<Rightarrow> bool" where
  "plain (SocketV4 _ _) = True"
| "plain (SocketV6 _ _ flow scp) = (flow = 0 \<and> scp = 0)"

lemma connected_as_endpoint:
  assumes "plain peer" and "plain src"
  shows "src = connected_as peer src \<longleftrightarrow> endpoint src = endpoint peer"
  using assms
  by (cases "(peer, src)" rule: connected_as.cases)
    (auto split: option.splits dest: to_ipv6_mapped_of_mapped)

text \<open>
  C33: a UDP association of the SOCKS5 server serves one client. The first datagram connects it to
  its source, also when the datagram is then refused as a fragment; from then on it takes a datagram exactly
  when it is no fragment and comes from the same endpoint, be it as an IPv4 or as an IPv4-mapped IPv6
  address, and hands out its payload and target; nothing changes the peer.
\<close>

theorem association_serves_first_peer:
  assumes "plain peer" and "plain src"
    and "socks_session_recv display connect (Inr (pkt, frag, dst, src)) s = (res, s')"
  shows "(sk_peer s = Some peer \<longrightarrow>
      (res = Inr (pkt, dst) \<longleftrightarrow> frag = 0 \<and> endpoint src = endpoint peer) \<and>
      (\<exists>r. res = Inr r) = (res = Inr (pkt, dst)) \<and> s' = s) \<and>
    (sk_peer s = None \<and> connect src = Inr peer \<longrightarrow>
      (res = Inr (pkt, dst) \<longleftrightarrow> frag = 0) \<and> s' = s\<lparr>sk_peer := Some peer\<rparr>)"
  using assms(3) connected_as_endpoint [OF assms(1,2)]
  by (auto simp: socks_session_recv_def split: if_splits)

theorem association_serves_first_peer_witness:
  "let s = \<lparr>sk_assoc_id = 0, sk_ctrl_addr = SocketV4 (Ipv4 127 0 0 1) 9,
      sk_peer = Some (SocketV4 (Ipv4 10 0 0 1) 5000), sk_sent = []\<rparr>;
     recv = (\<lambda>src. fst (socks_session_recv (\<lambda>_. []) Inr (Inr ([1], 0, SocksDomain [97] 53, src)) s)
       :: string client_error + bytes \<times> socks_address)
   in recv (SocketV6 (Ipv6 0 0 0 0 0 65535 2560 1) 5000 0 0) = Inr ([1], SocksDomain [97] 53) \<and>
      recv (SocketV4 (Ipv4 10 0 0 1) 5001) \<noteq> Inr ([1], SocksDomain [97] 53)"
proof -
  let ?peer = "SocketV4 (Ipv4 10 0 0 1) 5000"
  let ?s = "\<lparr>sk_assoc_id = 0, sk_ctrl_addr = SocketV4 (Ipv4 127 0 0 1) 9, sk_peer = Some ?peer, sk_sent = []\<rparr>"
  have "plain ?peer" by simp
  note serves = association_serves_first_peer [where display = "\<lambda>_. []" and connect = Inr and pkt = "[1]"
      and frag = 0 and dst = "SocksDomain [97] 53" and s = ?s, OF this _ surjective_pairing,
      THEN conjunct1, THEN mp, THEN conjunct1]
  have "sk_peer ?s = Some ?peer" by simp
  moreover have "endpoint (SocketV6 (Ipv6 0 0 0 0 0 65535 2560 1) 5000 0 0) = endpoint ?peer" by code_simp
  moreover have "endpoint (SocketV4 (Ipv4 10 0 0 1) 5001) \<noteq> endpoint ?peer" by simp
  moreover have "plain (SocketV6 (Ipv6 0 0 0 0 0 65535 2560 1) 5000 0 0)" "plain (SocketV4 (Ipv4 10 0 0 1) 5001)"
    by simp_all
  ultimately show ?thesis unfolding Let_def by (simp add: serves)
qed

end
