(* ===== verification/Config_Text.thy ===== *)
theory Config_Text
  imports Tuic_Prelude
begin

text \<open>
  The texts of the configuration files: the \<open>FromStr\<close> implementations of \<^verbatim>\<open>tuic-client/src/utils.rs\<close> and
  \<^verbatim>\<open>tuic-server/src/utils.rs\<close>, and the field parsers of \<^verbatim>\<open>tuic-client/src/config.rs\<close> and
  \<^verbatim>\<open>tuic-server/src/old_config.rs\<close>. A Rust string is the list of its UTF-8 bytes.
\<close>

section \<open>Of the standard library\<close>

definition ascii :: "string \<Rightarrow> bytes" where
  "ascii s = map (\<lambda>c. of_nat (of_char c)) s"

definition ascii_lower :: "u8 \<Rightarrow> u8" where
  "ascii_lower b = (if 65 \<le> b \<and> b \<le> 90 then b + 32 else b)"

definition eq_ignore_ascii_case :: "bytes \<Rightarrow> bytes \<Rightarrow> bool" where
  "eq_ignore_ascii_case xs ys \<longleftrightarrow> length xs = length ys \<and> list_all2 (\<lambda>x y. ascii_lower x = ascii_lower y) xs ys"

definition rsplit_once :: "u8 \<Rightarrow> bytes \<Rightarrow> (bytes \<times> bytes) option" where
  "rsplit_once c s = (if c \<notin> set s then None
     else (let after = takeWhile (\<lambda>b. b \<noteq> c) (rev s)
       in Some (rev (drop (length after + 1) (rev s)), rev after)))"

datatype parse_int_error = EmptyInt | InvalidDigit | PosOverflow

definition to_digit :: "u8 \<Rightarrow> nat option" where
  "to_digit c = (if 48 \<le> c \<and> c \<le> 57 then Some (unat c - 48) else None)"

fun u16_digits :: "bytes \<Rightarrow> nat \<Rightarrow> parse_int_error + nat" where
  "u16_digits [] n = Inr n"
| "u16_digits (c # cs) n = (case to_digit c of
     None \<Rightarrow> Inl InvalidDigit
   | Some d \<Rightarrow> if 65535 < n * 10 then Inl PosOverflow
       else if 65535 < n * 10 + d then Inl PosOverflow else u16_digits cs (n * 10 + d))"

definition u16_from_str :: "bytes \<Rightarrow> parse_int_error + u16" where
  "u16_from_str s = (case s of
     [] \<Rightarrow> Inl EmptyInt
   | c # cs \<Rightarrow>
       if cs = [] \<and> (c = 43 \<or> c = 45) then Inl InvalidDigit
       else try_bind (u16_digits (if c = 43 then cs else s) 0) (\<lambda>n. Inr (of_nat n)))"

section \<open>Field parsers\<close>

datatype client_relay_mode = RelayNative | RelayQuic

definition udp_relay_mode_from_str :: "bytes \<Rightarrow> string + client_relay_mode" where
  "udp_relay_mode_from_str s =
     (if eq_ignore_ascii_case s (ascii ''native'') then Inr RelayNative
      else if eq_ignore_ascii_case s (ascii ''quic'') then Inr RelayQuic
      else Inl ''invalid UDP relay mode'')"

datatype client_congestion = ClientCubic | ClientNewReno | ClientBbr

definition client_congestion_from_str :: "bytes \<Rightarrow> string + client_congestion" where
  "client_congestion_from_str s =
     (if eq_ignore_ascii_case s (ascii ''cubic'') then Inr ClientCubic
      else if eq_ignore_ascii_case s (ascii ''new_reno'') \<or> eq_ignore_ascii_case s (ascii ''newreno'')
      then Inr ClientNewReno
      else if eq_ignore_ascii_case s (ascii ''bbr'') then Inr ClientBbr
      else Inl ''invalid congestion control'')"

datatype congestion_controller = Bbr | Cubic | NewReno

definition congestion_from_str :: "bytes \<Rightarrow> string + congestion_controller" where
  "congestion_from_str s =
     (if eq_ignore_ascii_case s (ascii ''cubic'') then Inr Cubic
      else if eq_ignore_ascii_case s (ascii ''new_reno'') \<or> eq_ignore_ascii_case s (ascii ''newreno'')
      then Inr NewReno
      else if eq_ignore_ascii_case s (ascii ''bbr'') then Inr Bbr
      else Inl ''invalid congestion control'')"

datatype server_text_error = InvalidServerAddress | InvalidPort parse_int_error

definition deserialize_server :: "bytes \<Rightarrow> server_text_error + bytes \<times> u16" where
  "deserialize_server s = (case rsplit_once 58 s of
     None \<Rightarrow> Inl InvalidServerAddress
   | Some (domain, port) \<Rightarrow> try_bind (map_err InvalidPort (u16_from_str port)) (\<lambda>port.
       Inr (take (length domain) s, port)))"

section \<open>Fields\<close>

text \<open>
  What serde's derived code does with a field: \<open>None\<close> is an absent one. A field with a parser of its own
  gives \<open>None\<close> when the text is refused; one with a default takes it when absent.
\<close>

definition or_default :: "'a \<Rightarrow> 'a option \<Rightarrow> 'a" where
  "or_default d x = (case x of None \<Rightarrow> d | Some v \<Rightarrow> v)"

definition parsed_or :: "'a \<Rightarrow> ('b \<Rightarrow> 'e + 'a) \<Rightarrow> 'b option \<Rightarrow> 'a option" where
  "parsed_or d f x = (case x of None \<Rightarrow> Some d | Some text \<Rightarrow> (case f text of Inl _ \<Rightarrow> None | Inr v \<Rightarrow> Some v))"

definition parsed :: "('b \<Rightarrow> 'e + 'a) \<Rightarrow> 'b option \<Rightarrow> 'a option" where
  "parsed f x = (case x of None \<Rightarrow> None | Some text \<Rightarrow> (case f text of Inl _ \<Rightarrow> None | Inr v \<Rightarrow> Some v))"

text \<open>Durations are in nanoseconds, as \<open>Duration\<close> holds them.\<close>

definition from_secs :: "nat \<Rightarrow> nat" where
  "from_secs n = n * 1000000000"

definition from_millis :: "nat \<Rightarrow> nat" where
  "from_millis n = n * 1000000"

section \<open>The transport\<close>

text \<open>
  The settings of quinn's \<open>TransportConfig\<close> that the code makes, over the library's defaults. The
  initial window is \<open>None\<close> when it is the controller's default.
\<close>

record transport =
  tp_max_concurrent_bidi_streams :: u32
  tp_max_concurrent_uni_streams :: u32
  tp_send_window :: u64
  tp_stream_receive_window :: u32
  tp_max_idle_timeout :: "nat option"
  tp_initial_mtu :: u16
  tp_min_mtu :: u16
  tp_segmentation_offload :: bool
  tp_mtu_discovery :: bool
  tp_congestion :: "congestion_controller \<times> u64 option"

section \<open>Lemmas\<close>

lemma rsplit_once_append: "c \<notin> set t \<Longrightarrow> rsplit_once c (s @ c # t) = Some (s, t)"
proof -
  assume "c \<notin> set t"
  then have "takeWhile (\<lambda>b. b \<noteq> c) (rev t @ c # rev s) = rev t" by (subst takeWhile_append2) auto
  then show ?thesis by (simp add: rsplit_once_def)
qed

lemma rsplit_once_Some:
  assumes "rsplit_once c s = Some (a, b)"
  shows "s = a @ c # b \<and> c \<notin> set b"
proof -
  from assms have "c \<in> set s" by (simp add: rsplit_once_def split: if_splits)
  then obtain x y where "s = x @ c # y" "c \<notin> set y" by (meson split_list_last)
  with assms rsplit_once_append [of c y x] show ?thesis by simp
qed

lemma eq_ignore_ascii_case_iff: "eq_ignore_ascii_case xs ys \<longleftrightarrow> map ascii_lower xs = map ascii_lower ys"
  by (auto simp: eq_ignore_ascii_case_def list_all2_conv_all_nth list_eq_iff_nth_eq)

text \<open>The decimal text of a number.\<close>

fun decimal :: "nat \<Rightarrow> bytes" where
  "decimal n = (if n < 10 then [48 + of_nat n] else decimal (n div 10) @ [48 + of_nat (n mod 10)])"

declare decimal.simps [simp del]

lemma to_digit_decimal: "d < 10 \<Longrightarrow> to_digit (48 + of_nat d) = Some d"
proof -
  assume "d < 10"
  then have "unat (48 + of_nat d :: u8) = 48 + d" by (simp add: unat_word_ariths unat_of_nat)
  with \<open>d < 10\<close> show ?thesis by (simp add: to_digit_def word_le_nat_alt)
qed

lemma u16_digits_append:
  "u16_digits cs n = Inr m \<Longrightarrow> u16_digits (cs @ ds) n = u16_digits ds m"
  by (induction cs arbitrary: n) (auto split: option.splits if_splits)

lemma u16_digits_decimal: "n \<le> 65535 \<Longrightarrow> u16_digits (decimal n) 0 = Inr n"
proof (induction n rule: decimal.induct)
  case (1 n)
  show ?case
  proof (cases "n < 10")
    case True
    then show ?thesis by (simp add: decimal.simps [of n] to_digit_decimal)
  next
    case False
    with 1 have "u16_digits (decimal (n div 10)) 0 = Inr (n div 10)" by simp
    then show ?thesis
      using False "1.prems" by (simp add: decimal.simps [of n] u16_digits_append to_digit_decimal)
  qed
qed

lemma decimal_digits: "b \<in> set (decimal n) \<Longrightarrow> \<exists>d < 10. b = 48 + of_nat d"
proof (induction n rule: decimal.induct)
  case (1 n)
  then show ?case
    by (subst (asm) (2) decimal.simps) (auto split: if_splits intro: exI [of _ "n mod 10"])
qed

lemma decimal_not_special:
  assumes "c = 58 \<or> c = 43 \<or> c = 45"
  shows "c \<notin> set (decimal n)"
proof
  assume "c \<in> set (decimal n)"
  then obtain d where d: "d < 10" "c = 48 + of_nat d" using decimal_digits by blast
  then have "unat c = 48 + d" by (simp add: unat_word_ariths unat_of_nat)
  with assms d(1) show False by auto
qed

lemma u16_from_str_decimal: "u16_from_str (decimal (unat p)) = Inr p"
proof -
  have "unat p \<le> 65535" using unat_u16_less [of p] by linarith
  note digits = u16_digits_decimal [OF this]
  obtain c cs where d: "decimal (unat p) = c # cs"
    by (cases "decimal (unat p)") (auto simp: decimal.simps [of "unat p"] split: if_splits)
  then have "c \<noteq> 43" "c \<noteq> 45" using decimal_not_special [of c "unat p"] by auto
  with digits d show ?thesis by (simp add: u16_from_str_def)
qed

section \<open>Properties\<close>

text \<open>
  C38: the server's address in the client's configuration. Any host, also one with colons, with a colon
  and a port in decimal is read back as that host and port; and whatever is read was written like this:
  the host is all up to the last colon, what follows is the port.
\<close>

theorem server_address_roundtrip:
  "deserialize_server (host @ 58 # decimal (unat port)) = Inr (host, port) \<and>
   (\<forall>s h p. deserialize_server s = Inr (h, p) \<longrightarrow> (\<exists>t. s = h @ 58 # t \<and> 58 \<notin> set t \<and> u16_from_str t = Inr p)) \<and>
   (deserialize_server s = Inl InvalidServerAddress \<longleftrightarrow> 58 \<notin> set s)"
proof (intro conjI allI impI)
  show "deserialize_server (host @ 58 # decimal (unat port)) = Inr (host, port)"
    by (simp add: deserialize_server_def rsplit_once_append decimal_not_special u16_from_str_decimal)
  show "\<exists>t. s = h @ 58 # t \<and> 58 \<notin> set t \<and> u16_from_str t = Inr p" if read: "deserialize_server s = Inr (h, p)" for s h p
  proof -
    obtain d t where split: "rsplit_once 58 s = Some (d, t)" and port: "u16_from_str t = Inr p"
      and h: "h = take (length d) s"
      using read by (auto simp: deserialize_server_def try_bind_eq_Inr split: option.splits prod.splits)
    note s = rsplit_once_Some [OF split]
    then have "h = d" using h by simp
    with s port show ?thesis by blast
  qed
  show "deserialize_server s = Inl InvalidServerAddress \<longleftrightarrow> 58 \<notin> set s"
    by (auto simp: deserialize_server_def rsplit_once_def Let_def try_bind_def map_err_def split: sum.splits)
qed

theorem server_address_roundtrip_witness:
  "deserialize_server (ascii ''[::1]:443'') = Inr (ascii ''[::1]'', 443) \<and>
   deserialize_server (ascii ''localhost'') = Inl InvalidServerAddress"
proof -
  have "ascii ''[::1]:443'' = ascii ''[::1]'' @ 58 # decimal (unat (443 :: u16))"
    by (simp add: ascii_def decimal.simps)
  moreover have "58 \<notin> set (ascii ''localhost'')" by (simp add: ascii_def)
  ultimately show ?thesis
    using server_address_roundtrip [of "ascii ''[::1]''" 443 "ascii ''localhost''"] by simp
qed

fun same_controller :: "client_congestion \<Rightarrow> congestion_controller" where
  "same_controller ClientCubic = Cubic"
| "same_controller ClientNewReno = NewReno"
| "same_controller ClientBbr = Bbr"

lemma ascii_lower_idem [simp]: "ascii_lower (ascii_lower b) = ascii_lower b"
  by (simp add: ascii_lower_def word_le_nat_alt unat_word_ariths)

text \<open>
  The names of the congestion controllers. Client and server read the same names, in any case:
  what one accepts the other does, for the same algorithm, and the text in lower case gives the same as
  the text itself.
\<close>

theorem congestion_names_agree:
  "congestion_from_str s = (case client_congestion_from_str s of Inl e \<Rightarrow> Inl e | Inr c \<Rightarrow> Inr (same_controller c)) \<and>
   client_congestion_from_str (map ascii_lower s) = client_congestion_from_str s \<and>
   udp_relay_mode_from_str (map ascii_lower s) = udp_relay_mode_from_str s \<and>
   (\<forall>c. client_congestion_from_str s = Inr c \<longleftrightarrow> map ascii_lower s \<in> set (case c of
      ClientCubic \<Rightarrow> [ascii ''cubic''] | ClientNewReno \<Rightarrow> [ascii ''new_reno'', ascii ''newreno'']
    | ClientBbr \<Rightarrow> [ascii ''bbr'']))"
proof (intro conjI allI)
  have lower: "map ascii_lower (ascii w) = ascii w"
    if "w \<in> {''cubic'', ''new_reno'', ''newreno'', ''bbr'', ''native'', ''quic''}" for w
    using that by (auto simp: ascii_def ascii_lower_def)
  note eq = eq_ignore_ascii_case_iff lower
  show "congestion_from_str s = (case client_congestion_from_str s of Inl e \<Rightarrow> Inl e | Inr c \<Rightarrow> Inr (same_controller c))"
    by (simp add: congestion_from_str_def client_congestion_from_str_def)
  show "client_congestion_from_str (map ascii_lower s) = client_congestion_from_str s"
    by (simp add: client_congestion_from_str_def eq_ignore_ascii_case_iff comp_def)
  show "udp_relay_mode_from_str (map ascii_lower s) = udp_relay_mode_from_str s"
    by (simp add: udp_relay_mode_from_str_def eq_ignore_ascii_case_iff comp_def)
  have distinct: "distinct [ascii ''cubic'', ascii ''new_reno'', ascii ''newreno'', ascii ''bbr'']"
    by (simp add: ascii_def)
  show "client_congestion_from_str s = Inr c \<longleftrightarrow> map ascii_lower s \<in> set (case c of
      ClientCubic \<Rightarrow> [ascii ''cubic''] | ClientNewReno \<Rightarrow> [ascii ''new_reno'', ascii ''newreno'']
    | ClientBbr \<Rightarrow> [ascii ''bbr''])" for c
    using distinct by (cases c) (auto simp: client_congestion_from_str_def eq)
qed

end
