(* ===== verification/Client_Conn.thy ===== *)
theory Client_Conn
  imports Client_Udp Config_Text
begin

text \<open>
  The relay connection of the client: \<^verbatim>\<open>tuic-client/src/connection\<close>. What it awaits is a parameter of
  the operations, as is the quinn library; \<open>is_jls\<close> is the call of its fork that tells, once it is
  known, whether the server answered the JLS handshake. A log line computes its arguments only when its
  level is on.
\<close>

section \<open>The connection\<close>

definition CLIENT_ERROR_CODE :: nat where
  "CLIENT_ERROR_CODE = 0"

definition DEFAULT_CONCURRENT_STREAMS :: u32 where
  "DEFAULT_CONCURRENT_STREAMS = 32"

text \<open>
  \<open>cl_closed\<close>: there is a close reason. \<open>cl_closes\<close> lists the \<open>close\<close> calls, \<open>cl_quic_max_uni\<close> and
  \<open>cl_quic_max_bi\<close> are the limits quinn was told.
\<close>

record ('u, 'q) client_conn =
  cl_conn :: 'q
  cl_closed :: bool
  cl_closes :: "(nat \<times> string) list"
  cl_quic_max_uni :: u32
  cl_quic_max_bi :: u32
  cl_model :: connection
  cl_uuid :: 'u
  cl_password :: bytes
  cl_udp_relay_mode :: client_relay_mode
  cl_uni_stream_cnt :: nat
  cl_bi_stream_cnt :: nat
  cl_max_uni_streams :: u32
  cl_max_bi_streams :: u32

definition client_conn_new :: "'q \<Rightarrow> client_relay_mode \<Rightarrow> 'u \<Rightarrow> bytes \<Rightarrow> ('u, 'q) client_conn" where
  "client_conn_new conn udp_relay_mode uuid password =
     \<lparr>cl_conn = conn, cl_closed = False, cl_closes = [],
      cl_quic_max_uni = DEFAULT_CONCURRENT_STREAMS, cl_quic_max_bi = DEFAULT_CONCURRENT_STREAMS,
      cl_model = connection_new, cl_uuid = uuid, cl_password = password,
      cl_udp_relay_mode = udp_relay_mode, cl_uni_stream_cnt = 0, cl_bi_stream_cnt = 0,
      cl_max_uni_streams = DEFAULT_CONCURRENT_STREAMS, cl_max_bi_streams = DEFAULT_CONCURRENT_STREAMS\<rparr>"

record ('u, 'q, 'e, 's, 'r) client_lib =
  cb_overflow_checks :: bool
  cb_logs_info :: bool
  cb_logs_debug :: bool
  cb_logs_warn :: bool
  cb_uuid :: "'u uuid_lib"
  cb_quic :: "('q, 'e, 's, 'r) quic"
  cb_read :: "nat \<Rightarrow> ('r, io_error, bytes) reader"
  cb_is_jls :: "'q \<Rightarrow> bool option"

definition client_close :: "nat \<Rightarrow> string \<Rightarrow> ('u, 'q) client_conn \<Rightarrow> ('u, 'q) client_conn" where
  "client_close code reason c = c\<lparr>cl_closes := cl_closes c @ [(code, reason)], cl_closed := True\<rparr>"

definition client_is_closed :: "('u, 'q) client_conn \<Rightarrow> bool" where
  "client_is_closed c \<longleftrightarrow> cl_closed c"

section \<open>Sending\<close>

text \<open>\<open>authenticate\<close>, once the handshake is complete: no command is sent.\<close>

definition client_conn_authenticate ::
    "('u, 'q, 'e, 's, 'r) client_lib \<Rightarrow> ('u, 'q) client_conn \<Rightarrow> ('u, 'q) client_conn" where
  "client_conn_authenticate B c =
     (if cb_is_jls B (cl_conn c) = Some False then client_close 0 ''No Reason'' c else c)"

text \<open>\<open>connect\<close>. The command it does not hand out is dropped.\<close>

definition client_conn_connect ::
    "('u, 'q, 'e, 's, 'r) client_lib \<Rightarrow> address \<Rightarrow> ('u, 'q) client_conn \<Rightarrow>
      (('e, 's, 'r) quinn_error client_error + connect_header \<times> 's \<times> 'r) \<times> ('u, 'q) client_conn" where
  "client_conn_connect B addr c =
     (case client_connect (cb_uuid B) (cb_quic B) addr (cl_model c, cl_conn c) of
        (Inl err, model, q) \<Rightarrow> (Inl (ClientModel err), c\<lparr>cl_model := model, cl_conn := q\<rparr>)
      | (Inr conn, model, q) \<Rightarrow> (let c = c\<lparr>cl_model := model, cl_conn := q\<rparr> in
          if cb_is_jls B (cl_conn c) = Some False
          then (Inl (ClientOther ''JLS Hijacked or wrong password/iv''),
            client_close 0 ''No Reason'' (c\<lparr>cl_model := connection_drop_connect model\<rparr>))
          else (Inr conn, c)))"

definition client_conn_packet ::
    "('u, 'q, 'e, 's, 'r) client_lib \<Rightarrow> bytes \<Rightarrow> address \<Rightarrow> u16 \<Rightarrow> ('u, 'q) client_conn \<Rightarrow>
      (('e, 's, 'r) quinn_error client_error + unit) outcome \<times> ('u, 'q) client_conn" where
  "client_conn_packet B pkt addr assoc_id c =
     (if cb_is_jls B (cl_conn c) = Some False
      then (Returns (Inl (ClientOther ''JLS Hijacked or wrong password/iv'')), client_close 0 ''No Reason'' c)
      else (case (case cl_udp_relay_mode c of
              RelayNative \<Rightarrow> packet_native (cb_overflow_checks B) (cb_uuid B) (cb_quic B) pkt addr assoc_id
                (cl_model c, cl_conn c)
            | RelayQuic \<Rightarrow> packet_quic (cb_overflow_checks B) (cb_uuid B) (cb_quic B) pkt addr assoc_id
                (cl_model c, cl_conn c)) of
        (res, model, q) \<Rightarrow>
          (outcome_bind res (\<lambda>r. Returns (map_err ClientModel r)), c\<lparr>cl_model := model, cl_conn := q\<rparr>)))"

definition client_conn_dissociate ::
    "('u, 'q, 'e, 's, 'r) client_lib \<Rightarrow> u16 \<Rightarrow> ('u, 'q) client_conn \<Rightarrow>
      (('e, 's, 'r) quinn_error client_error + unit) \<times> ('u, 'q) client_conn" where
  "client_conn_dissociate B assoc_id c =
     (case client_dissociate (cb_uuid B) (cb_quic B) assoc_id (cl_model c, cl_conn c) of
        (res, model, q) \<Rightarrow> (map_err ClientModel res, c\<lparr>cl_model := model, cl_conn := q\<rparr>))"

text \<open>One turn of the \<open>heartbeat\<close> loop, after its sleep (whether the loop ends), and of \<open>collect_garbage\<close>.\<close>

definition client_conn_heartbeat ::
    "('u, 'q, 'e, 's, 'r) client_lib \<Rightarrow> ('u, 'q) client_conn \<Rightarrow> bool \<times> ('u, 'q) client_conn" where
  "client_conn_heartbeat B c =
     (if client_is_closed c then (True, c)
      else if task_connect_count (cl_model c) + task_associate_count (cl_model c) = 0 then (False, c)
      else (case client_heartbeat (cb_uuid B) (cb_quic B) (cl_conn c) of
        (res, q) \<Rightarrow> (False, c\<lparr>cl_conn := q\<rparr>)))"

definition client_conn_collect_garbage ::
    "nat \<Rightarrow> nat \<Rightarrow> ('u, 'q) client_conn \<Rightarrow> bool \<times> ('u, 'q) client_conn" where
  "client_conn_collect_garbage now gc_lifetime c =
     (if client_is_closed c then (True, c)
      else (False, c\<lparr>cl_model := connection_collect_garbage now gc_lifetime (cl_model c)\<rparr>))"

section \<open>Accepting streams and datagrams\<close>

text \<open>
  The limit grows before quinn is awaited, whose result is \<open>got\<close> (with the error as the I/O error it converts
  to), and the register is made after it.
\<close>

definition client_grow_uni ::
    "('u, 'q, 'e, 's, 'r) client_lib \<Rightarrow> ('u, 'q) client_conn \<Rightarrow> unit outcome \<times> ('u, 'q) client_conn" where
  "client_grow_uni B c =
     (if (of_nat (cl_uni_stream_cnt c) :: u32) = cl_max_uni_streams c
      then (case u32_double (cb_overflow_checks B) (cl_max_uni_streams c) of
          Panics p \<Rightarrow> (Panics p, c)
        | Returns n \<Rightarrow> (Returns (), c\<lparr>cl_max_uni_streams := n, cl_quic_max_uni := n\<rparr>))
      else (Returns (), c))"

definition client_grow_bi ::
    "('u, 'q, 'e, 's, 'r) client_lib \<Rightarrow> ('u, 'q) client_conn \<Rightarrow> unit outcome \<times> ('u, 'q) client_conn" where
  "client_grow_bi B c =
     (if (of_nat (cl_bi_stream_cnt c) :: u32) = cl_max_bi_streams c
      then (case u32_double (cb_overflow_checks B) (cl_max_bi_streams c) of
          Panics p \<Rightarrow> (Panics p, c)
        | Returns n \<Rightarrow> (Returns (), c\<lparr>cl_max_bi_streams := n, cl_quic_max_bi := n\<rparr>))
      else (Returns (), c))"

definition client_accept_uni ::
    "('u, 'q, 'e, 's, 'r) client_lib \<Rightarrow> io_error + 'r \<Rightarrow> ('u, 'q) client_conn \<Rightarrow>
      ('m client_error + 'r) outcome \<times> ('u, 'q) client_conn" where
  "client_accept_uni B got c = (case client_grow_uni B c of
     (Panics p, c) \<Rightarrow> (Panics p, c)
   | (Returns _, c) \<Rightarrow> (case got of
       Inl e \<Rightarrow> (Returns (Inl (ClientIo e)), c)
     | Inr recv \<Rightarrow> (Returns (Inr recv), c\<lparr>cl_uni_stream_cnt := cl_uni_stream_cnt c + 1\<rparr>)))"

definition client_accept_bi ::
    "('u, 'q, 'e, 's, 'r) client_lib \<Rightarrow> io_error + 's \<times> 'r \<Rightarrow> ('u, 'q) client_conn \<Rightarrow>
      ('m client_error + 's \<times> 'r) outcome \<times> ('u, 'q) client_conn" where
  "client_accept_bi B got c = (case client_grow_bi B c of
     (Panics p, c) \<Rightarrow> (Panics p, c)
   | (Returns _, c) \<Rightarrow> (case got of
       Inl e \<Rightarrow> (Returns (Inl (ClientIo e)), c)
     | Inr (send, recv) \<Rightarrow> (Returns (Inr (send, recv)), c\<lparr>cl_bi_stream_cnt := cl_bi_stream_cnt c + 1\<rparr>)))"

definition client_accept_dg :: "io_error + bytes \<Rightarrow> 'm client_error + bytes" where
  "client_accept_dg got = map_err ClientIo got"

section \<open>Packets for the SOCKS5 clients\<close>

text \<open>
  The SOCKS5 server's UDP sessions: the map of the static \<open>UDP_SESSIONS\<close>, not there before the server
  is configured, which holds numbers of sessions.
\<close>

record socks_udp =
  su_map :: "(u16 \<Rightarrow> nat option) option"
  su_sessions :: "nat \<Rightarrow> socks_session option"
  su_next :: nat

text \<open>
  \<open>handle_packet\<close>, with \<open>sent\<close> the result of the session's socket. Errors are only logged.
\<close>

definition client_handle_packet ::
    "('u, 'q, 'e, 's, 'r) client_lib \<Rightarrow> io_error + unit \<Rightarrow> nat \<Rightarrow> packet_rx \<Rightarrow> 'r packet_source \<Rightarrow>
      ('u, 'q) client_conn \<times> socks_udp \<Rightarrow> unit outcome \<times> ('u, 'q) client_conn \<times> socks_udp" where
  "client_handle_packet B sent now pkt src st = (case st of (c, u) \<Rightarrow>
     if cb_logs_info B \<and> cb_overflow_checks B \<and> prx_frag_id pkt = 255 then (Panics ArithmeticOverflow, c, u)
     else (case (packet_accept (cb_overflow_checks B) (cb_read B) now pkt src (cl_model c) ::
            ('e, 's, 'r) receipt \<times> connection) of (got, model) \<Rightarrow>
      (let c = c\<lparr>cl_model := model\<rparr> in
     (case got of
        Panics p \<Rightarrow> (Panics p, c, u)
      | Returns (Inl err) \<Rightarrow> (Returns (), c, u)
      | Returns (Inr None) \<Rightarrow> (Returns (), c, u)
      | Returns (Inr (Some (data, addr, _))) \<Rightarrow>
     (case (case addr of
              NoAddress \<Rightarrow> Panics Unreachable
            | DomainAddress domain port \<Rightarrow> Returns (SocksDomain domain port)
            | SocketAddress addr \<Rightarrow> Returns (SocksSocket addr)) of
        Panics p \<Rightarrow> (Panics p, c, u)
      | Returns addr \<Rightarrow>
     (case su_map u of
        None \<Rightarrow> (Panics UnwrapNone, c, u)
      | Some sessions \<Rightarrow> (case sessions (prx_assoc_id pkt) of
          None \<Rightarrow> (Returns (), c, u)
        | Some sid \<Rightarrow> (case su_sessions u sid of
            None \<Rightarrow> (Returns (), c, u)
          | Some session \<Rightarrow>
     (case socks_session_send (cb_logs_debug B) (cb_logs_warn B) sent data addr session of
        (res, session) \<Rightarrow> (outcome_bind (res :: ('e client_error + unit) outcome) (\<lambda>_. Returns ()), c,
          u\<lparr>su_sessions := (su_sessions u)(sid \<mapsto> session)\<rparr>))))))))))"

definition client_handle_uni_stream ::
    "('u, 'q, 'e, 's, 'r) client_lib \<Rightarrow> io_error + unit \<Rightarrow> nat \<Rightarrow> 'r \<Rightarrow> ('u, 'q) client_conn \<times> socks_udp \<Rightarrow>
      (('e, 's, 'r) quinn_error client_error + unit) outcome \<times> ('u, 'q) client_conn \<times> socks_udp" where
  "client_handle_uni_stream B sent now recv st = (case st of (c, u) \<Rightarrow>
     (case (case (client_accept_uni_stream (cb_uuid B) (cb_read B) recv (cl_model c) ::
              ('e, 's, 'r) quinn_error + ('u, 's, 'r) task) of
          Inl err \<Rightarrow> (Returns (Inl (ClientModel err)), c, u)
        | Inr (TaskPacket pkt src) \<Rightarrow> (case cl_udp_relay_mode c of
            RelayQuic \<Rightarrow> (case client_handle_packet B sent now pkt src (c, u) of
              (r, st) \<Rightarrow> (outcome_bind r (\<lambda>_. Returns (Inr ())), st))
          | RelayNative \<Rightarrow> (Returns (Inl WrongPacketSource), c, u))
        | Inr _ \<Rightarrow> (Panics Unreachable, c, u)) of
      (res, c, u) \<Rightarrow> (res, c\<lparr>cl_uni_stream_cnt := cl_uni_stream_cnt c - 1\<rparr>, u)))"

definition client_handle_bi_stream ::
    "('u, 'q, 'e, 's, 'r) client_lib \<Rightarrow> 's \<Rightarrow> 'r \<Rightarrow> ('u, 'q) client_conn \<Rightarrow>
      (('e, 's, 'r) quinn_error client_error + unit) outcome \<times> ('u, 'q) client_conn" where
  "client_handle_bi_stream B send recv c =
     (case (client_accept_bi_stream (cb_uuid B) (cb_read B) send recv ::
            ('e, 's, 'r) quinn_error + ('u, 's, 'r) task) of
        Inl err \<Rightarrow> Returns (Inl (ClientModel err))
      | Inr _ \<Rightarrow> Panics Unreachable,
      c\<lparr>cl_bi_stream_cnt := cl_bi_stream_cnt c - 1\<rparr>)"

definition client_handle_datagram ::
    "('u, 'q, 'e, 's, 'r) client_lib \<Rightarrow> io_error + unit \<Rightarrow> nat \<Rightarrow> bytes \<Rightarrow> ('u, 'q) client_conn \<times> socks_udp \<Rightarrow>
      (('e, 's, 'r) quinn_error client_error + unit) outcome \<times> ('u, 'q) client_conn \<times> socks_udp" where
  "client_handle_datagram B sent now dg st = (case st of (c, u) \<Rightarrow>
     (case (client_accept_datagram (cb_uuid B) dg (cl_model c) ::
            (('e, 's, 'r) quinn_error + ('u, 's, 'r) task) outcome) of
        Panics p \<Rightarrow> (Panics p, c, u)
      | Returns (Inl err) \<Rightarrow> (Returns (Inl (ClientModel err)), c, u)
      | Returns (Inr (TaskPacket pkt src)) \<Rightarrow> (case cl_udp_relay_mode c of
          RelayNative \<Rightarrow> (case client_handle_packet B sent now pkt src (c, u) of
            (r, st) \<Rightarrow> (outcome_bind r (\<lambda>_. Returns (Inr ())), st))
        | RelayQuic \<Rightarrow> (Returns (Inl WrongPacketSource), c, u))
      | Returns (Inr _) \<Rightarrow> (Panics Unreachable, c, u)))"

end
