(* ===== verification/Client_Endpoint.thy ===== *)
theory Client_Endpoint
  imports Client_Conn
begin

text \<open>
  How the client gets its connection: \<open>ServerAddr\<close> of \<^verbatim>\<open>tuic-client/src/utils.rs\<close>, \<open>Endpoint::connect\<close>
  and \<open>Connection::get_conn\<close> of \<^verbatim>\<open>tuic-client/src/connection/mod.rs\<close>. The connection is a static that
  all SOCKS5 clients share.
\<close>

section \<open>The server's address\<close>

record server_addr =
  sv_domain :: bytes
  sv_port :: u16
  sv_ip :: "ip_addr option"

definition server_name :: "server_addr \<Rightarrow> bytes" where
  "server_name a = sv_domain a"

definition server_resolve ::
    "(bytes \<Rightarrow> u16 \<Rightarrow> io_error + socket_addr list) \<Rightarrow> server_addr \<Rightarrow> 'm client_error + socket_addr list" where
  "server_resolve lookup_host a = (case sv_ip a of
     Some ip \<Rightarrow> Inr [socket_addr_from ip (sv_port a)]
   | None \<Rightarrow> map_err ClientIo (lookup_host (sv_domain a) (sv_port a)))"

section \<open>Connecting\<close>

text \<open>
  The calls on the quinn endpoint: \<open>connect\<close>, \<open>into_0rtt\<close> (\<open>None\<close>: it hands the handshake back) and awaiting
  the handshake; and the lookup of the server's name.
\<close>

record ('q, 'k) quinn_endpoint =
  qe_connect :: "socket_addr \<Rightarrow> bytes \<Rightarrow> string + 'k"
  qe_into_0rtt :: "'k \<Rightarrow> 'q option"
  qe_handshake :: "'k \<Rightarrow> io_error + 'q"
  qe_lookup_host :: "bytes \<Rightarrow> u16 \<Rightarrow> io_error + socket_addr list"

text \<open>
  The three durations are handed to the tasks that a connection spawns when it starts; here a task runs when its
  timer has fired, so it takes the lifetime as an argument and the two intervals do not matter.
\<close>

record 'u client_endpoint =
  en_server :: server_addr
  en_uuid :: 'u
  en_password :: bytes
  en_udp_relay_mode :: client_relay_mode
  en_zero_rtt_handshake :: bool
  en_heartbeat :: nat
  en_gc_interval :: nat
  en_gc_lifetime :: nat
  en_server_name :: "bytes option"

text \<open>The block \<open>connect_to\<close>: the connection, and whether its handshake is still to be accepted.\<close>

definition connect_to ::
    "('q, 'k) quinn_endpoint \<Rightarrow> 'u client_endpoint \<Rightarrow> socket_addr \<Rightarrow> 'm client_error + 'q \<times> bool" where
  "connect_to Q ep addr =
     try_bind (map_err ConnectError (qe_connect Q addr
       (case en_server_name ep of Some name \<Rightarrow> name | None \<Rightarrow> server_name (en_server ep)))) (\<lambda>conn.
     if en_zero_rtt_handshake ep
     then (case qe_into_0rtt Q conn of
         Some conn \<Rightarrow> Inr (conn, True)
       | None \<Rightarrow> try_bind (map_err ClientIo (qe_handshake Q conn)) (\<lambda>conn. Inr (conn, False)))
     else try_bind (map_err ClientIo (qe_handshake Q conn)) (\<lambda>conn. Inr (conn, False)))"

fun connect_first ::
    "('q, 'k) quinn_endpoint \<Rightarrow> 'u client_endpoint \<Rightarrow> socket_addr list \<Rightarrow> 'm client_error option \<Rightarrow>
      'm client_error + ('u, 'q) client_conn \<times> bool" where
  "connect_first Q ep [] last_err = Inl (case last_err of Some err \<Rightarrow> err | None \<Rightarrow> DnsResolve)"
| "connect_first Q ep (addr # addrs) last_err = (case connect_to Q ep addr of
     Inr (conn, zero_rtt_accepted) \<Rightarrow> Inr (client_conn_new conn (en_udp_relay_mode ep) (en_uuid ep)
       (en_password ep), zero_rtt_accepted)
   | Inl err \<Rightarrow> connect_first Q ep addrs (Some err))"

definition endpoint_connect ::
    "('q, 'k) quinn_endpoint \<Rightarrow> 'u client_endpoint \<Rightarrow> 'm client_error + ('u, 'q) client_conn \<times> bool" where
  "endpoint_connect Q ep = try_bind (server_resolve (qe_lookup_host Q) (en_server ep))
     (\<lambda>addrs. connect_first Q ep addrs None)"

section \<open>The shared connection\<close>

record ('u, 'q) client_statics =
  st_endpoint :: "'u client_endpoint option"
  st_connection :: "('u, 'q) client_conn option"
  st_timeout :: nat

text \<open>
  \<open>get_conn\<close>. Its timer, of \<open>st_timeout\<close>, may fire while it waits for the lock of the connection (\<open>locked\<close> is
  false) or for a new connection (\<open>None\<close> as the endpoint's behaviour). A connection is open when the endpoint
  returns it, so one that is lost between this and the test of \<open>is_closed\<close>, for which the code connects again,
  is not modelled: the second attempt here replaces a connection that was closed since it was shared.
\<close>

definition attempt_connect ::
    "('q, 'k) quinn_endpoint option \<Rightarrow> ('u, 'q) client_statics \<Rightarrow>
      ('m client_error + ('u, 'q) client_conn) outcome \<times> ('u, 'q) client_statics" where
  "attempt_connect attempt s = (case st_endpoint s of
     None \<Rightarrow> (Panics UnwrapNone, s)
   | Some ep \<Rightarrow> (case attempt of
       None \<Rightarrow> (Returns (Inl ClientTimeout), s)
     | Some Q \<Rightarrow> (case endpoint_connect Q ep of
         Inl e \<Rightarrow> (Returns (Inl e), s)
       | Inr (conn, _) \<Rightarrow> (Returns (Inr conn), s\<lparr>st_connection := Some conn\<rparr>))))"

definition get_conn ::
    "bool \<Rightarrow> ('q, 'k) quinn_endpoint option \<Rightarrow> ('q, 'k) quinn_endpoint option \<Rightarrow> ('u, 'q) client_statics \<Rightarrow>
      ('m client_error + ('u, 'q) client_conn) outcome \<times> ('u, 'q) client_statics" where
  "get_conn locked attempt1 attempt2 s =
     (case (case st_connection s of Some conn \<Rightarrow> (Returns (Inr conn), s) | None \<Rightarrow> attempt_connect attempt1 s) of
        (Returns (Inr conn), s) \<Rightarrow>
          if \<not> locked then (Returns (Inl ClientTimeout), s)
          else if client_is_closed conn then attempt_connect attempt2 s
          else (Returns (Inr conn), s)
      | (r, s) \<Rightarrow> (r, s))"

section \<open>Properties\<close>

lemma connect_first_unreachable:
  "(\<And>a. a \<in> set addrs \<Longrightarrow> connect_to Q ep a = Inl (err a)) \<Longrightarrow>
    connect_first Q ep (addrs @ rest) last_err =
      connect_first Q ep rest (if addrs = [] then last_err else Some (err (last addrs)))"
  by (induction addrs arbitrary: last_err) auto

text \<open>
  The client connects to the first address of its server that answers the handshake, by the
  configured IP address alone when there is one; the connection starts open, with the endpoint's
  user, password and mode. With no such address it returns the error of the last one, or that
  the name does not resolve.
\<close>

theorem client_connects_to_first_reachable:
  assumes "server_resolve (qe_lookup_host Q) (en_server ep) = (Inr (unreachable @ reached) ::
      'm client_error + socket_addr list)"
    and "\<And>a. a \<in> set unreachable \<Longrightarrow> connect_to Q ep a = (Inl (err a) :: 'm client_error + 'q \<times> bool)"
    and "\<And>addr rest. reached = addr # rest \<Longrightarrow> connect_to Q ep addr = (Inr (conn, z) :: 'm client_error + 'q \<times> bool)"
  shows "endpoint_connect Q ep = (case reached of
     [] \<Rightarrow> Inl (if unreachable = [] then DnsResolve else err (last unreachable))
   | _ \<Rightarrow> Inr (client_conn_new conn (en_udp_relay_mode ep) (en_uuid ep) (en_password ep), z))"
  using assms by (simp add: endpoint_connect_def connect_first_unreachable split: list.split)

definition demo_endpoint :: "unit client_endpoint" where
  "demo_endpoint = \<lparr>en_server = \<lparr>sv_domain = [97], sv_port = 443, sv_ip = None\<rparr>, en_uuid = (),
     en_password = [7], en_udp_relay_mode = RelayQuic, en_zero_rtt_handshake = True, en_heartbeat = 3,
     en_gc_interval = 3, en_gc_lifetime = 15, en_server_name = None\<rparr>"

definition demo_quinn :: "(nat, nat) quinn_endpoint" where
  "demo_quinn = \<lparr>qe_connect = (\<lambda>addr name. case addr of SocketV4 _ _ \<Rightarrow> Inl ''no ipv4'' | SocketV6 _ _ _ _ \<Rightarrow> Inr (length name)),
     qe_into_0rtt = Some, qe_handshake = Inr,
     qe_lookup_host = (\<lambda>_ port. Inr [SocketV4 (Ipv4 10 0 0 1) port, SocketV6 (Ipv6 0 0 0 0 0 0 0 1) port 0 0])\<rparr>"

theorem client_connects_to_first_reachable_witness:
  "endpoint_connect demo_quinn demo_endpoint =
    (Inr (client_conn_new 1 RelayQuic () [7], True) :: string client_error + (unit, nat) client_conn \<times> bool)"
proof -
  have "server_resolve (qe_lookup_host demo_quinn) (en_server demo_endpoint) =
      (Inr ([SocketV4 (Ipv4 10 0 0 1) 443] @ [SocketV6 (Ipv6 0 0 0 0 0 0 0 1) 443 0 0]) ::
        string client_error + socket_addr list)"
    by (simp add: server_resolve_def demo_quinn_def demo_endpoint_def)
  note connects = client_connects_to_first_reachable [OF this, where err = "\<lambda>_. ConnectError ''no ipv4''"
      and conn = 1 and z = True]
  show ?thesis
    by (subst connects) (auto simp: connect_to_def demo_quinn_def demo_endpoint_def server_name_def)
qed

lemma endpoint_connect_open:
  assumes "endpoint_connect Q ep = (Inr (conn, z) :: 'm client_error + ('u, 'q) client_conn \<times> bool)"
  shows "\<not> client_is_closed conn"
proof -
  have "\<not> client_is_closed conn"
    if "connect_first Q ep addrs last_err = (Inr (conn, z) :: 'm client_error + ('u, 'q) client_conn \<times> bool)"
    for addrs last_err
    using that by (induction addrs arbitrary: last_err)
      (auto simp: client_is_closed_def client_conn_new_def split: sum.splits)
  with assms show ?thesis by (auto simp: endpoint_connect_def try_bind_eq_Inr)
qed

text \<open>
  C21: the shared connection. Whatever happens while it waits, \<open>get_conn\<close> hands out only a
  connection that is open, and it is the shared one from then on; an open one is handed out
  as it is and not replaced; and when it returns an error and there was one, the shared connection stays.
\<close>

theorem get_conn_hands_out_open_connection:
  fixes s :: "('u, 'q) client_statics"
  assumes "get_conn locked attempt1 attempt2 s = (r :: ('m client_error + ('u, 'q) client_conn) outcome, s')"
  shows "(\<forall>conn. r = Returns (Inr conn) \<longrightarrow> \<not> client_is_closed conn \<and> st_connection s' = Some conn) \<and>
    (\<forall>conn. st_connection s = Some conn \<and> \<not> client_is_closed conn \<longrightarrow>
       s' = s \<and> r = Returns (if locked then Inr conn else Inl ClientTimeout)) \<and>
    (\<forall>e. r = Returns (Inl e) \<and> st_connection s \<noteq> None \<longrightarrow> s' = s)"
proof -
  have attempt: "(\<forall>conn. r = Returns (Inr conn) \<longrightarrow> \<not> client_is_closed conn \<and> st_connection s' = Some conn) \<and>
      (\<forall>e. r = Returns (Inl e) \<longrightarrow> s' = s)"
    if "attempt_connect a s = (r :: ('m client_error + ('u, 'q) client_conn) outcome, s')"
    for a :: "('q, 'k) quinn_endpoint option" and s s' :: "('u, 'q) client_statics" and r
    using that endpoint_connect_open
    by (auto simp: attempt_connect_def split: option.splits sum.splits)
  show ?thesis
  proof (cases "st_connection s")
    case None
    obtain r1 :: "('m client_error + ('u, 'q) client_conn) outcome" and s1
      where first: "attempt_connect attempt1 s = (r1, s1)" by (rule prod.exhaust)
    show ?thesis
      using assms None attempt [OF first] attempt [of attempt2 s1]
      by (auto simp: get_conn_def first split: outcome.splits sum.splits if_splits)
  next
    case (Some conn)
    with assms attempt [of attempt2 s] show ?thesis by (auto simp: get_conn_def split: if_splits)
  qed
qed

theorem get_conn_hands_out_open_connection_witness:
  "let s = \<lparr>st_endpoint = Some demo_endpoint, st_connection =
      Some (client_close 0 ''No Reason'' (client_conn_new 0 RelayQuic () [7])), st_timeout = 8\<rparr>
   in fst (get_conn True None (Some demo_quinn) s :: (string client_error + (unit, nat) client_conn) outcome \<times> _)
      = Returns (Inr (client_conn_new 1 RelayQuic () [7])) \<and>
     st_connection (snd (get_conn True None (Some demo_quinn) s ::
       (string client_error + (unit, nat) client_conn) outcome \<times> _)) = Some (client_conn_new 1 RelayQuic () [7])"
proof -
  let ?s = "\<lparr>st_endpoint = Some demo_endpoint, st_connection =
      Some (client_close 0 ''No Reason'' (client_conn_new 0 RelayQuic () [7])), st_timeout = 8\<rparr>"
  let ?r = "get_conn True None (Some demo_quinn) ?s :: (string client_error + (unit, nat) client_conn) outcome \<times> _"
  have "fst ?r = Returns (Inr (client_conn_new 1 RelayQuic () [7]))" by code_simp
  with get_conn_hands_out_open_connection [OF surjective_pairing, of True None "Some demo_quinn" ?s,
      where ?'m = string] show ?thesis by (simp add: Let_def)
qed

end
