(* ===== verification/Tuic_Refinement.thy ===== *)
theory Tuic_Refinement
  imports Tuic_Reassembly
begin

text \<open>
  What the sessions of a connection promise, without sessions, buffers or counters: a set of open
  associations, and for each packet of which fragments wait the fragments that came, by number.
  The connection refines it: every operation is one of the specification on what the connection
  stands for, with the same result.
\<close>

section \<open>The specification\<close>

record pending =
  pn_total :: nat
  pn_frags :: "nat \<Rightarrow> bytes option"
  pn_addr :: address
  pn_since :: nat

definition pending_new :: "nat \<Rightarrow> nat \<Rightarrow> pending" where
  "pending_new now n = \<lparr>pn_total = n, pn_frags = Map.empty, pn_addr = NoAddress, pn_since = now\<rparr>"

definition pending_put :: "nat \<Rightarrow> address \<Rightarrow> bytes \<Rightarrow> pending \<Rightarrow> pending" where
  "pending_put i addr data p =
     p\<lparr>pn_frags := (pn_frags p)(i \<mapsto> data), pn_addr := (if i = 0 then addr else pn_addr p)\<rparr>"

definition pending_complete :: "pending \<Rightarrow> bool" where
  "pending_complete p \<longleftrightarrow> list_all (\<lambda>i. pn_frags p i \<noteq> None) [0..<pn_total p]"

definition pending_payload :: "pending \<Rightarrow> bytes" where
  "pending_payload p = concat (map (\<lambda>i. the (pn_frags p i)) [0..<pn_total p])"

type_synonym payload_result = "(assemble_error + (bytes \<times> address \<times> u16) option) outcome"

text \<open>
  A fragment of a packet arrives. It is refused with an error, or it crashes the task that brings it,
  or it is kept; the one that completes the packet takes it out.
\<close>

definition spec_receive :: "packet_rx \<Rightarrow> bytes \<Rightarrow> pending \<Rightarrow> payload_result \<times> pending option" where
  "spec_receive rx data p =
     (let i = unat (prx_frag_id rx) in
      if length data \<noteq> unat (prx_size rx) then (Panics AssertFailed, Some p)
      else if unat (prx_frag_total rx) \<le> i then
        (Returns (Inl (InvalidFragmentId (prx_frag_total rx) (prx_frag_id rx))), Some p)
      else if i = 0 \<and> address_is_none (prx_addr rx) then
        (Returns (Inl (InvalidAddress ''no address in first fragment'')), Some p)
      else if i \<noteq> 0 \<and> \<not> address_is_none (prx_addr rx) then
        (Returns (Inl (InvalidAddress ''address in non-first fragment'')), Some p)
      else if pn_total p \<le> i then (Panics IndexOutOfBounds, Some p)
      else if pn_frags p i \<noteq> None then (Returns (Inl (DuplicatedFragment (prx_frag_id rx))), Some p)
      else let p = pending_put i (prx_addr rx) data p in
        if pending_complete p then
          (Returns (Inr (Some (pending_payload p, pn_addr p, prx_assoc_id rx))), None)
        else (Returns (Inr None), Some p))"

record associations =
  sp_open :: "u16 set"
  sp_pending :: "u16 \<times> u16 \<Rightarrow> pending option"
  sp_connects :: nat

definition spec_new :: associations where
  "spec_new = \<lparr>sp_open = {}, sp_pending = Map.empty, sp_connects = 0\<rparr>"

definition spec_open :: "u16 \<Rightarrow> associations \<Rightarrow> associations" where
  "spec_open a s = s\<lparr>sp_open := insert a (sp_open s)\<rparr>"

definition spec_close :: "u16 \<Rightarrow> associations \<Rightarrow> associations" where
  "spec_close a s = s\<lparr>sp_open := sp_open s - {a},
     sp_pending := (\<lambda>k. if fst k = a then None else sp_pending s k)\<rparr>"

definition spec_assemble :: "nat \<Rightarrow> packet_rx \<Rightarrow> bytes \<Rightarrow> associations \<Rightarrow> payload_result \<times> associations" where
  "spec_assemble now rx data s =
     (case spec_receive rx data (case sp_pending s (packet_key rx) of Some p \<Rightarrow> p
        | None \<Rightarrow> pending_new now (unat (prx_frag_total rx))) of
      (r, p) \<Rightarrow> (r, s\<lparr>sp_open := insert (prx_assoc_id rx) (sp_open s),
        sp_pending := (sp_pending s)(packet_key rx := p)\<rparr>))"

definition spec_collect :: "nat \<Rightarrow> nat \<Rightarrow> associations \<Rightarrow> associations" where
  "spec_collect now timeout s = s\<lparr>sp_pending := (\<lambda>k. case sp_pending s k of
     Some p \<Rightarrow> if now - pn_since p < timeout then Some p else None | None \<Rightarrow> None)\<rparr>"

inductive spec_step :: "associations \<Rightarrow> associations \<Rightarrow> bool" where
  spec_connects: "spec_step s (s\<lparr>sp_connects := sp_connects s + 1\<rparr>)"
| spec_disconnects: "spec_step s (s\<lparr>sp_connects := sp_connects s - 1\<rparr>)"
| spec_opens: "spec_step s (spec_open a s)"
| spec_closes: "spec_step s (spec_close a s)"
| spec_assembles: "spec_assemble now rx data s = (r, s') \<Longrightarrow> spec_step s s'"
| spec_collects: "spec_step s (spec_collect now timeout s)"

section \<open>The abstraction\<close>

definition abs_buffer :: "packet_buffer \<Rightarrow> pending" where
  "abs_buffer b = \<lparr>pn_total = length (pb_buf b),
     pn_frags = (\<lambda>i. if i < length (pb_buf b) then pb_buf b ! i else None),
     pn_addr = pb_addr b, pn_since = pb_c_time b\<rparr>"

definition abs_connection :: "connection \<Rightarrow> associations" where
  "abs_connection c = \<lparr>sp_open = dom (ss_sessions (cn_udp_sessions c)),
     sp_pending = (\<lambda>k. map_option abs_buffer (buffer_at (cn_udp_sessions c) k)),
     sp_connects = cn_task_connect_count c\<rparr>"

definition assembled_payload :: "assembled \<Rightarrow> payload_result" where
  "assembled_payload r = outcome_bind r (\<lambda>r. case r of
     Inl e \<Rightarrow> Returns (Inl e)
   | Inr None \<Rightarrow> Returns (Inr None)
   | Inr (Some x) \<Rightarrow> outcome_bind (assemblable_assemble x []) (\<lambda>y. Returns (Inr (Some y))))"

lemma abs_buffer_new: "abs_buffer (packet_buffer_new now n) = pending_new now (unat n)"
  by (auto simp: abs_buffer_def packet_buffer_new_def pending_new_def)

lemma abs_buffer_put:
  assumes "unat i < length (pb_buf b)"
  shows "abs_buffer (put_fragment i addr data b) = pending_put (unat i) addr data (abs_buffer b)"
  using assms by (auto simp: abs_buffer_def put_fragment_def pending_put_def unat_eq_0 fun_eq_iff)

lemma abs_buffer_complete:
  "pending_complete (abs_buffer b) \<longleftrightarrow> count_some (pb_buf b) = length (pb_buf b)"
  by (auto simp: pending_complete_def abs_buffer_def count_some_eq_length_iff list_all_iff in_set_conv_nth)

lemma abs_buffer_payload:
  "pending_payload (abs_buffer b) = concat (map the (pb_buf b))"
proof -
  have "map (\<lambda>i. the (pn_frags (abs_buffer b) i)) [0..<length (pb_buf b)] = map the (pb_buf b)"
    by (rule nth_equalityI) (simp_all add: abs_buffer_def)
  then show ?thesis by (simp add: pending_payload_def abs_buffer_def)
qed

section \<open>Each operation is one of the specification\<close>

lemma packet_buffer_insert_refines:
  assumes "packet_buffer_ok b"
    and "packet_buffer_insert oc (prx_assoc_id rx) (prx_frag_total rx) (prx_frag_id rx)
      (prx_size rx) (prx_addr rx) data b = (r, b')"
  shows "spec_receive rx data (abs_buffer b) = (assembled_payload r,
    case r of Returns (Inr (Some _)) \<Rightarrow> None | _ \<Rightarrow> Some (abs_buffer b'))"
proof (cases "fragment_fits (prx_frag_total rx) (prx_frag_id rx) (prx_size rx) (prx_addr rx) data b")
  case False
  then have "b' = b" using packet_buffer_insert_unchanged [OF False] assms(2) by (metis snd_conv)
  moreover have "spec_receive rx data (abs_buffer b) = (assembled_payload r, Some (abs_buffer b))"
  proof -
    let ?i = "unat (prx_frag_id rx)"
    have i: "prx_frag_id rx = 0 \<longleftrightarrow> ?i = 0" by (simp add: unat_eq_0)
    have le: "prx_frag_total rx \<le> prx_frag_id rx \<longleftrightarrow> unat (prx_frag_total rx) \<le> ?i"
      by (simp add: word_le_nat_alt)
    have r: "r = fst (packet_buffer_insert oc (prx_assoc_id rx) (prx_frag_total rx) (prx_frag_id rx)
        (prx_size rx) (prx_addr rx) data b)" using assms(2) by simp
    consider (size) "length data \<noteq> unat (prx_size rx)"
      | (number) "length data = unat (prx_size rx)" "unat (prx_frag_total rx) \<le> ?i"
      | (first) "length data = unat (prx_size rx)" "?i < unat (prx_frag_total rx)" "?i = 0"
          "address_is_none (prx_addr rx)"
      | (other) "length data = unat (prx_size rx)" "?i < unat (prx_frag_total rx)" "?i \<noteq> 0"
          "\<not> address_is_none (prx_addr rx)"
      | (range) "length data = unat (prx_size rx)" "?i < unat (prx_frag_total rx)"
          "?i = 0 \<longleftrightarrow> \<not> address_is_none (prx_addr rx)" "length (pb_buf b) \<le> ?i"
      | (twice) "length data = unat (prx_size rx)" "?i < unat (prx_frag_total rx)"
          "?i = 0 \<longleftrightarrow> \<not> address_is_none (prx_addr rx)" "?i < length (pb_buf b)" "pb_buf b ! ?i \<noteq> None"
      using False unfolding fragment_fits_def i word_less_nat_alt by linarith
    then show ?thesis
      unfolding r packet_buffer_insert_def spec_receive_def i le
      by cases (simp_all add: assembled_payload_def abs_buffer_def)
  qed
  moreover have "r \<noteq> Returns (Inr x)" for x
    using packet_buffer_insert_unchanged [OF False] assms(2) by (metis fst_conv)
  ultimately show ?thesis by (auto split: outcome.split sum.split option.split)
next
  case True
  let ?b = "put_fragment (prx_frag_id rx) (prx_addr rx) data b"
  from True have i: "unat (prx_frag_id rx) < length (pb_buf b)" "pb_buf b ! unat (prx_frag_id rx) = None"
    and fits: "length data = unat (prx_size rx)" "unat (prx_frag_id rx) < unat (prx_frag_total rx)"
      "unat (prx_frag_id rx) = 0 \<longleftrightarrow> \<not> address_is_none (prx_addr rx)"
    by (simp_all add: fragment_fits_def word_less_nat_alt unat_eq_0)
  note put = abs_buffer_put [OF i(1), of "prx_addr rx" data, symmetric]
  have "None \<notin> set (pb_buf ?b)" if "count_some (pb_buf ?b) = length (pb_buf ?b)"
    using that by (simp add: count_some_eq_length_iff)
  then have payload: "assemblable_assemble (assemblable_new (pb_buf ?b) (pb_addr ?b) a) [] =
      Returns (pending_payload (abs_buffer ?b), pn_addr (abs_buffer ?b), a)"
    if "count_some (pb_buf ?b) = length (pb_buf ?b)" for a
    using that by (simp add: assemblable_assemble_def assemblable_new_def assembler_extend_total
        abs_buffer_payload) (simp add: abs_buffer_def)
  have spec: "spec_receive rx data (abs_buffer b) = (if pending_complete (abs_buffer ?b)
      then (Returns (Inr (Some (pending_payload (abs_buffer ?b), pn_addr (abs_buffer ?b), prx_assoc_id rx))), None)
      else (Returns (Inr None), Some (abs_buffer ?b)))"
    using fits i by (auto simp: spec_receive_def Let_def put) (auto simp: abs_buffer_def)
  show ?thesis
    using packet_buffer_insert_fits [OF assms(1) True, of oc "prx_assoc_id rx"] assms(2) payload
    by (auto simp: spec abs_buffer_complete assembled_payload_def Let_def split: if_splits)
qed

lemma slot_insert_refines:
  assumes "\<And>b. slot = Some b \<Longrightarrow> packet_buffer_ok b"
    and "slot_insert oc now rx data slot = (r, slot')"
  shows "spec_receive rx data (case map_option abs_buffer slot of Some p \<Rightarrow> p
      | None \<Rightarrow> pending_new now (unat (prx_frag_total rx))) =
    (assembled_payload r, map_option abs_buffer slot')"
proof -
  define b where "b = (case slot of Some b \<Rightarrow> b | None \<Rightarrow> packet_buffer_new now (prx_frag_total rx))"
  have ok: "packet_buffer_ok b" using assms(1) by (auto simp: b_def split: option.splits)
  obtain r' b' where ins: "packet_buffer_insert oc (prx_assoc_id rx) (prx_frag_total rx)
      (prx_frag_id rx) (prx_size rx) (prx_addr rx) data b = (r', b')" by (rule prod.exhaust)
  have "(case map_option abs_buffer slot of Some p \<Rightarrow> p
      | None \<Rightarrow> pending_new now (unat (prx_frag_total rx))) = abs_buffer b"
    by (cases slot) (simp_all add: b_def abs_buffer_new)
  with packet_buffer_insert_refines [OF ok ins] ins assms(2) show ?thesis
    by (auto simp: slot_insert_def b_def [symmetric] split: outcome.splits sum.splits option.splits)
qed

lemma dom_sessions_entry: "sessions_entry a s = (u, s') \<Longrightarrow>
    dom (ss_sessions s') = insert a (dom (ss_sessions s))"
  by (cases rule: sessions_entry_cases [of s a]) auto

lemma packet_rx_assemble_dom:
  assumes "packet_rx_assemble oc now rx data s = (r, s')"
  shows "dom (ss_sessions s') = insert (prx_assoc_id rx) (dom (ss_sessions s))"
proof -
  obtain u t where entry: "sessions_entry (prx_assoc_id rx) s = (u, t)" by (rule prod.exhaust)
  with assms dom_sessions_entry [OF entry] show ?thesis
    by (auto simp: packet_rx_assemble_def udp_sessions_insert_def sessions_store_def split: prod.splits)
qed

lemma connection_assemble_refines:
  assumes "connection_ok c" and "connection_assemble oc now rx data c = (r, c')"
  shows "spec_assemble now rx data (abs_connection c) = (assembled_payload r, abs_connection c')"
proof -
  note step = connection_assemble_sessions [OF assms(2)]
  have ok: "packet_buffer_ok b" if "buffer_at (cn_udp_sessions c) (packet_key rx) = Some b" for b
    using assms(1) that by (simp add: connection_ok_def udp_sessions_ok_def del: split_paired_All)
  have "cn_task_connect_count c' = cn_task_connect_count c"
    using assms(2) by (auto simp: connection_assemble_def split: prod.splits)
  moreover have "(\<lambda>k. map_option abs_buffer (buffer_at (cn_udp_sessions c') k)) =
      (\<lambda>k. map_option abs_buffer (buffer_at (cn_udp_sessions c) k))
        (packet_key rx := map_option abs_buffer (buffer_at (cn_udp_sessions c') (packet_key rx)))"
    using packet_rx_assemble_slot(2) [OF step] by (auto simp: fun_eq_iff)
  ultimately show ?thesis
    using slot_insert_refines [OF ok packet_rx_assemble_slot(1) [OF step]] packet_rx_assemble_dom [OF step]
    by (simp add: spec_assemble_def abs_connection_def)
qed

lemma sessions_entry_refines:
  "sessions_entry a s = (u, s') \<Longrightarrow> abs_connection (c\<lparr>cn_udp_sessions := s'\<rparr>) =
    spec_open a (abs_connection (c\<lparr>cn_udp_sessions := s\<rparr>))"
  using sessions_entry_buffer_at [of a s u s'] dom_sessions_entry [of a s u s']
  by (simp add: abs_connection_def spec_open_def)

lemma sessions_remove_refines:
  "abs_connection (c\<lparr>cn_udp_sessions := sessions_remove a (cn_udp_sessions c)\<rparr>) =
    spec_close a (abs_connection c)"
  by (cases "ss_sessions (cn_udp_sessions c) a")
    (auto simp: abs_connection_def spec_close_def sessions_remove_def buffer_at_def fun_eq_iff
      split: option.splits)

lemma send_packet_refines:
  assumes "connection_send_packet a addr sz c = (tx, c')"
  shows "abs_connection c' = spec_open a (abs_connection c)"
proof -
  obtain u s where entry: "sessions_entry a (cn_udp_sessions c) = (u, s)" by (rule prod.exhaust)
  have "buffer_at (sessions_store a (u\<lparr>us_next_pkt_id := n\<rparr>) s) k = buffer_at s k" for n k
    using entry by (cases rule: sessions_entry_cases [of "cn_udp_sessions c" a])
      (auto simp: sessions_store_def buffer_at_def)
  moreover have "dom (ss_sessions (sessions_store a u' s)) = dom (ss_sessions s)" for u'
    using dom_sessions_entry [OF entry] by (auto simp: sessions_store_def)
  ultimately have "abs_connection (c\<lparr>cn_udp_sessions := sessions_store a (u\<lparr>us_next_pkt_id := n\<rparr>) s\<rparr>) =
      abs_connection (c\<lparr>cn_udp_sessions := s\<rparr>)" for n
    by (simp add: abs_connection_def)
  with sessions_entry_refines [OF entry, of c] assms entry show ?thesis
    by (auto simp: connection_send_packet_def udp_sessions_send_packet_def udp_session_send_packet_def)
qed

lemma connection_step_refines:
  assumes "connection_ok c" and "connection_step oc c c'"
  shows "spec_step (abs_connection c) (abs_connection c')"
  using assms(2,1)
proof (induction rule: connection_step.induct)
  case (step_send_connect addr c h c')
  then show ?case using spec_connects [of "abs_connection c"]
    by (auto simp: connection_send_connect_def abs_connection_def)
next
  case (step_recv_connect header c rx c')
  then show ?case using spec_connects [of "abs_connection c"]
    by (auto simp: connection_recv_connect_def abs_connection_def)
next
  case (step_drop_connect c)
  then show ?case using spec_disconnects [of "abs_connection c"]
    by (simp add: connection_drop_connect_def abs_connection_def)
next
  case (step_send_packet a addr sz c tx c')
  then show ?case using spec_opens by (simp add: send_packet_refines)
next
  case (step_recv_packet_unrestricted header c rx c')
  obtain u s where entry: "sessions_entry (ph_assoc_id header) (cn_udp_sessions c) = (u, s)"
    by (rule prod.exhaust)
  with step_recv_packet_unrestricted.hyps sessions_entry_refines [OF entry, of c] show ?case
    using spec_opens by (simp add: connection_recv_packet_unrestricted_def packet_into_def
        udp_sessions_recv_packet_unrestricted_def)
next
  case (step_send_dissociate a c d c')
  then show ?case using spec_closes sessions_remove_refines [of a c]
    by (auto simp: connection_send_dissociate_def udp_sessions_dissociate_def)
next
  case (step_recv_dissociate dh c a c')
  then show ?case using spec_closes sessions_remove_refines [of a c]
    by (auto simp: connection_recv_dissociate_def udp_sessions_dissociate_def Let_def)
next
  case (step_assemble now rx data c r c')
  then show ?case using connection_assemble_refines spec_assembles by blast
next
  case (step_collect_garbage c now timeout)
  have "abs_connection (connection_collect_garbage now timeout c) = spec_collect now timeout (abs_connection c)"
    by (auto simp: abs_connection_def connection_collect_garbage_def spec_collect_def dom_collect_garbage
        buffer_at_collect_garbage abs_buffer_def fun_eq_iff split: option.splits)
  then show ?case using spec_collects by simp
qed

interpretation spec: refinement "\<lambda>c. c = connection_new" "connection_step oc" connection_ok
  "\<lambda>s. s = spec_new" spec_step abs_connection
proof unfold_locales
  show "c = connection_new \<Longrightarrow> abs_connection c = spec_new" for c
    by (simp add: abs_connection_def connection_new_def udp_sessions_new_def spec_new_def buffer_at_def
        map_option_case)
  show "connection_ok c \<Longrightarrow> connection_step oc c c' \<Longrightarrow> spec_step (abs_connection c) (abs_connection c')"
    for c c' by (rule connection_step_refines)
qed

section \<open>Properties\<close>

text \<open>
  C7: the sessions of a connection refine the specification. What a reachable connection stands for
  is a state the specification reaches; in it, a fragment that arrives (in a build with or without
  overflow checks) has exactly the result and the effect it has on the map of waiting fragments, and
  the number of associations the connection reports is the number that is open.
\<close>

theorem connection_refines_specification:
  assumes "reachable (\<lambda>c. c = connection_new) (connection_step oc) c"
    and "connection_assemble oc now rx data c = (r, c')"
  shows "reachable (\<lambda>s. s = spec_new) spec_step (abs_connection c) \<and>
    spec_assemble now rx data (abs_connection c) = (assembled_payload r, abs_connection c') \<and>
    task_associate_count c' = card (sp_open (abs_connection c'))"
proof (intro conjI)
  have ok: "connection_ok c" using assms(1) by (rule conn.reachable_inv)
  show "reachable (\<lambda>s. s = spec_new) spec_step (abs_connection c)"
    using assms(1) by (rule spec.refines)
  show "spec_assemble now rx data (abs_connection c) = (assembled_payload r, abs_connection c')"
    using ok assms(2) by (rule connection_assemble_refines)
  have "connection_ok c'" using step_assemble [OF assms(2)] ok by (rule connection_step_ok)
  then show "task_associate_count c' = card (sp_open (abs_connection c'))"
    by (simp add: connection_ok_def udp_sessions_ok_def task_associate_count_def abs_connection_def)
qed

theorem connection_refines_specification_witness:
  "let rx = packet_rx_new 3 1 1 0 1 (DomainAddress [97] 53) in
   fst (spec_assemble 0 rx [5] (abs_connection connection_new)) =
     Returns (Inr (Some ([5], DomainAddress [97] 53, 3)))"
proof -
  let ?rx = "packet_rx_new 3 1 1 0 1 (DomainAddress [97] 53)"
  let ?p = "connection_assemble True 0 ?rx [5] connection_new"
  have "reachable (\<lambda>c. c = connection_new) (connection_step True) connection_new"
    by (rule reachable_init) simp
  note refines = connection_refines_specification [OF this surjective_pairing, of 0 ?rx "[5]"]
  have "assembled_payload (fst ?p) = Returns (Inr (Some ([5], DomainAddress [97] 53, 3)))" by code_simp
  with refines show ?thesis by (simp add: Let_def)
qed

end
