(* ===== verification/Client_Answers.thy ===== *)
theory Client_Answers
  imports Client_Conn Tuic_Refinement Tuic_Streams
begin

text \<open>
  Packets from the server through the client's handlers, in datagrams and on streams, to the SOCKS5 socket of
  their association. The locale \<open>answer_receiver\<close> is what both handlers do with one fragment; that a
  whole packet is sent on, once, follows from it.
\<close>

type_synonym ('e, 's, 'r) client_result = "(('e, 's, 'r) quinn_error client_error + unit) outcome"

section \<open>One fragment\<close>

fun socks_of :: "address \<Rightarrow> socks_address" where
  "socks_of (DomainAddress domain port) = SocksDomain domain port"
| "socks_of (SocketAddress a) = SocksSocket a"
| "socks_of NoAddress = undefined"

text \<open>A connection in a mode on which an association is open, and a session it serves.\<close>

definition relays_in :: "client_relay_mode \<Rightarrow> ('u, 'q) client_conn \<Rightarrow> u16 \<Rightarrow> bool" where
  "relays_in mode c a \<longleftrightarrow> cl_udp_relay_mode c = mode \<and> ss_sessions (cn_udp_sessions (cl_model c)) a \<noteq> None"

definition serves_session :: "socks_udp \<Rightarrow> u16 \<Rightarrow> nat \<Rightarrow> socks_session \<Rightarrow> bool" where
  "serves_session u a sid s \<longleftrightarrow> (\<exists>m. su_map u = Some m \<and> m a = Some sid) \<and> su_sessions u sid = Some s \<and> sk_peer s \<noteq> None"

text \<open>What is sent on the session's socket when this is the outcome of a fragment, and the state after it.\<close>

definition answers :: "('e, 's, 'r) receipt \<Rightarrow> (bytes \<times> socks_address) list \<Rightarrow> bool" where
  "answers receipt sent \<longleftrightarrow> receipt = Returns (Inr None) \<and> sent = [] \<or>
     (\<exists>payload addr a. receipt = Returns (Inr (Some (payload, addr, a))) \<and> \<not> address_is_none addr \<and>
        sent = [(payload, socks_of addr)])"

definition sends_on :: "nat \<Rightarrow> socks_session \<Rightarrow> (bytes \<times> socks_address) list \<Rightarrow> socks_udp \<Rightarrow> socks_udp" where
  "sends_on sid s sent u = u\<lparr>su_sessions := (su_sessions u)(sid \<mapsto> s\<lparr>sk_sent := sk_sent s @ sent\<rparr>)\<rparr>"

lemma sends_on_nothing: "serves_session u a sid s \<Longrightarrow> sends_on sid s [] u = u"
  by (simp add: serves_session_def sends_on_def fun_upd_idem)

lemma client_handle_packet_answers:
  fixes B :: "('u, 'q, 'e, 's, 'r) client_lib"
  assumes "prx_frag_id rx \<noteq> 255" and "serves_session u (prx_assoc_id rx) sid s"
    and "packet_accept (cb_overflow_checks B) (cb_read B) now rx src (cl_model c) =
      (receipt :: ('e, 's, 'r) receipt, model)"
    and "answers receipt sent"
  shows "client_handle_packet B (Inr ()) now rx src (c, u) = (Returns (), c\<lparr>cl_model := model\<rparr>, sends_on sid s sent u)"
  using assms(4) unfolding answers_def
proof (elim disjE exE conjE)
  assume "receipt = Returns (Inr None)" and "sent = []"
  with assms(1,3) show ?thesis by (simp add: client_handle_packet_def sends_on_nothing [OF assms(2)])
next
  fix payload addr a
  assume "receipt = Returns (Inr (Some (payload, addr, a)))" and "\<not> address_is_none addr"
    and "sent = [(payload, socks_of addr)]"
  with assms(1-3) show ?thesis
    by (cases addr) (auto simp: client_handle_packet_def serves_session_def socks_session_send_def sends_on_def)
qed

text \<open>A fragment is put into its slot, whatever carried it.\<close>

lemma assemble_slot:
  assumes "slot_insert oc now rx data (buffer_at (cn_udp_sessions c) (packet_key rx)) = (r, slot)"
    and "ss_sessions (cn_udp_sessions c) (prx_assoc_id rx) \<noteq> None"
  obtains model where "connection_assemble oc now rx data c = (r, model)"
    and "buffer_at (cn_udp_sessions model) (packet_key rx) = slot"
    and "ss_sessions (cn_udp_sessions model) (prx_assoc_id rx) \<noteq> None"
proof -
  obtain r' model where asm: "connection_assemble oc now rx data c = (r', model)" by (rule prod.exhaust)
  note sessions = connection_assemble_sessions [OF asm]
  have "r' = r" "buffer_at (cn_udp_sessions model) (packet_key rx) = slot"
    using packet_rx_assemble_slot(1) [OF sessions] assms(1) by simp_all
  moreover have "ss_sessions (cn_udp_sessions model) (prx_assoc_id rx) \<noteq> None"
    using packet_rx_assemble_dom [OF sessions] assms(2) by blast
  ultimately show thesis using asm that by blast
qed

text \<open>The header that goes with a fragment.\<close>

definition fragment_header :: "packet_rx \<Rightarrow> packet_header" where
  "fragment_header rx = packet_header_new (prx_assoc_id rx) (prx_pkt_id rx) (prx_frag_total rx) (prx_frag_id rx)
     (prx_size rx) (prx_addr rx)"

lemma recv_fragment_header:
  "ss_sessions (cn_udp_sessions c) (prx_assoc_id rx) \<noteq> None \<Longrightarrow> connection_recv_packet (fragment_header rx) c = Some rx"
  by (auto simp: fragment_header_def connection_recv_packet_def packet_into_def udp_sessions_recv_packet_def
      packet_rx_new_def packet_header_new_def)

lemma fragment_header_written:
  "snd (arrival_datagram U (now, rx, data)) = header_write U (Packet (fragment_header rx)) [] @ data"
  by (simp add: arrival_datagram_def fragment_datagram_def put_slice_def fragment_header_def)

lemma fragment_header_size [simp]: "ph_size (fragment_header rx) = prx_size rx"
  by (simp add: fragment_header_def packet_header_new_def)

lemma fragment_header_wf:
  "arrival_ok (now, rx, data) \<Longrightarrow> wf_header U (Packet (fragment_header rx)) \<and>
    length data = unat (ph_size (fragment_header rx))"
  by (simp add: arrival_ok_def fragment_header_def packet_header_new_def)

section \<open>A packet from its fragments\<close>

locale answer_receiver =
  fixes B :: "('u, 'q, 'e, 's, 'r) client_lib"
    and relays :: "('u, 'q) client_conn \<Rightarrow> u16 \<Rightarrow> bool"
    and handle :: "nat \<times> 'w \<Rightarrow> ('u, 'q) client_conn \<times> socks_udp \<Rightarrow>
      ('e, 's, 'r) client_result \<times> ('u, 'q) client_conn \<times> socks_udp"
    and carries :: "packet_rx \<Rightarrow> bytes \<Rightarrow> 'w \<Rightarrow> bool"
  assumes handle_one: "carries rx data w \<Longrightarrow> arrival_ok (now, rx, data) \<Longrightarrow> prx_frag_id rx \<noteq> 255 \<Longrightarrow>
      relays c (prx_assoc_id rx) \<Longrightarrow> serves_session u (prx_assoc_id rx) sid s \<Longrightarrow>
      slot_insert (cb_overflow_checks B) now rx data (buffer_at (cn_udp_sessions (cl_model c)) (packet_key rx)) =
        (r, slot) \<Longrightarrow> answers (assembled_packet r :: ('e, 's, 'r) receipt) sent \<Longrightarrow>
      \<exists>c'. handle (now, w) (c, u) = (Returns (Inr ()), c', sends_on sid s sent u) \<and>
        relays c' (prx_assoc_id rx) \<and> buffer_at (cn_udp_sessions (cl_model c')) (packet_key rx) = slot"
begin

lemma handle_trace:
  assumes "list_all2 (\<lambda>(now, rx, data) (now', w). now' = now \<and> carries rx data w) tr evs"
    and "\<forall>ev \<in> set tr. arrival_ok ev \<and> concerns k ev \<and> prx_frag_id (fst (snd ev)) \<noteq> 255"
    and "relays c (fst k)" and "serves_session u (fst k) sid s"
    and "slot_trace (cb_overflow_checks B) tr (buffer_at (cn_udp_sessions (cl_model c)) k) =
      (replicate n (Returns (Inr None)) @ [r], slot)"
    and "answers (assembled_packet r :: ('e, 's, 'r) receipt) sent"
  shows "\<exists>c'. run_all handle evs (c, u) = (replicate (Suc n) (Returns (Inr ())), c', sends_on sid s sent u)"
  using assms(1-3,5)
proof (induction tr evs arbitrary: c n rule: list_all2_induct)
  case Nil
  then show ?case by simp
next
  case (Cons ev tr ev' evs)
  obtain now rx data w where ev: "ev = (now, rx, data)" "ev' = (now, w)" and w: "carries rx data w"
    using Cons.hyps(1) by (cases ev; cases ev') auto
  have k: "packet_key rx = k" and assoc: "fst k = prx_assoc_id rx" and ok: "arrival_ok (now, rx, data)"
    and id: "prx_frag_id rx \<noteq> 255"
    using Cons.prems(1) ev by (auto simp: concerns_def packet_key_def)
  obtain r1 slot1 where step: "slot_insert (cb_overflow_checks B) now rx data
      (buffer_at (cn_udp_sessions (cl_model c)) k) = (r1, slot1)" by (rule prod.exhaust)
  obtain rs where rest: "slot_trace (cb_overflow_checks B) tr slot1 = (rs, slot)"
    and rs: "r1 # rs = replicate n (Returns (Inr None)) @ [r]"
    using Cons.prems(3) ev step by (auto split: prod.splits)
  note one = handle_one [OF w ok id Cons.prems(2) [unfolded assoc] assms(4) [unfolded assoc] step [folded k]]
  show ?case
  proof (cases n)
    case 0
    with rs have "r1 = r" "rs = []" by simp_all
    moreover from this have "tr = []" using rest by (cases tr) (auto split: prod.splits)
    then have "evs = []" using Cons.hyps(2) by simp
    moreover obtain c' where "handle (now, w) (c, u) = (Returns (Inr ()), c', sends_on sid s sent u)"
      using one [of sent] assms(6) \<open>r1 = r\<close> by blast
    ultimately show ?thesis using ev 0 by simp
  next
    case (Suc m)
    with rs have r1: "r1 = Returns (Inr None)" and rs': "rs = replicate m (Returns (Inr None)) @ [r]" by simp_all
    have "answers (assembled_packet r1 :: ('e, 's, 'r) receipt) []"
      by (simp add: r1 answers_def assembled_packet_def)
    from one [OF this] obtain c' where c': "handle (now, w) (c, u) = (Returns (Inr ()), c', u)"
      "relays c' (fst k)" "buffer_at (cn_udp_sessions (cl_model c')) k = slot1"
      using assoc k sends_on_nothing [OF assms(4)] by auto
    with Cons.IH [of c' m] Cons.prems(1) rest rs' obtain c'' where
      "run_all handle evs (c', u) = (replicate (Suc m) (Returns (Inr ())), c'', sends_on sid s sent u)" by auto
    with c'(1) ev Suc show ?thesis by simp
  qed
qed

lemma receive_answer:
  assumes "ds \<noteq> []" and "length ds \<le> 255" and "\<forall>d \<in> set ds. length d \<le> 65535"
    and "wf_address addr" and "\<not> address_is_none addr"
    and "distinct is" and "set is = {..<length ds}" and "length ts = length is"
    and "buffer_at (cn_udp_sessions (cl_model c)) (a, p) = None"
    and "relays c a" and "serves_session u a sid s"
    and "\<And>i. i < length ds \<Longrightarrow> carries (fst (snd (fragment_arrival a p addr ds 0 i))) (ds ! i) (ws ! i)"
  shows "\<exists>c'. run_all handle (map2 (\<lambda>t i. (t, ws ! i)) ts is) (c, u) =
    (replicate (length ds) (Returns (Inr ())), c', sends_on sid s [(concat ds, socks_of addr)] u)"
proof -
  let ?tr = "map2 (fragment_arrival a p addr ds) ts is"
  have in_range: "i < length ds" if "(t, i) \<in> set (zip ts is)" for t i
    using that assms(7) by (auto dest: set_zip_rightD)
  have in_set: "i < length ds" if "i \<in> set is" for i using that assms(7) by auto
  have sent: "list_all2 (\<lambda>(now, rx, data) (now', w). now' = now \<and> carries rx data w) ?tr
      (map2 (\<lambda>t i. (t, ws ! i)) ts is)"
    using assms(8,12) in_set by (auto simp: list_all2_conv_all_nth fragment_arrival_def)
  have "prx_frag_id (fst (snd (fragment_arrival a p addr ds t i))) \<noteq> 255" if "(t, i) \<in> set (zip ts is)" for t i
    using in_range [OF that] assms(2)
    by (auto simp: fragment_arrival_def packet_rx_new_def word_unat_eq_iff unat_of_nat)
  then have ok: "\<forall>ev \<in> set ?tr. arrival_ok ev \<and> concerns (a, p) ev \<and> prx_frag_id (fst (snd ev)) \<noteq> 255"
    using fragment_arrival_ok [OF in_range assms(3,4)] by auto
  have trace: "slot_trace (cb_overflow_checks B) ?tr (buffer_at (cn_udp_sessions (cl_model c)) (a, p)) =
      (replicate (length ds - 1) (Returns (Inr None)) @
       [Returns (Inr (Some (assemblable_new (map Some ds) addr a)))], None)"
    using slot_trace_completes [OF assms(1,2,5,3,6,7,8)] assms(9) by simp
  have "answers (assembled_packet (Returns (Inr (Some (assemblable_new (map Some ds) addr a))))
      :: ('e, 's, 'r) receipt) [(concat ds, socks_of addr)]"
    using assms(5) by (simp add: answers_def assembled_packet_def assemblable_assemble_def assemblable_new_def)
  from handle_trace [OF sent ok _ _ trace this, of u sid s] assms(1,10,11) show ?thesis by simp
qed

end

section \<open>The two ways\<close>

text \<open>The event loop spawns a handler for each datagram and stream; sending on the SOCKS5 socket succeeds.\<close>

definition client_datagram_event ::
    "('u, 'q, 'e, 's, 'r) client_lib \<Rightarrow> nat \<times> bytes \<Rightarrow> ('u, 'q) client_conn \<times> socks_udp \<Rightarrow>
      ('e, 's, 'r) client_result \<times> ('u, 'q) client_conn \<times> socks_udp" where
  "client_datagram_event B ev st = (case ev of (now, dg) \<Rightarrow> client_handle_datagram B (Inr ()) now dg st)"

definition client_stream_event ::
    "('u, 'q, 'e, 's, 'r) client_lib \<Rightarrow> nat \<times> 'r \<Rightarrow> ('u, 'q) client_conn \<times> socks_udp \<Rightarrow>
      ('e, 's, 'r) client_result \<times> ('u, 'q) client_conn \<times> socks_udp" where
  "client_stream_event B ev st = (case ev of (now, recv) \<Rightarrow> client_handle_uni_stream B (Inr ()) now recv st)"

lemma client_datagram_answers:
  fixes B :: "('u, 'q, 'e, 's, 'r) client_lib" and c :: "('u, 'q) client_conn"
  assumes "w = snd (arrival_datagram (cb_uuid B) (0, rx, data))"
    and "arrival_ok (now, rx, data)" and "prx_frag_id rx \<noteq> 255"
    and "relays_in RelayNative c (prx_assoc_id rx)" and "serves_session u (prx_assoc_id rx) sid s"
    and "slot_insert (cb_overflow_checks B) now rx data (buffer_at (cn_udp_sessions (cl_model c)) (packet_key rx)) =
      (r, slot)"
    and "answers (assembled_packet r :: ('e, 's, 'r) receipt) sent"
  shows "\<exists>c'. (client_datagram_event B (now, w) (c, u) :: ('e, 's, 'r) client_result \<times> _) =
      (Returns (Inr ()), c', sends_on sid s sent u) \<and> relays_in RelayNative c' (prx_assoc_id rx) \<and>
      buffer_at (cn_udp_sessions (cl_model c')) (packet_key rx) = slot"
proof -
  have session: "ss_sessions (cn_udp_sessions (cl_model c)) (prx_assoc_id rx) \<noteq> None"
    using assms(4) by (simp add: relays_in_def)
  obtain model where asm: "connection_assemble (cb_overflow_checks B) now rx data (cl_model c) = (r, model)"
    and slot: "buffer_at (cn_udp_sessions model) (packet_key rx) = slot"
    and still: "ss_sessions (cn_udp_sessions model) (prx_assoc_id rx) \<noteq> None"
    by (rule assemble_slot [OF assms(6) session])
  have "client_accept_datagram (cb_uuid B) w (cl_model c) =
      (Returns (Inr (TaskPacket rx (SourceNative data)))
        :: (('e, 's, 'r) quinn_error + ('u, 's, 'r) task) outcome)"
    using fragment_header_wf [OF assms(2), of "cb_uuid B"] recv_fragment_header [OF session]
    by (simp add: assms(1) fragment_header_written client_accept_datagram_def cursor_unmarshal_written bytes_slice_def
        Let_def del: header_len.simps length_header_write_Packet)
  moreover have "client_handle_packet B (Inr ()) now rx (SourceNative data) (c, u) =
      (Returns (), c\<lparr>cl_model := model\<rparr>, sends_on sid s sent u)"
    using assms(7) by (intro client_handle_packet_answers [OF assms(3,5)]) (simp add: packet_accept_def asm)
  ultimately show ?thesis
    using assms(4) slot still
    by (simp add: client_datagram_event_def client_handle_datagram_def relays_in_def)
qed

lemma client_stream_answers:
  fixes B :: "('u, 'q, 'e, 's, recv_stream) client_lib" and c :: "('u, 'q) client_conn"
  assumes "cb_read B = stream_read_exact"
    and "stream_of (snd (arrival_datagram (cb_uuid B) (0, rx, data))) w"
    and "arrival_ok (now, rx, data)" and "prx_frag_id rx \<noteq> 255"
    and "relays_in RelayQuic c (prx_assoc_id rx)" and "serves_session u (prx_assoc_id rx) sid s"
    and "slot_insert (cb_overflow_checks B) now rx data (buffer_at (cn_udp_sessions (cl_model c)) (packet_key rx)) =
      (r, slot)"
    and "answers (assembled_packet r :: ('e, 's, recv_stream) receipt) sent"
  shows "\<exists>c'. (client_stream_event B (now, w) (c, u) :: ('e, 's, recv_stream) client_result \<times> _) =
      (Returns (Inr ()), c', sends_on sid s sent u) \<and> relays_in RelayQuic c' (prx_assoc_id rx) \<and>
      buffer_at (cn_udp_sessions (cl_model c')) (packet_key rx) = slot"
proof -
  have session: "ss_sessions (cn_udp_sessions (cl_model c)) (prx_assoc_id rx) \<noteq> None"
    using assms(5) by (simp add: relays_in_def)
  obtain model where asm: "connection_assemble (cb_overflow_checks B) now rx data (cl_model c) = (r, model)"
    and slot: "buffer_at (cn_udp_sessions model) (packet_key rx) = slot"
    and still: "ss_sessions (cn_udp_sessions model) (prx_assoc_id rx) \<noteq> None"
    by (rule assemble_slot [OF assms(7) session])
  have size: "length data = unat (prx_size rx)" using assms(3) by (simp add: arrival_ok_def)
  obtain rest where un: "async_unmarshal (cb_uuid B) stream_read_exact w = (Inr (Packet (fragment_header rx)), rest)"
    and rest: "stream_of data rest"
    using stream_of_unmarshal [OF conjunct1 [OF fragment_header_wf [OF assms(3)]], of "cb_uuid B" data w] assms(2)
    by (metis fragment_header_written)
  have "client_accept_uni_stream (cb_uuid B) (cb_read B) w (cl_model c) =
      (Inr (TaskPacket rx (SourceQuic rest)) :: ('e, 's, recv_stream) quinn_error + ('u, 's, recv_stream) task)"
    by (simp add: client_accept_uni_stream_def assms(1) un recv_fragment_header [OF session])
  moreover have "client_handle_packet B (Inr ()) now rx (SourceQuic rest) (c, u) =
      (Returns (), c\<lparr>cl_model := model\<rparr>, sends_on sid s sent u)"
    using assms(8) stream_of_read_exact [OF rest]
    by (intro client_handle_packet_answers [OF assms(4,6)]) (simp_all add: packet_accept_def assms(1) asm size)
  ultimately show ?thesis
    using assms(5) slot still
    by (simp add: client_stream_event_def client_handle_uni_stream_def relays_in_def)
qed

interpretation datagram_answers: answer_receiver B "relays_in RelayNative" "client_datagram_event B"
  "\<lambda>rx data w. w = snd (arrival_datagram (cb_uuid B) (0, rx, data))" for B :: "('u, 'q, 'e, 's, 'r) client_lib"
  by unfold_locales (rule client_datagram_answers)

text \<open>For streams, a client that reads from streams as tokio does.\<close>

interpretation stream_answers: answer_receiver "B\<lparr>cb_read := stream_read_exact\<rparr>" "relays_in RelayQuic"
  "client_stream_event (B\<lparr>cb_read := stream_read_exact\<rparr>)"
  "\<lambda>rx data w. stream_of (snd (arrival_datagram (cb_uuid B) (0, rx, data))) w"
  for B :: "('u, 'q, 'e, 's, recv_stream) client_lib"
  by unfold_locales (rule client_stream_answers, simp_all)

text \<open>
  A packet of the server, in the mode that both sides use: when what it put on the transport reaches a client that
  has the association open, in any order, each once, every arrival is handled without error and exactly
  one packet is sent on the association's SOCKS5 socket.
\<close>

lemma native_answer_reaches_socks_client:
  fixes B :: "('u, 'q, 'e, 's, 'r) client_lib" and c :: "('u, 'q) client_conn"
  assumes "takes_datagrams Q sent" and "max_datagram_size Q q = Some sz"
    and "packet_header_len addr \<le> sz" and "11 < sz" and "sz \<le> 65535"
    and "length payload + sz < usize_modulus" and "payload \<noteq> []"
    and "\<not> splits_evenly_into_last sz addr payload" and "frag_count sz addr payload \<le> 255"
    and "wf_address addr" and "\<not> address_is_none addr"
    and "packet_native oc (cb_uuid B) Q payload addr a (server, q) = (res, server', q')"
    and "sent q' = sent q @ dgs"
    and "distinct is" and "set is = {..<length dgs}" and "length ts = length is"
    and "relays_in RelayNative c a" and "serves_session u a sid s"
    and "buffer_at (cn_udp_sessions (cl_model c)) (a, next_pkt_id server a) = None"
  shows "res = Returns (Inr ()) \<and> (\<exists>c'. run_all (client_datagram_event B) (map2 (\<lambda>t i. (t, dgs ! i)) ts is) (c, u) =
    ((replicate (length dgs) (Returns (Inr ())), c', sends_on sid s [(payload, socks_of addr)] u)
     :: ('e, 's, 'r) client_result list \<times> _))"
proof -
  define ds where "ds = cut_payload sz addr payload"
  note sent = packet_native_sent [OF assms(1-4,6-9,12)]
  have dgs: "dgs = map (fragment_datagram (cb_uuid B)) (number_items a (next_pkt_id server a) (of_nat (length ds)) 0 addr ds)"
    using sent(2) assms(13) by (simp add: ds_def)
  have ds: "ds \<noteq> []" "length ds \<le> 255" "\<forall>d \<in> set ds. length d \<le> 65535" "concat ds = payload"
    unfolding ds_def by (rule cut_payload_sendable [OF assms(4,5,7,8,9)])+
  have "dgs ! i = snd (arrival_datagram (cb_uuid B)
      (0, fst (snd (fragment_arrival a (next_pkt_id server a) addr ds 0 i)), ds ! i))" if "i < length ds" for i
    using number_items_datagram [OF that ds(2), of "cb_uuid B" a "next_pkt_id server a" addr 0]
    by (simp add: dgs fragment_arrival_def)
  from datagram_answers.receive_answer [OF ds(1-3) assms(10,11,14) _ assms(16,19,17,18) this] ds(4) sent(1) assms(15)
  show ?thesis by (simp add: dgs)
qed

lemma quic_answer_reaches_socks_client:
  fixes B :: "('u, 'q, 'e, 's, recv_stream) client_lib" and c :: "('u, 'q) client_conn"
  assumes "takes_streams Q opened sent"
    and "packet_header_len addr \<le> 65535" and "length payload + 65535 < usize_modulus" and "payload \<noteq> []"
    and "\<not> splits_evenly_into_last 65535 addr payload" and "frag_count 65535 addr payload \<le> 255"
    and "wf_address addr" and "\<not> address_is_none addr"
    and "packet_quic oc (cb_uuid B) Q payload addr a (server, q) = (res, server', q')"
    and "opened q' = opened q @ new" and "list_all2 (\<lambda>s recv. stream_of (sent q' s) recv) new recvs"
    and "distinct is" and "set is = {..<length new}" and "length ts = length is"
    and "relays_in RelayQuic c a" and "serves_session u a sid s" and "cb_read B = stream_read_exact"
    and "buffer_at (cn_udp_sessions (cl_model c)) (a, next_pkt_id server a) = None"
  shows "res = Returns (Inr ()) \<and> (\<exists>c'. run_all (client_stream_event B) (map2 (\<lambda>t i. (t, recvs ! i)) ts is) (c, u) =
    ((replicate (length new) (Returns (Inr ())), c', sends_on sid s [(payload, socks_of addr)] u)
     :: ('e, 's, recv_stream) client_result list \<times> _))"
proof -
  obtain ds where res: "res = Returns (Inr ())" and len: "length ds = length new" and payload: "concat ds = payload"
    and ds: "ds \<noteq> []" "length ds \<le> 255" "\<forall>d \<in> set ds. length d \<le> 65535"
    and carried: "\<forall>i < length ds. stream_of (snd (arrival_datagram (cb_uuid B)
      (0, fst (snd (fragment_arrival a (next_pkt_id server a) addr ds 0 i)), ds ! i))) (recvs ! i)"
    by (rule packet_quic_carried [OF assms(1-6,9-11)])
  have B: "B\<lparr>cb_read := stream_read_exact\<rparr> = B" using assms(17) by simp
  from stream_answers.receive_answer [OF ds assms(7,8,12) _ assms(14,18,15,16) carried [rule_format], unfolded B] assms(13) res len payload
  show ?thesis by simp
qed

end
