(* ===== verification/Client_Relay.thy ===== *)
theory Client_Relay
  imports Client_Answers
begin

text \<open>
  Properties of the client's relay connection: what it does when its JLS handshake was not answered, and its
  keep-alive.
\<close>

section \<open>A concrete client\<close>

definition demo_lib :: "bool option \<Rightarrow> (bytes, bytes list, string, unit, unit) client_lib" where
  "demo_lib jls = \<lparr>cb_overflow_checks = True, cb_logs_info = True, cb_logs_debug = True, cb_logs_warn = True,
     cb_uuid = bytes_uuid_lib, cb_quic = loopback 16, cb_read = (\<lambda>_ r. (Inl UnexpectedEof, r)),
     cb_is_jls = (\<lambda>_. jls)\<rparr>"

definition demo_session :: socks_session where
  "demo_session = \<lparr>sk_assoc_id = 3, sk_ctrl_addr = SocketV4 (Ipv4 127 0 0 1) 9,
     sk_peer = Some (SocketV4 (Ipv4 127 0 0 1) 5000), sk_sent = []\<rparr>"

definition demo_relay_conn :: "(bytes, bytes list) client_conn" where
  "demo_relay_conn = (client_conn_new [] RelayNative (replicate 16 1) [7])
     \<lparr>cl_model := snd (connection_send_packet 3 (DomainAddress [97] 53) 16 connection_new)\<rparr>"

section \<open>Properties\<close>

text \<open>
  C29: a server that does not answer the JLS handshake gets nothing but the dial. On a connection whose
  peer is known not to have answered it, \<open>packet\<close> returns an error without a call on the transport and
  without a change of the model, and \<open>connect\<close> never hands out a stream and leaves the count of its commands. After
  \<open>packet\<close>, after \<open>authenticate\<close>, and after a \<open>connect\<close> that fails for this reason, the connection is closed with
  code 0; a \<open>connect\<close> that the transport fails first returns that error.
\<close>

theorem hijacked_connection_relays_nothing:
  fixes B :: "('u, 'q, 'e, 's, 'r) client_lib"
  assumes "\<And>q. cb_is_jls B q = Some False"
    and "client_conn_packet B pkt addr a c = (packet_res, c1)"
    and "client_conn_connect B target c = (connect_res, c2)"
  shows "packet_res = Returns (Inl (ClientOther ''JLS Hijacked or wrong password/iv'')) \<and>
    cl_conn c1 = cl_conn c \<and> cl_model c1 = cl_model c \<and>
    (\<exists>e. connect_res = Inl e) \<and> task_connect_count (cl_model c2) = task_connect_count (cl_model c) \<and>
    (\<forall>c'. c' = c1 \<or> c' = client_conn_authenticate B c \<or>
        c' = c2 \<and> connect_res = Inl (ClientOther ''JLS Hijacked or wrong password/iv'') \<longrightarrow>
      client_is_closed c' \<and> cl_closes c' = cl_closes c @ [(0, ''No Reason'')])"
proof -
  have "(\<exists>e. connect_res = Inl e) \<and> task_connect_count (cl_model c2) = task_connect_count (cl_model c) \<and>
    (connect_res = Inl (ClientOther ''JLS Hijacked or wrong password/iv'') \<longrightarrow>
      cl_closed c2 \<and> cl_closes c2 = cl_closes c @ [(0, ''No Reason'')])"
    using assms(3)
    by (auto simp: client_conn_connect_def client_connect_def assms(1) Let_def client_close_def
        task_connect_count_def connection_send_connect_def connection_drop_connect_def
        split: prod.splits sum.splits)
  moreover have "packet_res = Returns (Inl (ClientOther ''JLS Hijacked or wrong password/iv''))"
    "c1 = client_close 0 ''No Reason'' c"
    using assms(2) by (simp_all add: client_conn_packet_def assms(1))
  ultimately show ?thesis
    by (auto simp: client_close_def client_is_closed_def client_conn_authenticate_def assms(1))
qed

theorem hijacked_connection_relays_nothing_witness:
  "fst (client_conn_packet (demo_lib (Some False)) [1] (DomainAddress [97] 53) 3 demo_relay_conn) =
     Returns (Inl (ClientOther ''JLS Hijacked or wrong password/iv'')) \<and>
   cl_conn (snd (client_conn_packet (demo_lib (Some False)) [1] (DomainAddress [97] 53) 3 demo_relay_conn)) = []"
proof -
  have jls: "cb_is_jls (demo_lib (Some False)) q = Some False" for q by (simp add: demo_lib_def)
  have "cl_conn demo_relay_conn = []" by (simp add: demo_relay_conn_def client_conn_new_def)
  with hijacked_connection_relays_nothing [OF jls surjective_pairing surjective_pairing,
      of "[1]" "DomainAddress [97] 53" 3 demo_relay_conn]
  show ?thesis by metis
qed

text \<open>
  The keep-alive. A turn of the client's heartbeat loop ends the loop exactly when the connection is
  closed; otherwise it puts a heartbeat datagram on the transport when a \<open>Connect\<close> or an association is
  open, and nothing when none is, and never changes the model.
\<close>

theorem heartbeat_while_tasks:
  fixes B :: "('u, 'q, 'e, 's, 'r) client_lib"
  assumes "takes_datagrams (cb_quic B) sent" and "client_conn_heartbeat B c = (done, c')"
  shows "done = client_is_closed c \<and> cl_model c' = cl_model c \<and>
    sent (cl_conn c') = sent (cl_conn c) @
      (if \<not> client_is_closed c \<and> (task_connect_count (cl_model c) \<noteq> 0 \<or> task_associate_count (cl_model c) \<noteq> 0)
       then [[5, 4]] else [])"
proof -
  obtain r q where send: "send_datagram (cb_quic B) (header_write (cb_uuid B) connection_send_heartbeat [])
      (cl_conn c) = (r, q)" by (rule prod.exhaust)
  have "header_write (cb_uuid B) connection_send_heartbeat [] = [5, 4]"
    by (simp add: connection_send_heartbeat_def header_write_def put_defs VERSION_def heartbeat_type_code_def
        heartbeat_write_def)
  with send assms(1) have "r = Inr ()" "sent q = sent (cl_conn c) @ [[5, 4]]"
    unfolding takes_datagrams_def by (metis fst_conv, metis snd_conv)
  with assms(2) send show ?thesis
    by (auto simp: client_conn_heartbeat_def client_heartbeat_def split: if_splits)
qed

theorem heartbeat_while_tasks_witness:
  "cl_conn (snd (client_conn_heartbeat (demo_lib None) demo_relay_conn)) = [[5, 4]]"
proof -
  have takes: "takes_datagrams (cb_quic (demo_lib None)) (\<lambda>q. q)"
    by (simp add: demo_lib_def loopback_takes)
  have "task_associate_count (cl_model demo_relay_conn) \<noteq> 0" "\<not> client_is_closed demo_relay_conn" "cl_conn demo_relay_conn = []"
    unfolding demo_relay_conn_def by code_simp+
  with heartbeat_while_tasks [OF takes surjective_pairing, of demo_relay_conn] show ?thesis by simp
qed

end
