(* ===== verification/Client_Socks.thy ===== *)
theory Client_Socks
  imports Client_Endpoint Client_Relay
begin

text \<open>
  The SOCKS5 server of the client: \<^verbatim>\<open>tuic-client/src/socks5/mod.rs\<close> and \<^verbatim>\<open>handle_task.rs\<close>. The listener's
  sockets, the protocol's handshake and replies, and the copying between two streams are library code
  (socket2, socks5-server, tokio): their results are arguments.
\<close>

section \<open>Setting up\<close>

datatype socks_auth = NoAuth | PasswordAuth bytes bytes

record tcp_sockets =
  tl_new :: "bool \<Rightarrow> io_error + unit"
  tl_set_only_v6 :: "bool \<Rightarrow> io_error + unit"
  tl_set_reuse_address :: "io_error + unit"
  tl_set_nonblocking :: "io_error + unit"
  tl_bind :: "socket_addr \<Rightarrow> io_error + unit"
  tl_listen :: "io_error + unit"
  tl_from_std :: "io_error + unit"

record socks_server =
  sr_auth :: socks_auth
  sr_dual_stack :: "bool option"
  sr_max_pkt_size :: nat
  sr_next_assoc_id :: u16

definition socket_is_v6 :: "socket_addr \<Rightarrow> bool" where
  "socket_is_v6 addr = (case addr of SocketV4 _ _ \<Rightarrow> False | SocketV6 _ _ _ _ \<Rightarrow> True)"

definition socks_server_new ::
    "tcp_sockets \<Rightarrow> socket_addr \<Rightarrow> bool option \<Rightarrow> nat \<Rightarrow> bytes option \<Rightarrow> bytes option \<Rightarrow>
      'm client_error + socks_server" where
  "socks_server_new T addr dual_stack max_pkt_size username password =
     try_bind (map_err (ClientSocket ''failed to create socks5 server socket'')
       (tl_new T (socket_is_v6 addr))) (\<lambda>_.
     try_bind (case dual_stack of None \<Rightarrow> Inr () | Some dual_stack \<Rightarrow>
       map_err (ClientSocket ''socks5 server dual-stack socket setting error'')
         (tl_set_only_v6 T (\<not> dual_stack))) (\<lambda>_.
     try_bind (map_err (ClientSocket ''failed to set socks5 server socket to reuse_address'')
       (tl_set_reuse_address T)) (\<lambda>_.
     try_bind (map_err (ClientSocket ''failed setting socks5 server socket as non-blocking'')
       (tl_set_nonblocking T)) (\<lambda>_.
     try_bind (map_err (ClientSocket ''failed to bind socks5 server socket'') (tl_bind T addr)) (\<lambda>_.
     try_bind (map_err (ClientSocket ''failed to listen on socks5 server socket'') (tl_listen T)) (\<lambda>_.
     try_bind (map_err (ClientSocket ''failed to create socks5 server socket'') (tl_from_std T)) (\<lambda>_.
     try_bind (case (username, password) of
         (Some username, Some password) \<Rightarrow> Inr (PasswordAuth username password)
       | (None, None) \<Rightarrow> Inr NoAuth
       | _ \<Rightarrow> Inl InvalidSocks5Auth) (\<lambda>auth.
     Inr \<lparr>sr_auth = auth, sr_dual_stack = dual_stack, sr_max_pkt_size = max_pkt_size,
       sr_next_assoc_id = 0\<rparr>))))))))"

text \<open>The statics \<open>SERVER\<close> and \<open>UDP_SESSIONS\<close>; setting one twice panics.\<close>

record socks_statics =
  sx_server :: "socks_server option"
  sx_udp :: socks_udp

definition socks_set_config ::
    "tcp_sockets \<Rightarrow> socket_addr \<Rightarrow> bool option \<Rightarrow> nat \<Rightarrow> bytes option \<Rightarrow> bytes option \<Rightarrow> socks_statics \<Rightarrow>
      ('m client_error + unit) outcome \<times> socks_statics" where
  "socks_set_config T addr dual_stack max_pkt_size username password s =
     (case socks_server_new T addr dual_stack max_pkt_size username password of
        Inl e \<Rightarrow> (Returns (Inl e), s)
      | Inr server \<Rightarrow>
          if sx_server s \<noteq> None then (Panics UnwrapErr, s)
          else (let s = s\<lparr>sx_server := Some server\<rparr> in
            if su_map (sx_udp s) \<noteq> None then (Panics UnwrapErr, s)
            else (Returns (Inr ()), s\<lparr>sx_udp := (sx_udp s)\<lparr>su_map := Some Map.empty\<rparr>\<rparr>)))"

text \<open>\<open>fetch_add\<close> wraps.\<close>

definition next_assoc_id :: "socks_server \<Rightarrow> u16 \<times> socks_server" where
  "next_assoc_id s = (sr_next_assoc_id s, s\<lparr>sr_next_assoc_id := sr_next_assoc_id s + 1\<rparr>)"

section \<open>A connected SOCKS5 client\<close>

text \<open>
  What the connection answers about its addresses, the replies it was given to send (\<open>None\<close> is the
  library's unspecified address), and the number of \<open>shutdown\<close> calls.
\<close>

datatype socks_reply = Succeeded | GeneralFailure | CommandNotSupported

record socks_client =
  so_peer_addr :: "io_error + socket_addr"
  so_local_addr :: "io_error + socket_addr"
  so_replies :: "(socks_reply \<times> socks_address option) list"
  so_shutdowns :: nat

definition socks_send_reply :: "socks_reply \<Rightarrow> socks_address option \<Rightarrow> socks_client \<Rightarrow> socks_client" where
  "socks_send_reply rep addr s = s\<lparr>so_replies := so_replies s @ [(rep, addr)]\<rparr>"

definition socks_shutdown :: "socks_client \<Rightarrow> socks_client" where
  "socks_shutdown s = s\<lparr>so_shutdowns := so_shutdowns s + 1\<rparr>"

definition socket_addr_ip :: "socket_addr \<Rightarrow> ip_addr" where
  "socket_addr_ip addr = (case addr of SocketV4 ip _ \<Rightarrow> IpV4 ip | SocketV6 ip _ _ _ \<Rightarrow> IpV6 ip)"

text \<open>A reply that is the last thing said to the client: it is shut down after it, unless sending it failed.\<close>

definition socks_refuse :: "socks_reply \<Rightarrow> io_error + unit \<Rightarrow> socks_client \<Rightarrow> socks_client" where
  "socks_refuse rep replied s = (let s = socks_send_reply rep None s in
     case replied of Inr _ \<Rightarrow> socks_shutdown s | Inl _ \<Rightarrow> s)"

definition socks_handle_bind :: "io_error + unit \<Rightarrow> socks_client \<Rightarrow> unit outcome \<times> socks_client" where
  "socks_handle_bind replied s = (case so_peer_addr s of
     Inl _ \<Rightarrow> (Panics UnwrapErr, s)
   | Inr _ \<Rightarrow> (Returns (), socks_refuse CommandNotSupported replied s))"

fun tuic_address_of :: "socks_address \<Rightarrow> address" where
  "tuic_address_of (SocksDomain domain port) = DomainAddress domain port"
| "tuic_address_of (SocksSocket addr) = SocketAddress addr"

section \<open>Using the shared connection\<close>

text \<open>
  \<open>get_conn\<close>, and an operation on the connection it hands out, which is a handle on the shared one.
  \<open>g\<close> holds the arguments of \<open>get_conn\<close>.
\<close>

type_synonym ('q, 'k) getting = "bool \<times> ('q, 'k) quinn_endpoint option \<times> ('q, 'k) quinn_endpoint option"

definition on_connection ::
    "('q, 'k) getting \<Rightarrow> (('u, 'q) client_conn \<Rightarrow> ('m client_error + 'a) outcome \<times> ('u, 'q) client_conn) \<Rightarrow>
      ('u, 'q) client_statics \<Rightarrow> ('m client_error + 'a) outcome \<times> ('u, 'q) client_statics" where
  "on_connection g f s = (case g of (locked, attempt1, attempt2) \<Rightarrow>
     (case get_conn locked attempt1 attempt2 s of
        (Panics p, s) \<Rightarrow> (Panics p, s)
      | (Returns (Inl e), s) \<Rightarrow> (Returns (Inl e), s)
      | (Returns (Inr conn), s) \<Rightarrow> (case f conn of
          (r, conn) \<Rightarrow> (r, s\<lparr>st_connection := Some conn\<rparr>))))"

section \<open>Connect\<close>

text \<open>
  \<open>handle_connect\<close>, up to the reply. \<open>replied\<close> is the result of sending it. When it succeeds the streams
  are copied; the relay is what \<open>connect\<close> returned.
\<close>

datatype relay_end = RelayClosed | RelayReset nat | RelayShutdown

definition socks_connect_open ::
    "('u, 'q, 'e, 's, 'r) client_lib \<Rightarrow> ('q, 'k) getting \<Rightarrow> socks_address \<Rightarrow> io_error + unit \<Rightarrow>
      socks_client \<times> ('u, 'q) client_statics \<Rightarrow>
      (connect_header \<times> 's \<times> 'r) option outcome \<times> socks_client \<times> ('u, 'q) client_statics" where
  "socks_connect_open B g addr replied st = (case st of (sock, s) \<Rightarrow>
     (case so_peer_addr sock of
        Inl _ \<Rightarrow> (Panics UnwrapErr, sock, s)
      | Inr _ \<Rightarrow>
     (case (on_connection g (\<lambda>c. case client_conn_connect B (tuic_address_of addr) c of (r, c) \<Rightarrow> (Returns r, c)) s ::
            (('e, 's, 'r) quinn_error client_error + connect_header \<times> 's \<times> 'r) outcome \<times> ('u, 'q) client_statics) of
        (Panics p, s) \<Rightarrow> (Panics p, sock, s)
      | (Returns (Inr relay), s) \<Rightarrow> (Returns (Some relay), socks_send_reply Succeeded None sock, s)
      | (Returns (Inl err), s) \<Rightarrow> (Returns None, socks_refuse GeneralFailure replied sock, s))))"

text \<open>
  From there, with \<open>copied\<close> the result of copying: what happens to the relay, whose command is dropped
  with it when the handler ends.
\<close>

definition socks_connect_close ::
    "io_error + unit \<Rightarrow> io_error + unit \<Rightarrow> socks_client \<times> ('u, 'q) client_statics \<Rightarrow>
      relay_end \<times> socks_client \<times> ('u, 'q) client_statics" where
  "socks_connect_close replied copied st = (case st of (sock, s) \<Rightarrow>
     (let dropped = s\<lparr>st_connection := map_option (\<lambda>c. c\<lparr>cl_model := connection_drop_connect (cl_model c)\<rparr>)
        (st_connection s)\<rparr> in
      case replied of
        Inr _ \<Rightarrow> (case copied of
            Inr _ \<Rightarrow> (RelayClosed, sock, dropped)
          | Inl _ \<Rightarrow> (RelayReset CLIENT_ERROR_CODE, socks_shutdown sock, dropped))
      | Inl _ \<Rightarrow> (RelayShutdown, sock, dropped)))"

definition socks_handle_connect ::
    "('u, 'q, 'e, 's, 'r) client_lib \<Rightarrow> ('q, 'k) getting \<Rightarrow> socks_address \<Rightarrow> io_error + unit \<Rightarrow> io_error + unit \<Rightarrow>
      socks_client \<times> ('u, 'q) client_statics \<Rightarrow>
      relay_end option outcome \<times> socks_client \<times> ('u, 'q) client_statics" where
  "socks_handle_connect B g addr replied copied st =
     (case socks_connect_open B g addr replied st of
        (Panics p, st) \<Rightarrow> (Panics p, st)
      | (Returns None, st) \<Rightarrow> (Returns None, st)
      | (Returns (Some _), st) \<Rightarrow> (case socks_connect_close replied copied st of
          (e, st) \<Rightarrow> (Returns (Some e), st)))"

section \<open>Associate\<close>

text \<open>
  \<open>handle_associate\<close>, up to where the session is registered: the number of the session, or \<open>None\<close> when
  the handler has ended. \<open>local_addr\<close> is what the session's socket says of its address.
\<close>

definition associate_open ::
    "socks_sockets \<Rightarrow> io_error + socket_addr \<Rightarrow> io_error + unit \<Rightarrow> u16 \<Rightarrow> bool option \<Rightarrow>
      socks_client \<times> socks_udp \<Rightarrow> nat option outcome \<times> socks_client \<times> socks_udp" where
  "associate_open S local_addr replied assoc_id dual_stack st = (case st of (sock, u) \<Rightarrow>
     (case so_peer_addr sock of Inl _ \<Rightarrow> (Panics UnwrapErr, sock, u) | Inr peer_addr \<Rightarrow>
     (case so_local_addr sock of Inl _ \<Rightarrow> (Panics UnwrapErr, sock, u) | Inr local_ip \<Rightarrow>
     (case (socks_session_new S assoc_id peer_addr (socket_addr_ip local_ip) dual_stack ::
            unit client_error + socks_session) of
        Inl _ \<Rightarrow> (Returns None, socks_refuse GeneralFailure replied sock, u)
      | Inr session \<Rightarrow>
     (case local_addr of Inl _ \<Rightarrow> (Panics UnwrapErr, sock, u) | Inr local_addr \<Rightarrow>
     (let sock = socks_send_reply Succeeded (Some (SocksSocket local_addr)) sock in
     (case replied of Inl _ \<Rightarrow> (Returns None, sock, u) | Inr _ \<Rightarrow>
     (case su_map u of None \<Rightarrow> (Panics UnwrapNone, sock, u) | Some sessions \<Rightarrow>
        (Returns (Some (su_next u)), sock,
         u\<lparr>su_map := Some (sessions(assoc_id \<mapsto> su_next u)),
           su_sessions := (su_sessions u)(su_next u \<mapsto> session), su_next := su_next u + 1\<rparr>)))))))))"

text \<open>
  One turn of the loop over the client's packets, and the task it spawns for the packet: the target is
  converted, and the packet given to the connection. An error is logged.
\<close>

definition associate_recv ::
    "(socket_addr \<Rightarrow> string) \<Rightarrow> (socket_addr \<Rightarrow> io_error + socket_addr) \<Rightarrow>
      io_error + bytes \<times> u8 \<times> socks_address \<times> socket_addr \<Rightarrow> nat \<Rightarrow> socks_udp \<Rightarrow>
      (bytes \<times> socks_address) option \<times> socks_udp" where
  "associate_recv display connect received sid u = (case su_sessions u sid of
     None \<Rightarrow> (None, u)
   | Some session \<Rightarrow>
       (case (socks_session_recv display connect received session ::
              (unit client_error + bytes \<times> socks_address) \<times> socks_session) of
          (Inl _, session) \<Rightarrow> (None, u\<lparr>su_sessions := (su_sessions u)(sid \<mapsto> session)\<rparr>)
        | (Inr res, session) \<Rightarrow> (Some res, u\<lparr>su_sessions := (su_sessions u)(sid \<mapsto> session)\<rparr>)))"

definition associate_forward ::
    "('u, 'q, 'e, 's, 'r) client_lib \<Rightarrow> ('q, 'k) getting \<Rightarrow> u16 \<Rightarrow> bytes \<times> socks_address \<Rightarrow>
      ('u, 'q) client_statics \<Rightarrow>
      (('e, 's, 'r) quinn_error client_error + unit) outcome \<times> ('u, 'q) client_statics" where
  "associate_forward B g assoc_id pkt s = (case pkt of (pkt, target_addr) \<Rightarrow>
     on_connection g (client_conn_packet B pkt (tuic_address_of target_addr) assoc_id) s)"

text \<open>After the client's control connection has closed.\<close>

definition associate_remove :: "u16 \<Rightarrow> socks_udp \<Rightarrow> unit outcome \<times> socks_udp" where
  "associate_remove assoc_id u = (case su_map u of
     None \<Rightarrow> (Panics UnwrapNone, u)
   | Some sessions \<Rightarrow>
       (case sessions assoc_id of None \<Rightarrow> Panics UnwrapNone | Some _ \<Rightarrow> Returns (),
        u\<lparr>su_map := Some (sessions(assoc_id := None))\<rparr>))"

definition associate_close ::
    "('u, 'q, 'e, 's, 'r) client_lib \<Rightarrow> ('q, 'k) getting \<Rightarrow> u16 \<Rightarrow> socks_udp \<times> ('u, 'q) client_statics \<Rightarrow>
      unit outcome \<times> socks_udp \<times> ('u, 'q) client_statics" where
  "associate_close B g assoc_id st = (case st of (u, s) \<Rightarrow>
     (case associate_remove assoc_id u of
        (Panics p, u) \<Rightarrow> (Panics p, u, s)
      | (Returns _, u) \<Rightarrow>
          (case (on_connection g (\<lambda>c. case client_conn_dissociate B assoc_id c of (r, c) \<Rightarrow> (Returns r, c)) s ::
              (('e, 's, 'r) quinn_error client_error + unit) outcome \<times> ('u, 'q) client_statics) of
            (Panics p, s) \<Rightarrow> (Panics p, u, s)
          | (Returns _, s) \<Rightarrow> (Returns (), u, s))))"

section \<open>Accepting\<close>

text \<open>One turn of the loop of \<open>start\<close>, with the result of the handshake: the handler that is run.\<close>

datatype socks_command = CommandAssociate | CommandBind | CommandConnect socks_address

datatype socks_handler = RunAssociate u16 "bool option" nat | RunBind | RunConnect socks_address | RunNothing

definition socks_accept :: "'h + socks_command \<Rightarrow> socks_statics \<Rightarrow> socks_handler outcome \<times> socks_statics" where
  "socks_accept handshake s = (case sx_server s of
     None \<Rightarrow> (Panics UnwrapNone, s)
   | Some server \<Rightarrow> (case handshake of
       Inr CommandAssociate \<Rightarrow> (case next_assoc_id server of (assoc_id, server) \<Rightarrow>
         (Returns (RunAssociate assoc_id (sr_dual_stack server) (sr_max_pkt_size server)),
          s\<lparr>sx_server := Some server\<rparr>))
     | Inr CommandBind \<Rightarrow> (Returns RunBind, s)
     | Inr (CommandConnect addr) \<Rightarrow> (Returns (RunConnect addr), s)
     | Inl _ \<Rightarrow> (Returns RunNothing, s)))"

section \<open>Properties\<close>

lemma on_connection_cases:
  fixes s :: "('u, 'q) client_statics"
  assumes "on_connection g f s = (r :: ('m client_error + 'a) outcome, s')"
  obtains (panicked) p where "r = Panics p"
    | (no_connection) e where "r = Returns (Inl e)"
        "get_conn (fst g) (fst (snd g)) (snd (snd g)) s = (Returns (Inl e), s')"
    | (used) conn s1 conn' where
        "get_conn (fst g) (fst (snd g)) (snd (snd g)) s = (Returns (Inr conn) :: ('m client_error + _) outcome, s1)"
        "f conn = (r, conn')" "s' = s1\<lparr>st_connection := Some conn'\<rparr>"
  using assms
  by (auto simp: on_connection_def split: prod.splits outcome.splits sum.splits)

text \<open>
  The start of the SOCKS5 server. When the listening socket can be set up, it wants a password
  exactly when both a user name and a password are configured, none when neither is, and with one of
  the two it does not start; the association numbers start at 0, and the table of UDP sessions empty.
  A second start panics.
\<close>

theorem socks_server_starts:
  assumes "\<And>b. tl_new T b = Inr ()" and "\<And>b. tl_set_only_v6 T b = Inr ()" and "tl_set_reuse_address T = Inr ()"
    and "tl_set_nonblocking T = Inr ()" and "tl_bind T addr = Inr ()" and "tl_listen T = Inr ()" and "tl_from_std T = Inr ()"
    and "socks_set_config T addr dual_stack sz username password s = (r :: ('m client_error + unit) outcome, s')"
  shows "((username = None) \<noteq> (password = None) \<longrightarrow> r = Returns (Inl InvalidSocks5Auth) \<and> s' = s) \<and>
    ((username = None) = (password = None) \<longrightarrow>
      (sx_server s = None \<and> su_map (sx_udp s) = None \<longrightarrow> r = Returns (Inr ()) \<and>
        su_map (sx_udp s') = Some Map.empty \<and>
        sx_server s' = Some \<lparr>sr_auth = (if username = None then NoAuth else PasswordAuth (the username) (the password)),
          sr_dual_stack = dual_stack, sr_max_pkt_size = sz, sr_next_assoc_id = 0\<rparr>) \<and>
      (sx_server s \<noteq> None \<longrightarrow> r = Panics UnwrapErr \<and> s' = s))"
  using assms(8)
  by (auto simp: socks_set_config_def socks_server_new_def assms(1-7) split: option.splits)

definition demo_listener :: tcp_sockets where
  "demo_listener = \<lparr>tl_new = (\<lambda>_. Inr ()), tl_set_only_v6 = (\<lambda>_. Inr ()), tl_set_reuse_address = Inr (),
     tl_set_nonblocking = Inr (), tl_bind = (\<lambda>_. Inr ()), tl_listen = Inr (), tl_from_std = Inr ()\<rparr>"

definition demo_statics :: socks_statics where
  "demo_statics = \<lparr>sx_server = None, sx_udp = \<lparr>su_map = None, su_sessions = Map.empty, su_next = 0\<rparr>\<rparr>"

theorem socks_server_starts_witness:
  "fst (socks_set_config demo_listener (SocketV4 (Ipv4 127 0 0 1) 1080) (Some True) 1500 (Some [97]) None demo_statics)
     = (Returns (Inl InvalidSocks5Auth) :: (string client_error + unit) outcome)"
proof -
  have T: "tl_new demo_listener b = Inr ()" "tl_set_only_v6 demo_listener b = Inr ()"
    "tl_set_reuse_address demo_listener = Inr ()" "tl_set_nonblocking demo_listener = Inr ()"
    "tl_bind demo_listener a = Inr ()" "tl_listen demo_listener = Inr ()" "tl_from_std demo_listener = Inr ()"
    for a b by (simp_all add: demo_listener_def)
  note starts = socks_server_starts [OF T surjective_pairing, where username = "Some [97]" and password = None]
  show ?thesis by (rule starts [THEN conjunct1, THEN mp, THEN conjunct1]) simp
qed

text \<open>
  C20: a SOCKS5 client that asks for a TCP stream is sent one reply. When the connection to the server is open, it is
  \<open>Succeeded\<close> if \<open>connect\<close> handed out a relay, and \<open>GeneralFailure\<close> otherwise. When \<open>Succeeded\<close> could be sent, the
  streams are copied, and a copy that fails resets the relay with code 0 and shuts the client down; when it could
  not, the relay is shut down. When \<open>GeneralFailure\<close> could be sent, the client is shut down. In every case the
  connection counts as many open \<open>Connect\<close> commands afterwards as before.
\<close>

theorem socks_connect_answered:
  fixes B :: "('u, 'q, 'e, 's, 'r) client_lib" and s :: "('u, 'q) client_statics"
  assumes "so_peer_addr sock = Inr peer" and "st_connection s = Some c" and "\<not> client_is_closed c"
    and "client_conn_connect B (tuic_address_of addr) c = (connected, c1)"
    and "socks_handle_connect B (True, g) addr replied copied (sock, s) = (r, sock', s')"
  shows "so_replies sock' = so_replies sock @ [(case connected of Inr _ \<Rightarrow> Succeeded | Inl _ \<Rightarrow> GeneralFailure, None)] \<and>
    (\<exists>c'. st_connection s' = Some c' \<and> task_connect_count (cl_model c') = task_connect_count (cl_model c)) \<and>
    r = Returns (case connected of Inl _ \<Rightarrow> None | Inr _ \<Rightarrow> Some (case replied of Inl _ \<Rightarrow> RelayShutdown
      | Inr _ \<Rightarrow> (case copied of Inl _ \<Rightarrow> RelayReset 0 | Inr _ \<Rightarrow> RelayClosed))) \<and>
    so_shutdowns sock' = so_shutdowns sock + (case (connected, replied, copied) of
      (Inl _, Inr _, _) \<Rightarrow> 1 | (Inr _, Inr _, Inl _) \<Rightarrow> 1 | _ \<Rightarrow> 0)"
proof -
  have get: "get_conn True (fst g) (snd g) s = (Returns (Inr c) :: (('e, 's, 'r) quinn_error client_error + _) outcome, s)"
    using assms(2,3) by (simp add: get_conn_def)
  have on: "(on_connection (True, g) (\<lambda>c. case client_conn_connect B (tuic_address_of addr) c of (r, c) \<Rightarrow> (Returns r, c)) s) =
      (Returns connected, s\<lparr>st_connection := Some c1\<rparr>)"
    using get assms(4) by (simp add: on_connection_def split_beta)
  have count: "task_connect_count (cl_model c1) = task_connect_count (cl_model c) +
      (case connected of Inl _ \<Rightarrow> 0 | Inr _ \<Rightarrow> 1)"
    using assms(4)
    by (auto simp: client_conn_connect_def client_connect_def Let_def client_close_def task_connect_count_def
        connection_send_connect_def connection_drop_connect_def split: prod.splits sum.splits if_splits)
  have drop: "task_connect_count (connection_drop_connect m) = task_connect_count m - 1" for m
    by (simp add: task_connect_count_def connection_drop_connect_def)
  show ?thesis
    using assms(5) count on
    by (auto simp: socks_handle_connect_def socks_connect_open_def socks_connect_close_def assms(1) Let_def drop
        socks_refuse_def socks_send_reply_def socks_shutdown_def CLIENT_ERROR_CODE_def split: sum.splits)
qed

definition demo_client :: socks_client where
  "demo_client = \<lparr>so_peer_addr = Inr (SocketV4 (Ipv4 127 0 0 1) 5000),
     so_local_addr = Inr (SocketV4 (Ipv4 127 0 0 1) 1080), so_replies = [], so_shutdowns = 0\<rparr>"

text \<open>A transport whose streams take everything.\<close>

definition demo_streams :: "(bytes, bytes list, string, unit, unit) client_lib" where
  "demo_streams = demo_lib (Some True)\<lparr>cb_quic := (loopback 16)\<lparr>open_bi := (\<lambda>q. (Inr ((), ()), q)),
     poll_write_all := (\<lambda>_ bs q. (Inr (), q @ [bs]))\<rparr>\<rparr>"

theorem socks_connect_answered_witness:
  "let s = \<lparr>st_endpoint = None, st_connection = Some demo_relay_conn, st_timeout = 0\<rparr>;
     p = socks_handle_connect demo_streams (True, None, None :: (bytes list, nat) quinn_endpoint option)
       (SocksDomain [97] 53) (Inr ()) (Inl UnexpectedEof) (demo_client, s)
   in fst p = Returns (Some (RelayReset 0)) \<and> so_replies (fst (snd p)) = [(Succeeded, None)]"
proof -
  let ?g = "(None, None) :: (bytes list, nat) quinn_endpoint option \<times> (bytes list, nat) quinn_endpoint option"
  let ?s = "\<lparr>st_endpoint = None :: bytes client_endpoint option, st_connection = Some demo_relay_conn, st_timeout = 0\<rparr>"
  let ?c = "client_conn_connect demo_streams (tuic_address_of (SocksDomain [97] 53)) demo_relay_conn"
  have peer: "so_peer_addr demo_client = Inr (SocketV4 (Ipv4 127 0 0 1) 5000)" by (simp add: demo_client_def)
  have conn: "st_connection ?s = Some demo_relay_conn" by simp
  have opened: "\<not> client_is_closed demo_relay_conn" unfolding demo_relay_conn_def by code_simp
  have triple: "t = (fst t, fst (snd t), snd (snd t))" for t :: "'a \<times> 'b \<times> 'c" by simp
  note answered = socks_connect_answered [OF peer conn opened surjective_pairing triple,
      where B = demo_streams and addr = "SocksDomain [97] 53" and g = ?g and replied = "Inr ()"
        and copied = "Inl UnexpectedEof"]
  have "isl (fst ?c) = False" unfolding demo_relay_conn_def demo_streams_def demo_lib_def by code_simp
  then obtain relay where "fst ?c = Inr relay" by (cases "fst ?c") auto
  with answered show ?thesis by (simp add: Let_def demo_client_def)
qed

text \<open>
  A UDP packet of a SOCKS5 client on its way: an unfragmented packet for a target that reaches the socket of an association is
  given to the open connection, with the target the client asked for and the association's number.
\<close>

lemma associate_forwards_packet:
  fixes B :: "('u, 'q, 'e, 's, 'r) client_lib" and s :: "('u, 'q) client_statics"
  assumes "su_sessions u sid = Some session" and "sk_peer session = None \<or> sk_peer session = Some src"
    and "connect src = Inr peer"
    and "st_connection s = Some c" and "\<not> client_is_closed c"
    and "associate_recv display connect (Inr (payload, 0, target, src)) sid u = (Some pkt, u')"
    and "associate_forward B (True, g) a pkt s = (res, s')" and "st_connection s' = Some c'"
  shows "client_conn_packet B payload (tuic_address_of target) a c = (res, c')"
    and "\<not> address_is_none (tuic_address_of target)"
proof -
  have pkt: "pkt = (payload, target)"
    using assms(1,6) by (auto simp: associate_recv_def socks_session_recv_def split: prod.splits sum.splits
        if_splits option.splits)
  have "get_conn True (fst g) (snd g) s = (Returns (Inr c) :: (('e, 's, 'r) quinn_error client_error + _) outcome, s)"
    using assms(4,5) by (simp add: get_conn_def)
  then show "client_conn_packet B payload (tuic_address_of target) a c = (res, c')"
    using assms(7,8) by (auto simp: associate_forward_def on_connection_def pkt split: prod.splits)
  show "\<not> address_is_none (tuic_address_of target)" by (cases target) auto
qed

section \<open>A packet forwarded by a concrete client\<close>

definition demo_forwarded ::
    "((string, unit, unit) quinn_error client_error + unit) outcome \<times> (bytes, bytes list) client_statics" where
  "demo_forwarded = associate_forward (demo_lib None) (True, None, None :: (bytes list, nat) quinn_endpoint option) 3
     ([1, 2, 3, 4, 5, 6, 7, 8], SocksDomain [97] 53) \<lparr>st_endpoint = None, st_connection = Some demo_relay_conn, st_timeout = 0\<rparr>"

lemma demo_relay_conn_simps [simp]:
  "cl_conn demo_relay_conn = []" "\<not> client_is_closed demo_relay_conn" "cl_udp_relay_mode demo_relay_conn = RelayNative"
  by (simp_all add: demo_relay_conn_def client_conn_new_def client_is_closed_def)

lemma demo_forwarded_sent:
  obtains c' where "st_connection (snd demo_forwarded) = Some c'" and "length (cl_conn c') = 3"
proof -
  let ?payload = "[1, 2, 3, 4, 5, 6, 7, 8] :: bytes"
  let ?addr = "DomainAddress [97] 53"
  let ?sent = "packet_native True (cb_uuid (demo_lib None)) (loopback 16) ?payload ?addr 3 (cl_model demo_relay_conn, [])"
  obtain c' where c': "st_connection (snd demo_forwarded) = Some c'" and q: "cl_conn c' = snd (snd ?sent)"
    by (simp add: demo_forwarded_def associate_forward_def on_connection_def get_conn_def client_conn_packet_def
        demo_lib_def split_beta)
  have split: "?sent = (fst ?sent, fst (snd ?sent), snd (snd ?sent))" by simp
  have max: "max_datagram_size (loopback 16) q = Some 16" for q by (simp add: loopback_def)
  note eval = packet_header_len_eq frag_count_def cut_payload_def chunk_step usize_modulus_def
    splits_evenly_into_last_def
  have "snd (snd ?sent) = [] @ map (fragment_datagram (cb_uuid (demo_lib None))) (number_items 3
      (next_pkt_id (cl_model demo_relay_conn) 3) (of_nat (length (cut_payload 16 ?addr ?payload))) 0 ?addr
      (cut_payload 16 ?addr ?payload))"
    by (rule packet_native_sent(2) [OF loopback_takes max _ _ _ _ _ _ split]) (simp_all add: eval)
  then have "length (cl_conn c') = 3" by (simp add: eval q)
  with c' show thesis by (rule that)
qed

end
