(* ===== verification/Proxy_Streams.thy ===== *)
theory Proxy_Streams
  imports Server_Handlers Client_Socks
begin

text \<open>
  Commands on streams through both programs: a SOCKS5 \<open>CONNECT\<close> from the client's handler to the exchange
  with its target on the server, and the end of a SOCKS5 association, which the client tells the server with a
  \<open>Dissociate\<close>.
\<close>

text \<open>A client with an open connection in a mode, that is not known to be hijacked.\<close>

definition client_ready ::
    "client_relay_mode \<Rightarrow> ('u, 'q, 'e, 's, 'r) client_lib \<Rightarrow> ('u, 'q) client_statics \<Rightarrow> ('u, 'q) client_conn \<Rightarrow> bool" where
  "client_ready mode B s c \<longleftrightarrow> st_connection s = Some c \<and> \<not> client_is_closed c \<and> cl_udp_relay_mode c = mode \<and>
     cb_is_jls B (cl_conn c) \<noteq> Some False"

section \<open>The end of an association\<close>

lemma relay_map_dissociate: "relay_map (relay_dissociate a s) = (relay_map s)(a := None)"
  by (auto simp: relay_dissociate_def relay_shut_def Let_def fun_eq_iff split: option.split)

lemma sessions_after_dissociate:
  "ss_sessions (sessions_remove a s) = (ss_sessions s)(a := None)"
  by (auto simp: sessions_remove_def fun_eq_iff split: option.split)

lemma client_dissociate_sent:
  assumes "takes_streams Q opened sent" and "client_dissociate U Q a (c, q) = (r, c', q')"
  obtains x where "r = Inr ()" and "opened q' = opened q @ [x]"
    and "sent q' x = header_write U (Dissociate \<lparr>dh_assoc_id = a\<rparr>) []"
    and "ss_sessions (cn_udp_sessions c') = (ss_sessions (cn_udp_sessions c))(a := None)"
proof -
  obtain r1 q1 where send: "send_uni U Q (Dissociate \<lparr>dh_assoc_id = a\<rparr>) None q = (r1, q1)" by (rule prod.exhaust)
  obtain x where "r1 = Inr ()" "opened q1 = opened q @ [x]"
    "sent q1 = (sent q)(x := header_write U (Dissociate \<lparr>dh_assoc_id = a\<rparr>) [])"
    by (rule send_uni_sent [OF assms(1) send]) simp
  with assms(2) send show thesis
    by (intro that [of x]) (auto simp: client_dissociate_def connection_send_dissociate_def
        udp_sessions_dissociate_def sessions_after_dissociate)
qed

text \<open>
  C6: the end of an association ends it everywhere. When the control connection of a SOCKS5 client closes, its
  association is removed on the client, with the packets waiting for it, and one command goes out on a stream of
  its own; when it reaches the server, in any pieces and in either mode, the association's UDP session is
  removed from the server's map, with all its waiting fragments, and every other association is left as it was.
\<close>

theorem dissociation_reaches_server:
  fixes B :: "('u, 'q, 'e, 's, 'r) client_lib" and A :: "('u, 'p, 'f, 't, recv_stream) app"
    and v :: "('u, 'p, ('f, 't, recv_stream) quinn_error) server_conn"
  assumes "takes_streams (cb_quic B) opened sent" and "client_ready mode B s c"
    and "su_map u = Some m" and "m a \<noteq> None"
    and "associate_close B (True, g) a (u, s) = (r, u', s')" and "st_connection s' = Some c'"
    and "opened (cl_conn c') = opened (cl_conn c) @ new"
    and "\<And>x. new = [x] \<Longrightarrow> stream_of (sent (cl_conn c') x) recv"
    and "lib_uuid A = cb_uuid B" and "lib_read A = stream_read_exact" and "\<not> overflow_checks A"
    and "reachable (server_fresh nil) server_step v" and "sc_closed v = None"
    and "handle_stream_event A (now, pick, recv) v = (res, v')"
  shows "r = Returns () \<and> su_map u' = Some (m(a := None)) \<and>
    ss_sessions (cn_udp_sessions (cl_model c')) = (ss_sessions (cn_udp_sessions (cl_model c)))(a := None) \<and>
    length new = 1 \<and> res = Some (Returns ()) \<and> sc_closed v' = None \<and>
    relay_map (sc_udp_sessions v') = (relay_map (sc_udp_sessions v))(a := None) \<and>
    ss_sessions (cn_udp_sessions (sc_model v')) = (ss_sessions (cn_udp_sessions (sc_model v)))(a := None)"
proof -
  note ready = assms(2) [unfolded client_ready_def]
  obtain g1 g2 where g: "g = (g1, g2)" by (cases g)
  have get: "get_conn True g1 g2 s = (Returns (Inr c) :: (('e, 's, 'r) quinn_error client_error + _) outcome, s)"
    using ready by (simp add: get_conn_def)
  obtain d model q where send: "client_dissociate (cb_uuid B) (cb_quic B) a (cl_model c, cl_conn c) = (d, model, q)"
    by (metis prod.collapse)
  obtain x where x: "d = Inr ()" "opened q = opened (cl_conn c) @ [x]"
    "sent q x = header_write (cb_uuid B) (Dissociate \<lparr>dh_assoc_id = a\<rparr>) []"
    "ss_sessions (cn_udp_sessions model) = (ss_sessions (cn_udp_sessions (cl_model c)))(a := None)"
    by (rule client_dissociate_sent [OF assms(1) send])
  have client: "r = Returns ()" "su_map u' = Some (m(a := None))" "c' = c\<lparr>cl_model := model, cl_conn := q\<rparr>"
    using assms(3-6) get send
    by (auto simp: g associate_close_def associate_remove_def on_connection_def client_conn_dissociate_def
        split: option.splits prod.splits)
  have new: "new = [x]" using assms(7) x(2) client(3) by simp
  have wf: "wf_header (cb_uuid B) (Dissociate \<lparr>dh_assoc_id = a\<rparr>)" by simp
  have "stream_of (header_write (cb_uuid B) (Dissociate \<lparr>dh_assoc_id = a\<rparr>) [] @ []) recv"
    using assms(8) [OF new] x(3) client(3) by simp
  then obtain rest where "async_unmarshal (cb_uuid B) stream_read_exact recv = (Inr (Dissociate \<lparr>dh_assoc_id = a\<rparr>), rest)"
    by (rule stream_of_unmarshal [OF wf])
  then have acc: "server_accept_uni_stream (lib_uuid A) (lib_read A) recv (sc_model v) =
      (Inr (TaskDissociate a) :: ('f, 't, recv_stream) quinn_error + ('u, 't, recv_stream) task,
       (sc_model v)\<lparr>cn_udp_sessions := sessions_remove a (cn_udp_sessions (sc_model v))\<rparr>)"
    by (simp add: server_accept_uni_stream_def assms(9,10) connection_recv_dissociate_def dissociate_into_def
        udp_sessions_dissociate_def)
  have relays: "relays_as nil (case sc_udp_relay_mode v of None \<Rightarrow> Native | Some mode \<Rightarrow> mode) v"
    using assms(13) server.reachable_inv [OF assms(12)] by (simp add: relays_as_def split: option.split)
  obtain v1 where v1: "sc_model v1 = (sc_model v)\<lparr>cn_udp_sessions := sessions_remove a (cn_udp_sessions (sc_model v))\<rparr>"
    "same_relay v v1"
    and run: "handle_stream_event A (now, pick, recv) v =
      (Some (Returns ()), drop_uni_register (handle_dissociate a v1))"
    by (rule stream_handler_starts [OF assms(11) relays acc, where now = now and pick = pick]) simp_all
  have v': "res = Some (Returns ())" "v' = drop_uni_register (handle_dissociate a v1)"
    using run assms(14) by simp_all
  show ?thesis
    using client x(4) new v1 assms(13)
    by (simp add: v' drop_uni_register_def handle_dissociate_def same_relay_def relay_map_dissociate
        sessions_after_dissociate)
qed

section \<open>A connection to a target\<close>

lemma client_connect_sent:
  assumes "takes_streams Q opened sent" and "client_connect U Q addr (c, q) = (r, c', q')"
  obtains x rv where "r = Inr (\<lparr>ch_addr = addr\<rparr>, x, rv)" and "opened q' = opened q @ [x]"
    and "sent q' x = header_write U (Connect \<lparr>ch_addr = addr\<rparr>) []"
proof -
  obtain x rv q1 where x: "open_bi Q q = (Inr (x, rv), q1)" "opened q1 = opened q @ [x]" "sent q1 = (sent q)(x := [])"
    using takes_streamsD(2) [OF assms(1)] by blast
  then obtain q2 where "poll_write_all Q x (header_write U (Connect \<lparr>ch_addr = addr\<rparr>) []) q1 = (Inr (), q2)"
    "opened q2 = opened q1" "sent q2 = (sent q1)(x := sent q1 x @ header_write U (Connect \<lparr>ch_addr = addr\<rparr>) [])"
    using takes_streamsD(3) [OF assms(1), of x q1] by auto
  with x assms(2) show thesis
    by (intro that [of x rv]) (auto simp: client_connect_def connection_send_connect_def async_marshal_def Let_def)
qed

text \<open>
  A \<open>CONNECT\<close> on the client: the stream it opens, what it writes on it, and the answer to the SOCKS5 client.
\<close>

lemma socks_connect_opens:
  fixes B :: "('u, 'q, 'e, 's, 'r) client_lib"
  assumes "takes_streams (cb_quic B) opened sent" and "client_ready mode B s c" and "so_peer_addr sock = Inr peer"
    and "socks_connect_open B (True, g) addr replied (sock, s) = (r, sock', s')" and "st_connection s' = Some c'"
    and "cb_is_jls B (cl_conn c') \<noteq> Some False"
  obtains x rv where "r = Returns (Some (\<lparr>ch_addr = tuic_address_of addr\<rparr>, x, rv))"
    and "opened (cl_conn c') = opened (cl_conn c) @ [x]"
    and "sent (cl_conn c') x = header_write (cb_uuid B) (Connect \<lparr>ch_addr = tuic_address_of addr\<rparr>) []"
    and "so_replies sock' = so_replies sock @ [(Succeeded, None)]"
proof -
  note ready = assms(2) [unfolded client_ready_def]
  obtain g1 g2 where g: "g = (g1, g2)" by (cases g)
  have get: "get_conn True g1 g2 s = (Returns (Inr c) :: (('e, 's, 'r) quinn_error client_error + _) outcome, s)"
    using ready by (simp add: get_conn_def)
  obtain d model q where send: "client_connect (cb_uuid B) (cb_quic B) (tuic_address_of addr) (cl_model c, cl_conn c) =
      (d, model, q)" by (metis prod.collapse)
  obtain x rv where x: "d = Inr (\<lparr>ch_addr = tuic_address_of addr\<rparr>, x, rv)" "opened q = opened (cl_conn c) @ [x]"
    "sent q x = header_write (cb_uuid B) (Connect \<lparr>ch_addr = tuic_address_of addr\<rparr>) []"
    by (rule client_connect_sent [OF assms(1) send])
  have "cl_conn c' = q"
    using assms(3-5) get send x(1)
    by (auto simp: g socks_connect_open_def on_connection_def client_conn_connect_def Let_def client_close_def
        split: if_splits)
  with assms(3-6) get send x show thesis
    by (intro that [of x rv]) (auto simp: g socks_connect_open_def on_connection_def client_conn_connect_def
        socks_send_reply_def Let_def)
qed

text \<open>
  C5: a TCP stream goes from the SOCKS5 client to its target. A \<open>CONNECT\<close> is answered with success, and one stream
  is opened for it; when that stream reaches the server, with what the client sends on it, in any pieces, the
  server reads the command, leaves what follows it on the stream, dials the addresses of the target until one
  accepts, and hands it exactly what it reads of the client's bytes, and the client exactly what it reads of the target's,
  until the exchange ends; then it finishes the client's stream, or resets it on an error, shuts the target's down, counts the bytes of
  both directions for the user, and has no \<open>Connect\<close> more than before.
\<close>

theorem socks_connect_reaches_target:
  fixes B :: "('u, 'q, 'e, 's, 'r) client_lib" and A :: "('u, 'p, 'f, 't, recv_stream) app"
    and v :: "('u, 'p, ('f, 't, recv_stream) quinn_error) server_conn"
  assumes "takes_streams (cb_quic B) opened sent" and "client_ready mode B s c" and "so_peer_addr sock = Inr peer"
    and "wf_address (tuic_address_of addr)"
    and "socks_connect_open B (True, g) addr replied (sock, s) = (r, sock', s')" and "st_connection s' = Some c'"
    and "cb_is_jls B (cl_conn c') \<noteq> Some False" and "opened (cl_conn c') = opened (cl_conn c) @ new"
    and "\<And>x. new = [x] \<Longrightarrow> stream_of (sent (cl_conn c') x @ request) recv"
    and "lib_uuid A = cb_uuid B" and "lib_read A = stream_read_exact" and "\<not> overflow_checks A"
    and "reachable (server_fresh nil) server_step v" and "sc_closed v = None"
    and "resolve_dns (lib_lookup_host A) (tuic_address_of addr) = Inr (unreachable @ target # rest)"
    and "\<And>a. a \<in> set unreachable \<Longrightarrow> tcp_connect D a = Inl (err a)"
    and "tcp_connect D target = Inr k" and "set_nodelay D k = Inr ()"
    and "tcp_turns D k = ts @ t # later" and "\<forall>t \<in> set ts. \<not> ends_loop t" and "ends_loop t"
    and "handle_bi_event A D (pick, send, recv) v = (res, v')"
  shows "so_replies sock' = so_replies sock @ [(Succeeded, None)] \<and>
    (\<exists>x rv. new = [x] \<and> r = Returns (Some (\<lparr>ch_addr = tuic_address_of addr\<rparr>, x, rv))) \<and>
    (\<exists>left m. (server_accept_bi_stream (lib_uuid A) (lib_read A) send recv (sc_model v) ::
        (('f, 't, recv_stream) quinn_error + ('u, 't, recv_stream) task) \<times> connection) =
        (Inr (TaskConnect \<lparr>crx_addr = tuic_address_of addr\<rparr> send left), m) \<and> stream_of request left) \<and>
    to_target (fst (exchange_loop (tcp_turns D k) exchange_start)) = from_client (ts @ [t]) \<and>
    to_client (fst (exchange_loop (tcp_turns D k) exchange_start)) = from_target (ts @ [t]) \<and>
    res = Some (Returns ([if turn_error t = None then FinishClient else ResetClient 6000, ShutdownTarget],
      map_option ConnectIo (turn_error t))) \<and>
    sc_restful v' = traffic_rx (cfg_restful A) nil (of_nat (length (from_target (ts @ [t]))))
      (traffic_tx (cfg_restful A) nil (of_nat (length (from_client (ts @ [t])))) (sc_restful v)) \<and>
    task_connect_count (sc_model v') = task_connect_count (sc_model v) \<and> sc_closed v' = None"
proof -
  let ?addr = "tuic_address_of addr"
  obtain x rv where client: "r = Returns (Some (\<lparr>ch_addr = ?addr\<rparr>, x, rv))"
    "opened (cl_conn c') = opened (cl_conn c) @ [x]"
    "sent (cl_conn c') x = header_write (cb_uuid B) (Connect \<lparr>ch_addr = ?addr\<rparr>) []"
    "so_replies sock' = so_replies sock @ [(Succeeded, None)]"
    by (rule socks_connect_opens [OF assms(1,2,3,5,6,7)])
  have new: "new = [x]" using assms(8) client(2) by simp
  have wf: "wf_header (cb_uuid B) (Connect \<lparr>ch_addr = ?addr\<rparr>)" using assms(4) by simp
  have "stream_of (header_write (cb_uuid B) (Connect \<lparr>ch_addr = ?addr\<rparr>) [] @ request) recv"
    using assms(9) [OF new] client(3) by simp
  then obtain left where "async_unmarshal (cb_uuid B) stream_read_exact recv = (Inr (Connect \<lparr>ch_addr = ?addr\<rparr>), left)"
    and left: "stream_of request left" by (rule stream_of_unmarshal [OF wf])
  then have acc: "server_accept_bi_stream (lib_uuid A) (lib_read A) send recv (sc_model v) =
      (Inr (TaskConnect \<lparr>crx_addr = ?addr\<rparr> send left) :: ('f, 't, recv_stream) quinn_error + ('u, 't, recv_stream) task,
       snd (connection_recv_connect \<lparr>ch_addr = ?addr\<rparr> (sc_model v)))"
    by (simp add: server_accept_bi_stream_def assms(10,11) connection_recv_connect_def connect_into_def)
  have ok: "conn_ok nil v" using assms(13) by (rule server.reachable_inv)
  obtain v1 where v1: "conn_ok nil v1" "sc_model v1 = snd (connection_recv_connect \<lparr>ch_addr = ?addr\<rparr> (sc_model v))"
    "same_relay v v1"
    and run: "handle_bi_event A D (pick, send, recv) v = (case handle_connect A D \<lparr>crx_addr = ?addr\<rparr> v1 of
       (None, c) \<Rightarrow> (None, c) | (Some ended, c) \<Rightarrow> (Some (Returns ended), drop_bi_register c))"
    by (rule bi_handler_starts [OF assms(12) ok assms(14) acc])
  have dialled: "handle_connect A D \<lparr>crx_addr = ?addr\<rparr> v1 =
      (Some ([if turn_error t = None then FinishClient else ResetClient 6000, ShutdownTarget],
         map_option ConnectIo (turn_error t)),
       v1\<lparr>sc_model := connection_drop_connect (sc_model v1),
         sc_restful := traffic_rx (cfg_restful A) nil (of_nat (length (from_target (ts @ [t]))))
           (traffic_tx (cfg_restful A) nil (of_nat (length (from_client (ts @ [t])))) (sc_restful v1))\<rparr>)"
    using handle_connect_relays [OF v1(1), of A "\<lparr>crx_addr = ?addr\<rparr>" unreachable "target # rest" D err k ts t later]
      assms(15-21) by simp
  have "exchange_loop (tcp_turns D k) exchange_start = (\<lparr>a2b_num = length (from_client (ts @ [t])),
      b2a_num = length (from_target (ts @ [t])), to_target = from_client (ts @ [t]), to_client = from_target (ts @ [t])\<rparr>,
      Some (turn_error t), later)"
    unfolding assms(19) using assms(20,21) by (rule exchange_loop_outcome)
  with acc left new client dialled run assms(14,22) v1(2,3) show ?thesis
    by (auto simp: drop_bi_register_def same_relay_def connection_recv_connect_def connection_drop_connect_def
        task_connect_count_def)
qed

section \<open>The properties on concrete connections\<close>

text \<open>A client in the quic mode, over a transport of streams that nothing was written on yet.\<close>

definition demo_stream_lib :: "(bytes, bytes list, string, nat, recv_stream) client_lib" where
  "demo_stream_lib = \<lparr>cb_overflow_checks = True, cb_logs_info = True, cb_logs_debug = True, cb_logs_warn = True,
     cb_uuid = bytes_uuid_lib, cb_quic = stream_net, cb_read = stream_read_exact, cb_is_jls = (\<lambda>_. Some True)\<rparr>"

definition demo_stream_conn :: "(bytes, bytes list) client_conn" where
  "demo_stream_conn = (client_conn_new [] RelayQuic (replicate 16 1) [7])
     \<lparr>cl_model := snd (connection_send_packet 3 (DomainAddress [97] 53) 16 connection_new)\<rparr>"

text \<open>What was written on the streams, as it arrives: each in two pieces.\<close>

definition arriving :: "bytes list \<Rightarrow> recv_stream list" where
  "arriving q = map (\<lambda>bs. \<lparr>stream_chunks = [take 4 bs, drop 4 bs], stream_end = UnexpectedEof\<rparr>) q"

lemma arriving_streams: "list_all2 (\<lambda>s recv. stream_of (net_sent q s) recv) (net_opened q) (arriving q)"
  by (simp add: list_all2_conv_all_nth net_opened_def arriving_def stream_of_def net_sent_def)

lemma demo_stream_conn_simps [simp]:
  "cl_conn demo_stream_conn = []" "\<not> client_is_closed demo_stream_conn" "cl_udp_relay_mode demo_stream_conn = RelayQuic"
  by (simp_all add: demo_stream_conn_def client_conn_new_def client_is_closed_def)

theorem dissociation_reaches_server_witness:
  "let u = \<lparr>su_map = Some [3 \<mapsto> 0], su_sessions = [0 \<mapsto> demo_session], su_next = 1\<rparr>;
     p = associate_close demo_stream_lib (True, None, None :: (bytes list, nat) quinn_endpoint option) 3
       (u, \<lparr>st_endpoint = None, st_connection = Some demo_stream_conn, st_timeout = 0\<rparr>);
     q = cl_conn (the (st_connection (snd (snd p))))
   in length q = 1 \<and> relay_map (sc_udp_sessions demo_relaying) 3 \<noteq> None \<and>
     relay_map (sc_udp_sessions (snd (handle_stream_event demo_app (0, True, hd (arriving q)) demo_relaying))) 3 = None"
proof -
  let ?u = "\<lparr>su_map = Some [3 \<mapsto> 0], su_sessions = [0 \<mapsto> demo_session], su_next = 1\<rparr>"
  let ?s = "\<lparr>st_endpoint = None :: bytes client_endpoint option, st_connection = Some demo_stream_conn, st_timeout = 0\<rparr>"
  let ?p = "associate_close demo_stream_lib (True, None, None :: (bytes list, nat) quinn_endpoint option) 3 (?u, ?s)"
  have takes: "takes_streams (cb_quic demo_stream_lib) net_opened net_sent"
    by (simp add: demo_stream_lib_def stream_net_takes)
  have ready: "client_ready RelayQuic demo_stream_lib ?s demo_stream_conn"
    by (simp add: client_ready_def demo_stream_lib_def)
  have entry: "su_map ?u = Some [3 \<mapsto> 0]" "[3 \<mapsto> 0 :: nat] (3 :: u16) \<noteq> None" by simp_all
  have p: "?p = (fst ?p, fst (snd ?p), snd (snd ?p))" by simp
  obtain c' where c': "st_connection (snd (snd ?p)) = Some c'"
    by (simp add: associate_close_def associate_remove_def on_connection_def get_conn_def split_beta)
  let ?q = "cl_conn c'"
  have opened: "net_opened ?q = net_opened (cl_conn demo_stream_conn) @ net_opened ?q" by (simp add: net_opened_def)
  have recv: "stream_of (net_sent ?q x) (hd (arriving ?q))" if "net_opened ?q = [x]" for x
    using arriving_streams [of ?q] that by (cases "arriving ?q") auto
  have lib: "lib_uuid demo_app = cb_uuid demo_stream_lib" "lib_read demo_app = stream_read_exact"
    by (simp_all add: demo_app_def demo_stream_lib_def)
  have "\<not> overflow_checks demo_app" by simp
  have "sc_closed demo_relaying = None" and mapped: "relay_map (sc_udp_sessions demo_relaying) 3 \<noteq> None" by code_simp+
  from dissociation_reaches_server [OF takes ready entry p c' opened recv lib \<open>\<not> overflow_checks demo_app\<close>
      demo_reachable(2) this(1) surjective_pairing]
  show ?thesis using mapped by (simp add: Let_def c' net_opened_def del: One_nat_def)
qed

theorem socks_connect_reaches_target_witness:
  "let p = socks_connect_open demo_stream_lib (True, None, None :: (bytes list, nat) quinn_endpoint option)
       (SocksDomain [97] 80) (Inr ()) (demo_client, \<lparr>st_endpoint = None, st_connection = Some demo_stream_conn, st_timeout = 0\<rparr>);
     bs = hd (cl_conn (the (st_connection (snd (snd p)))));
     recv = \<lparr>stream_chunks = [take 3 bs, drop 3 bs @ [1], [2]], stream_end = UnexpectedEof\<rparr>
   in so_replies (fst (snd p)) = [(Succeeded, None)] \<and>
     fst (handle_bi_event demo_app demo_dialer (True, (), recv) demo_new) =
       Some (Returns ([FinishClient, ShutdownTarget], None))"
proof -
  let ?s = "\<lparr>st_endpoint = None :: bytes client_endpoint option, st_connection = Some demo_stream_conn, st_timeout = 0\<rparr>"
  let ?p = "socks_connect_open demo_stream_lib (True, None, None :: (bytes list, nat) quinn_endpoint option)
    (SocksDomain [97] 80) (Inr ()) (demo_client, ?s)"
  have takes: "takes_streams (cb_quic demo_stream_lib) net_opened net_sent"
    by (simp add: demo_stream_lib_def stream_net_takes)
  have ready: "client_ready RelayQuic demo_stream_lib ?s demo_stream_conn"
    by (simp add: client_ready_def demo_stream_lib_def)
  have peer: "so_peer_addr demo_client = Inr (SocketV4 (Ipv4 127 0 0 1) 5000)" by (simp add: demo_client_def)
  have replies: "so_replies demo_client = []" by (simp add: demo_client_def)
  have wf: "wf_address (tuic_address_of (SocksDomain [97] 80))" by simp
  have p: "?p = (fst ?p, fst (snd ?p), snd (snd ?p))" by simp
  obtain r c1 where "client_conn_connect demo_stream_lib (DomainAddress [97] 80) demo_stream_conn = (r, c1)"
    by (rule prod.exhaust)
  then obtain c' where c': "st_connection (snd (snd ?p)) = Some c'"
    by (cases r) (auto simp: socks_connect_open_def on_connection_def get_conn_def peer)
  let ?q = "cl_conn c'"
  let ?recv = "\<lparr>stream_chunks = [take 3 (hd ?q), drop 3 (hd ?q) @ [1], [2]], stream_end = UnexpectedEof\<rparr>"
  have jls: "cb_is_jls demo_stream_lib ?q \<noteq> Some False" by (simp add: demo_stream_lib_def)
  have opened: "net_opened ?q = net_opened (cl_conn demo_stream_conn) @ net_opened ?q" by (simp add: net_opened_def)
  have recv: "stream_of (net_sent ?q x @ [1, 2]) ?recv" if "net_opened ?q = [x]" for x
    using that by (cases ?q) (auto simp: net_opened_def net_sent_def stream_of_def)
  have lib: "lib_uuid demo_app = cb_uuid demo_stream_lib" "lib_read demo_app = stream_read_exact"
    by (simp_all add: demo_app_def demo_stream_lib_def)
  have checks: "\<not> overflow_checks demo_app" and "sc_closed demo_new = None"
    by (simp_all add: demo_new_def server_conn_new_def)
  have dns: "resolve_dns (lib_lookup_host demo_app) (tuic_address_of (SocksDomain [97] 80)) = Inr ([] @ localhost # [])"
    by (simp add: resolve_dns_def)
  let ?ts = "[ReadClient (Inr (Some [1, 2])) (Inr ()), ReadTarget (Inr [3]) (Inr ())] :: io_error turn list"
  have dial: "tcp_connect demo_dialer localhost = Inr ()" "set_nodelay demo_dialer () = Inr ()"
    "tcp_turns demo_dialer () = ?ts @ ReadTarget (Inr []) (Inr ()) # []" by (simp_all add: demo_dialer_def)
  have turns: "\<forall>t \<in> set ?ts. \<not> ends_loop t" "ends_loop (ReadTarget (Inr []) (Inr ()) :: io_error turn)" by simp_all
  from socks_connect_reaches_target [OF takes ready peer wf p c' jls opened recv lib checks demo_reachable(1)
      \<open>sc_closed demo_new = None\<close> dns _ dial turns surjective_pairing]
  show ?thesis using replies by (simp add: Let_def c')
qed

end
