(* ===== verification/Tuic_Commands.thy ===== *)
theory Tuic_Commands
  imports Tuic_Quinn
begin

text \<open>
  What the sender's loop over the fragments hands out, for every payload and limit: it ends, and each
  item carries a command the other side can read.
\<close>

section \<open>The loop, call by call\<close>

text \<open>The calls of \<open>next\<close> of the loop, at most as many as the fuel; \<open>None\<close> when it is used up.\<close>

fun take_fragments :: "nat \<Rightarrow> bool \<Rightarrow> fragments \<Rightarrow> (('u header \<times> bytes) list \<times> panic option) option" where
  "take_fragments 0 oc f = None"
| "take_fragments (Suc n) oc f = (case fragments_next oc f of
     Panics p \<Rightarrow> Some ([], Some p)
   | Returns (None, f) \<Rightarrow> Some ([], None)
   | Returns (Some item, f) \<Rightarrow> map_option (\<lambda>(items, fin). (item # items, fin)) (take_fragments n oc f))"

lemma take_fragments_enough:
  assumes "unat (fr_frag_total f) - unat (fr_next_frag_id f) < n"
  shows "take_fragments n oc f = Some (fragments_run oc f)"
  using assms
proof (induction n arbitrary: f)
  case 0
  then show ?case by simp
next
  case (Suc n)
  show ?case
  proof (cases "fragments_next oc f :: (('a header \<times> bytes) option \<times> fragments) outcome")
    case (Panics p)
    then show ?thesis by (simp add: fragments_run.simps [of oc f])
  next
    case (Returns r)
    obtain item f' where r: "r = (item, f')" by (cases r)
    show ?thesis
    proof (cases item)
      case None
      with Returns r show ?thesis by (simp add: fragments_run.simps [of oc f])
    next
      case (Some it)
      with fragments_next_measure [of oc f it f'] Returns r Suc.prems
      have "unat (fr_frag_total f') - unat (fr_next_frag_id f') < n" by simp
      with Suc.IH [of f'] Some Returns r show ?thesis
        by (simp add: fragments_run.simps [of oc f] split_beta)
    qed
  qed
qed

lemma take_fragments_run:
  assumes "fragments_run oc f = (items :: ('u header \<times> bytes) list, fin)"
  shows "take_fragments 256 oc f = Some (items, fin)"
proof -
  have "unat (fr_frag_total f) - unat (fr_next_frag_id f) < 256" by (simp add: less_imp_diff_less)
  then show ?thesis by (simp add: take_fragments_enough assms)
qed

text \<open>The commands of the items.\<close>

text \<open>A \<open>Packet\<close> command of an association that carries the target as its first fragment, and no address as a later one.\<close>

definition fragment_command :: "u16 \<Rightarrow> address \<Rightarrow> u8 \<Rightarrow> 'u header \<Rightarrow> bool" where
  "fragment_command a target tot h \<longleftrightarrow> (\<exists>p. h = Packet p \<and> ph_assoc_id p = a \<and> ph_frag_total p = tot \<and>
     ph_frag_id p < tot \<and> ph_addr p = (if ph_frag_id p = 0 then target else NoAddress))"

lemma fragments_next_command:
  assumes "fragments_next oc f = Returns (Some (h, frag), f')"
    and "fr_addr f = (if fr_next_frag_id f = 0 then target else NoAddress)"
  shows "fragment_command (fr_assoc_id f) target (fr_frag_total f) h"
    and "fr_assoc_id f' = fr_assoc_id f \<and> fr_frag_total f' = fr_frag_total f \<and>
      fr_addr f' = (if fr_next_frag_id f' = 0 then target else NoAddress)"
proof -
  have lt: "fr_next_frag_id f < fr_frag_total f" using assms(1) by (auto simp: fragments_next_def split: if_splits)
  then have "fr_next_frag_id f + 1 \<noteq> 0" using unat_u8_Suc_less [OF lt] by (metis nat.distinct(1) unsigned_0)
  with lt assms show "fragment_command (fr_assoc_id f) target (fr_frag_total f) h"
    and "fr_assoc_id f' = fr_assoc_id f \<and> fr_frag_total f' = fr_frag_total f \<and>
      fr_addr f' = (if fr_next_frag_id f' = 0 then target else NoAddress)"
    by (auto simp: fragments_next_def fragment_command_def address_take_def packet_header_new_def Let_def
        outcome_bind_eq_Returns split: if_splits)
qed

lemma take_fragments_Suc:
  assumes "take_fragments (Suc n) oc f = Some (items, fin)"
  obtains (last) "items = []"
    | (more) item f' rest where "fragments_next oc f = Returns (Some item, f')" "items = item # rest"
        "take_fragments n oc f' = Some (rest, fin)"
  using assms by (auto split: outcome.splits prod.splits option.splits)

lemma take_fragments_length:
  "take_fragments n oc f = Some (items, fin) \<Longrightarrow> length items \<le> unat (fr_frag_total f) - unat (fr_next_frag_id f)"
proof (induction n arbitrary: f items)
  case 0
  then show ?case by simp
next
  case (Suc n)
  from Suc.prems show ?case
  proof (cases rule: take_fragments_Suc)
    case (more item f' rest)
    with Suc.IH fragments_next_measure [OF more(1)] show ?thesis by fastforce
  qed simp
qed

lemma take_fragments_commands:
  assumes "take_fragments n oc f = Some (items, fin)" and "(h, frag) \<in> set items"
    and "fr_addr f = (if fr_next_frag_id f = 0 then target else NoAddress)"
  shows "fragment_command (fr_assoc_id f) target (fr_frag_total f) h"
  using assms
proof (induction n arbitrary: f items)
  case 0
  then show ?case by simp
next
  case (Suc n)
  from Suc.prems(1) show ?case
  proof (cases rule: take_fragments_Suc)
    case last
    with Suc.prems(2) show ?thesis by simp
  next
    case (more item f' rest)
    obtain h' frag' where item: "item = (h', frag')" by (cases item)
    note step = more(1) [unfolded item]
    note command = fragments_next_command [OF step Suc.prems(3)]
    from Suc.prems(2) more(2) item consider "h = h'" | "(h, frag) \<in> set rest" by auto
    then show ?thesis
    proof cases
      case 1
      with command(1) show ?thesis by simp
    next
      case 2
      from Suc.IH [OF more(3) 2] command(2) show ?thesis by simp
    qed
  qed
qed

section \<open>Properties\<close>

text \<open>
  C27: the loop over the fragments of a packet ends. Whatever the payload, the address and the limit, and also where
  the arithmetic wraps, 256 calls of \<open>next\<close> are enough for it to end or to panic; it hands out at most
  as many fragments as it announces.
\<close>

theorem fragment_loop_ends:
  assumes "into_fragments oc tx payload = Returns f"
    and "fragments_run oc f = (items :: ('u header \<times> bytes) list, fin)"
  shows "take_fragments 256 oc f = Some (items, fin) \<and> length items \<le> fragments_len f"
proof
  show enough: "take_fragments 256 oc f = Some (items, fin)" using assms(2) by (rule take_fragments_run)
  have "unat (fr_frag_total f) - unat (fr_next_frag_id f) \<le> fragments_len f" by (simp add: fragments_len_def)
  with take_fragments_length [OF enough] show "length items \<le> fragments_len f" by (rule le_trans)
qed

theorem fragment_loop_ends_witness:
  "\<exists>f items fin. into_fragments False (packet_tx_new 1 2 (DomainAddress [97] 53) 16) [1, 2, 3, 4] = Returns f \<and>
     take_fragments 256 False f = Some (items :: (unit header \<times> bytes) list, fin) \<and> length items \<le> fragments_len f"
proof -
  let ?addr = "DomainAddress [97] 53"
  have "packet_header_len ?addr \<le> 16" by (simp add: packet_header_len_eq)
  then obtain f where "fragments_new False 1 2 ?addr 16 [1, 2, 3, 4] = Returns f"
    using fragments_new_Returns [of ?addr 16 False 1 2 "[1, 2, 3, 4]"] by auto
  then have f: "into_fragments False (packet_tx_new 1 2 ?addr 16) [1, 2, 3, 4] = Returns f"
    by (simp add: into_fragments_def packet_tx_new_def)
  obtain items fin where run: "fragments_run False f = (items :: (unit header \<times> bytes) list, fin)"
    by (rule prod.exhaust)
  from fragment_loop_ends [OF f run] f show ?thesis by blast
qed

text \<open>
  C28: every command the sender puts on the wire for a packet can be read. For a target that can be written,
  each item of the loop carries a \<open>Packet\<close> command of the association, numbered below the total, that
  carries this target when its number is zero and no address otherwise; and its datagram is read back as this command, with its
  data after it.
\<close>

theorem sent_fragments_are_commands:
  fixes h :: "'u header"
  assumes "connection_send_packet a addr sz c = (tx, c')" and "into_fragments oc tx payload = Returns f"
    and "fragments_run oc f = (items, fin)" and "(h, frag) \<in> set items"
    and "wf_address addr"
  shows "fragment_command a addr (fr_frag_total f) h \<and>
    unmarshal U cursor_read_exact (cursor_new (fragment_datagram U (h, frag))) =
      (Inr h, \<lparr>cursor_inner = header_write U h [] @ frag, cursor_position = length (header_write U h [])\<rparr>)"
proof
  have f: "fr_assoc_id f = a" "fr_addr f = addr" "fr_next_frag_id f = 0"
    using assms(2) connection_send_packet_id(1) [OF assms(1)]
    by (auto simp: into_fragments_def fragments_new_def packet_tx_new_def outcome_bind_eq_Returns)
  from take_fragments_commands [OF take_fragments_run [OF assms(3)] assms(4), of addr] f
  show command: "fragment_command a addr (fr_frag_total f) h" by simp
  then have "wf_header U h" using assms(5) by (auto simp: fragment_command_def)
  from cursor_unmarshal_written [OF this, of frag]
  show "unmarshal U cursor_read_exact (cursor_new (fragment_datagram U (h, frag))) =
      (Inr h, \<lparr>cursor_inner = header_write U h [] @ frag, cursor_position = length (header_write U h [])\<rparr>)"
    by (simp add: fragment_datagram_def put_slice_def)
qed

theorem sent_fragments_are_commands_witness:
  "\<exists>f items fin. into_fragments True (fst (connection_send_packet 1 (DomainAddress [97] 53) 16 connection_new)) [7] = Returns f \<and>
     fragments_run True f = (items :: (bytes header \<times> bytes) list, fin) \<and>
     (\<forall>(h, frag) \<in> set items. fragment_command 1 (DomainAddress [97] 53) (fr_frag_total f) h)"
proof -
  let ?addr = "DomainAddress [97] 53"
  let ?p = "connection_send_packet 1 ?addr 16 connection_new"
  have send: "?p = (fst ?p, snd ?p)" by simp
  have wf: "wf_address ?addr" by simp
  note tx = connection_send_packet_id(1) [OF send]
  have "packet_header_len ?addr \<le> 16" by (simp add: packet_header_len_eq)
  then obtain f where "fragments_new True 1 (next_pkt_id connection_new 1) ?addr 16 [7] = Returns f"
    using fragments_new_Returns [of ?addr 16 True 1 "next_pkt_id connection_new 1" "[7]"] by auto
  then have f: "into_fragments True (fst ?p) [7] = Returns f"
    by (simp add: into_fragments_def packet_tx_new_def tx)
  obtain items fin where run: "fragments_run True f = (items :: (bytes header \<times> bytes) list, fin)"
    by (rule prod.exhaust)
  note command = sent_fragments_are_commands [OF send f run _ wf, of _ _ bytes_uuid_lib, THEN conjunct1]
  have "\<forall>(h, frag) \<in> set items. fragment_command 1 ?addr (fr_frag_total f) h"
    using command by auto
  with f run show ?thesis by blast
qed

end
