(* ===== verification/Tuic_Order.thy ===== *)
theory Tuic_Order
  imports Tuic_Protocol "HOL-Library.List_Lexorder"
begin

text \<open>
  The order that \<^verbatim>\<open>tuic/src/protocol/mod.rs\<close> derives on addresses: first the variant, in the order of the declaration, then
  the fields from left to right, a domain by its bytes. \<open>SocketAddr\<close> of the standard library is ordered alike: IPv4 before IPv6, then
  the address, the port, the flow information and the scope.
\<close>

section \<open>The key that is compared\<close>

fun socket_addr_key :: "socket_addr \<Rightarrow> nat list list" where
  "socket_addr_key (SocketV4 ip port) = [[0], map unat (ipv4_octets ip), [unat port]]"
| "socket_addr_key (SocketV6 ip port flow scope) =
    [[1], map unat (ipv6_segments ip), [unat port], [unat flow], [unat scope]]"

fun address_key :: "address \<Rightarrow> nat list list" where
  "address_key NoAddress = [[0]]"
| "address_key (DomainAddress domain port) = [[1], map unat domain, [unat port]]"
| "address_key (SocketAddress addr) = [2] # socket_addr_key addr"

lemma unat_inject: "unat a = unat b \<longleftrightarrow> (a :: 'a :: len word) = b"
  by (rule word_unat_eq_iff [symmetric])

lemma map_unat_inject: "map unat xs = map unat ys \<longleftrightarrow> (xs :: 'a :: len word list) = ys"
  by (rule inj_map_eq_map) (simp add: inj_def unat_inject)

lemma socket_addr_key_inject [simp]: "socket_addr_key a = socket_addr_key b \<longleftrightarrow> a = b"
proof -
  have v4: "ipv4_octets a = ipv4_octets b \<longleftrightarrow> a = b" for a b by (cases a; cases b) auto
  have v6: "ipv6_segments a = ipv6_segments b \<longleftrightarrow> a = b" for a b by (cases a; cases b) auto
  show ?thesis by (cases a; cases b) (auto simp: v4 v6 unat_inject map_unat_inject)
qed

lemma address_key_inject [simp]: "address_key a = address_key b \<longleftrightarrow> a = b"
  by (cases a; cases b) (auto simp: unat_inject map_unat_inject)

section \<open>The instances\<close>

instantiation socket_addr :: linorder
begin

definition less_eq_socket_addr :: "socket_addr \<Rightarrow> socket_addr \<Rightarrow> bool" where
  "less_eq_socket_addr a b \<longleftrightarrow> socket_addr_key a \<le> socket_addr_key b"

definition less_socket_addr :: "socket_addr \<Rightarrow> socket_addr \<Rightarrow> bool" where
  "less_socket_addr a b \<longleftrightarrow> socket_addr_key a < socket_addr_key b"

instance
  by standard (auto simp: less_eq_socket_addr_def less_socket_addr_def less_le)

end

instantiation address :: linorder
begin

definition less_eq_address :: "address \<Rightarrow> address \<Rightarrow> bool" where
  "less_eq_address a b \<longleftrightarrow> address_key a \<le> address_key b"

definition less_address :: "address \<Rightarrow> address \<Rightarrow> bool" where
  "less_address a b \<longleftrightarrow> address_key a < address_key b"

instance
  by standard (auto simp: less_eq_address_def less_address_def less_le)

end

text \<open>\<open>Default\<close> is \<open>Address::None\<close>, the least address.\<close>

definition address_default :: address where
  "address_default = NoAddress"

lemma address_default_least: "address_default \<le> a"
  by (cases a) (auto simp: address_default_def less_eq_address_def)

lemma address_less_simps [simp]:
  "\<not> a < NoAddress" "NoAddress < DomainAddress d p" "NoAddress < SocketAddress s"
  "DomainAddress d p < SocketAddress s" "\<not> SocketAddress s < DomainAddress d p"
  "SocketAddress s < SocketAddress s' \<longleftrightarrow> s < s'"
  "DomainAddress d p < DomainAddress d p' \<longleftrightarrow> p < p'"
  by (cases a) (auto simp: less_address_def less_socket_addr_def word_less_nat_alt)

lemma socket_addr_less_simps [simp]:
  "SocketV4 ip p < SocketV6 ip' p' f s" "\<not> SocketV6 ip' p' f s < SocketV4 ip p"
  "SocketV4 ip p < SocketV4 ip p' \<longleftrightarrow> p < p'"
  by (auto simp: less_socket_addr_def word_less_nat_alt)

text \<open>Sorted addresses: no address first, domains, then sockets.\<close>

lemma address_sort_example:
  "sort [SocketAddress (SocketV4 (Ipv4 1 2 3 4) 80), DomainAddress [98] 1, NoAddress, DomainAddress [97, 98] 9] =
    [NoAddress, DomainAddress [97, 98] 9, DomainAddress [98] 1, SocketAddress (SocketV4 (Ipv4 1 2 3 4) 80)]"
  by (simp add: sort_key_def less_eq_address_def)

end
