(* ===== verification/Tuic_Sides.thy ===== *)
theory Tuic_Sides
  imports Tuic_Quinn
begin

text \<open>
  The typed layer of the commands: in \<^verbatim>\<open>tuic/src/model\<close> every command is a struct over a private \<open>Side\<close> with a marker of its
  side, and every accessor takes its side out with a \<open>let ... else unreachable!()\<close>; \<^verbatim>\<open>tuic-quinn/src/lib.rs\<close> wraps the
  received ones once more. The other theories work on what is inside; here is why they can.
\<close>

section \<open>Sides\<close>

datatype ('t, 'r) side = SideTx 't | SideRx 'r

text \<open>The markers, which are types without data.\<close>

datatype tx_marker = TxMarker

datatype rx_marker = RxMarker

text \<open>\<open>let Side::Tx(tx) = inner else { unreachable!() }\<close>, and the same for the other side.\<close>

definition let_tx :: "('t, 'r) side \<Rightarrow> 't outcome" where
  "let_tx inner = (case inner of SideTx tx \<Rightarrow> Returns tx | SideRx _ \<Rightarrow> Panics Unreachable)"

definition let_rx :: "('t, 'r) side \<Rightarrow> 'r outcome" where
  "let_rx inner = (case inner of SideTx _ \<Rightarrow> Panics Unreachable | SideRx rx \<Rightarrow> Returns rx)"

lemma let_sides [simp]:
  "let_tx (SideTx tx) = Returns tx" "let_rx (SideRx rx) = Returns rx"
  by (simp_all add: let_tx_def let_rx_def)

section \<open>The commands of the model\<close>

record 'm packet_model =
  pm_inner :: "(packet_tx, packet_rx) side"
  pm_marker :: 'm

definition packet_model_tx :: "u16 \<Rightarrow> u16 \<Rightarrow> address \<Rightarrow> nat \<Rightarrow> tx_marker packet_model" where
  "packet_model_tx assoc_id pkt_id addr max_pkt_size =
     \<lparr>pm_inner = SideTx (packet_tx_new assoc_id pkt_id addr max_pkt_size), pm_marker = TxMarker\<rparr>"

definition packet_model_into_fragments :: "bool \<Rightarrow> tx_marker packet_model \<Rightarrow> bytes \<Rightarrow> fragments outcome" where
  "packet_model_into_fragments oc m payload = outcome_bind (let_tx (pm_inner m)) (\<lambda>tx. into_fragments oc tx payload)"

definition packet_tx_assoc_id :: "tx_marker packet_model \<Rightarrow> u16 outcome" where
  "packet_tx_assoc_id m = outcome_bind (let_tx (pm_inner m)) (\<lambda>tx. Returns (ptx_assoc_id tx))"

definition packet_tx_pkt_id :: "tx_marker packet_model \<Rightarrow> u16 outcome" where
  "packet_tx_pkt_id m = outcome_bind (let_tx (pm_inner m)) (\<lambda>tx. Returns (ptx_pkt_id tx))"

definition packet_tx_addr :: "tx_marker packet_model \<Rightarrow> address outcome" where
  "packet_tx_addr m = outcome_bind (let_tx (pm_inner m)) (\<lambda>tx. Returns (ptx_addr tx))"

definition packet_model_rx :: "u16 \<Rightarrow> u16 \<Rightarrow> u8 \<Rightarrow> u8 \<Rightarrow> u16 \<Rightarrow> address \<Rightarrow> rx_marker packet_model" where
  "packet_model_rx assoc_id pkt_id frag_total frag_id psz addr =
     \<lparr>pm_inner = SideRx (packet_rx_new assoc_id pkt_id frag_total frag_id psz addr), pm_marker = RxMarker\<rparr>"

text \<open>The sessions that the source's struct shares with its connection are an argument of \<open>assemble\<close>.\<close>

definition packet_model_assemble ::
    "bool \<Rightarrow> nat \<Rightarrow> rx_marker packet_model \<Rightarrow> bytes \<Rightarrow> udp_sessions \<Rightarrow>
      (assemble_error + assemblable option) outcome \<times> udp_sessions" where
  "packet_model_assemble oc now m data s = (case let_rx (pm_inner m) of
     Panics p \<Rightarrow> (Panics p, s)
   | Returns rx \<Rightarrow> udp_sessions_insert oc now (prx_assoc_id rx) (prx_pkt_id rx) (prx_frag_total rx)
       (prx_frag_id rx) (prx_size rx) (prx_addr rx) data s)"

definition packet_rx_assoc_id :: "rx_marker packet_model \<Rightarrow> u16 outcome" where
  "packet_rx_assoc_id m = outcome_bind (let_rx (pm_inner m)) (\<lambda>rx. Returns (prx_assoc_id rx))"

definition packet_rx_pkt_id :: "rx_marker packet_model \<Rightarrow> u16 outcome" where
  "packet_rx_pkt_id m = outcome_bind (let_rx (pm_inner m)) (\<lambda>rx. Returns (prx_pkt_id rx))"

definition packet_rx_frag_id :: "rx_marker packet_model \<Rightarrow> u8 outcome" where
  "packet_rx_frag_id m = outcome_bind (let_rx (pm_inner m)) (\<lambda>rx. Returns (prx_frag_id rx))"

definition packet_rx_frag_total :: "rx_marker packet_model \<Rightarrow> u8 outcome" where
  "packet_rx_frag_total m = outcome_bind (let_rx (pm_inner m)) (\<lambda>rx. Returns (prx_frag_total rx))"

definition packet_rx_addr :: "rx_marker packet_model \<Rightarrow> address outcome" where
  "packet_rx_addr m = outcome_bind (let_rx (pm_inner m)) (\<lambda>rx. Returns (prx_addr rx))"

definition packet_rx_size :: "rx_marker packet_model \<Rightarrow> u16 outcome" where
  "packet_rx_size m = outcome_bind (let_rx (pm_inner m)) (\<lambda>rx. Returns (prx_size rx))"

text \<open>The other commands. What is sent is a header.\<close>

record ('u, 'm) authenticate_model =
  am_inner :: "('u header, 'u authenticate_rx) side"
  am_marker :: 'm

definition authenticate_model_tx ::
    "'u uuid_lib \<Rightarrow> 'u \<Rightarrow> bytes \<Rightarrow> exporter \<Rightarrow> ('u, tx_marker) authenticate_model" where
  "authenticate_model_tx U uuid password exporter =
     \<lparr>am_inner = SideTx (Authenticate \<lparr>ah_uuid = uuid, ah_token = exporter (uuid_as_bytes U uuid) password\<rparr>),
      am_marker = TxMarker\<rparr>"

definition authenticate_tx_header :: "('u, tx_marker) authenticate_model \<Rightarrow> 'u header outcome" where
  "authenticate_tx_header m = let_tx (am_inner m)"

definition authenticate_model_rx :: "'u \<Rightarrow> bytes \<Rightarrow> ('u, rx_marker) authenticate_model" where
  "authenticate_model_rx uuid token = \<lparr>am_inner = SideRx \<lparr>arx_uuid = uuid, arx_token = token\<rparr>, am_marker = RxMarker\<rparr>"

definition authenticate_rx_uuid :: "('u, rx_marker) authenticate_model \<Rightarrow> 'u outcome" where
  "authenticate_rx_uuid m = outcome_bind (let_rx (am_inner m)) (\<lambda>rx. Returns (arx_uuid rx))"

definition authenticate_rx_token :: "('u, rx_marker) authenticate_model \<Rightarrow> bytes outcome" where
  "authenticate_rx_token m = outcome_bind (let_rx (am_inner m)) (\<lambda>rx. Returns (arx_token rx))"

definition authenticate_model_is_valid ::
    "'u uuid_lib \<Rightarrow> bytes \<Rightarrow> exporter \<Rightarrow> ('u, rx_marker) authenticate_model \<Rightarrow> bool outcome" where
  "authenticate_model_is_valid U password exporter m = outcome_bind (let_rx (am_inner m)) (\<lambda>rx.
     Returns (arx_token rx = exporter (uuid_as_bytes U (arx_uuid rx)) password))"

record ('u, 'm) connect_model =
  cm_inner :: "('u header, connect_rx) side"
  cm_marker :: 'm

definition connect_model_tx :: "address \<Rightarrow> ('u, tx_marker) connect_model" where
  "connect_model_tx addr = \<lparr>cm_inner = SideTx (Connect \<lparr>ch_addr = addr\<rparr>), cm_marker = TxMarker\<rparr>"

definition connect_tx_header :: "('u, tx_marker) connect_model \<Rightarrow> 'u header outcome" where
  "connect_tx_header m = let_tx (cm_inner m)"

definition connect_model_rx :: "address \<Rightarrow> ('u, rx_marker) connect_model" where
  "connect_model_rx addr = \<lparr>cm_inner = SideRx \<lparr>crx_addr = addr\<rparr>, cm_marker = RxMarker\<rparr>"

definition connect_rx_addr :: "('u, rx_marker) connect_model \<Rightarrow> address outcome" where
  "connect_rx_addr m = outcome_bind (let_rx (cm_inner m)) (\<lambda>rx. Returns (crx_addr rx))"

record ('u, 'm) dissociate_model =
  dm_inner :: "('u header, u16) side"
  dm_marker :: 'm

definition dissociate_model_tx :: "u16 \<Rightarrow> ('u, tx_marker) dissociate_model" where
  "dissociate_model_tx assoc_id = \<lparr>dm_inner = SideTx (Dissociate \<lparr>dh_assoc_id = assoc_id\<rparr>), dm_marker = TxMarker\<rparr>"

definition dissociate_tx_header :: "('u, tx_marker) dissociate_model \<Rightarrow> 'u header outcome" where
  "dissociate_tx_header m = let_tx (dm_inner m)"

definition dissociate_model_rx :: "u16 \<Rightarrow> ('u, rx_marker) dissociate_model" where
  "dissociate_model_rx assoc_id = \<lparr>dm_inner = SideRx assoc_id, dm_marker = RxMarker\<rparr>"

definition dissociate_rx_assoc_id :: "('u, rx_marker) dissociate_model \<Rightarrow> u16 outcome" where
  "dissociate_rx_assoc_id m = let_rx (dm_inner m)"

record ('u, 'm) heartbeat_model =
  hm_inner :: "('u header, unit) side"
  hm_marker :: 'm

definition heartbeat_model_tx :: "('u, tx_marker) heartbeat_model" where
  "heartbeat_model_tx = \<lparr>hm_inner = SideTx (Heartbeat HeartbeatHeader), hm_marker = TxMarker\<rparr>"

definition heartbeat_tx_header :: "('u, tx_marker) heartbeat_model \<Rightarrow> 'u header outcome" where
  "heartbeat_tx_header m = let_tx (hm_inner m)"

definition heartbeat_model_rx :: "('u, rx_marker) heartbeat_model" where
  "heartbeat_model_rx = \<lparr>hm_inner = SideRx (), hm_marker = RxMarker\<rparr>"

text \<open>\<open>UdpSession::recv_packet\<close> and \<open>Connection::recv_heartbeat\<close>, which only make the models.\<close>

definition udp_session_recv_packet ::
    "u16 \<Rightarrow> u16 \<Rightarrow> u8 \<Rightarrow> u8 \<Rightarrow> u16 \<Rightarrow> address \<Rightarrow> udp_session \<Rightarrow> rx_marker packet_model" where
  "udp_session_recv_packet assoc_id pkt_id frag_total frag_id psz addr s =
     packet_model_rx assoc_id pkt_id frag_total frag_id psz addr"

definition connection_recv_heartbeat :: "heartbeat_header \<Rightarrow> connection \<Rightarrow> ('u, rx_marker) heartbeat_model" where
  "connection_recv_heartbeat header c = heartbeat_model_rx"

section \<open>The connection of the QUIC layer\<close>

text \<open>\<open>Connection<Side>\<close>: quinn's connection, the model, and a marker of its side. The other theories pass the first two.\<close>

datatype client_marker = ClientMarker

datatype server_marker = ServerMarker

record ('q, 'm) quinn_connection =
  qn_conn :: 'q
  qn_model :: connection
  qn_marker :: 'm

definition quinn_client_new :: "'q \<Rightarrow> ('q, client_marker) quinn_connection" where
  "quinn_client_new conn = \<lparr>qn_conn = conn, qn_model = connection_new, qn_marker = ClientMarker\<rparr>"

definition quinn_server_new :: "'q \<Rightarrow> ('q, server_marker) quinn_connection" where
  "quinn_server_new conn = \<lparr>qn_conn = conn, qn_model = connection_new, qn_marker = ServerMarker\<rparr>"

definition quinn_task_connect_count :: "('q, 'm) quinn_connection \<Rightarrow> nat" where
  "quinn_task_connect_count c = task_connect_count (qn_model c)"

definition quinn_task_associate_count :: "('q, 'm) quinn_connection \<Rightarrow> nat" where
  "quinn_task_associate_count c = task_associate_count (qn_model c)"

definition quinn_collect_garbage :: "nat \<Rightarrow> nat \<Rightarrow> ('q, 'm) quinn_connection \<Rightarrow> ('q, 'm) quinn_connection" where
  "quinn_collect_garbage now timeout c = c\<lparr>qn_model := connection_collect_garbage now timeout (qn_model c)\<rparr>"

definition quinn_exporter :: "('q, 'e, 's, 'r) quic \<Rightarrow> ('q, 'm) quinn_connection \<Rightarrow> exporter" where
  "quinn_exporter Q c = keying_material_exporter Q (qn_conn c)"

text \<open>A connection starts with nothing registered on either side, and collecting garbage keeps what is registered.\<close>

lemma quinn_connection_counts:
  "quinn_task_connect_count (quinn_client_new q) = 0" "quinn_task_associate_count (quinn_client_new q) = 0"
  "quinn_task_connect_count (quinn_server_new q) = 0" "quinn_task_associate_count (quinn_server_new q) = 0"
  "quinn_task_connect_count (quinn_collect_garbage now timeout c) = quinn_task_connect_count c"
  "quinn_task_associate_count (quinn_collect_garbage now timeout c) = quinn_task_associate_count c"
  by (simp_all add: quinn_task_connect_count_def quinn_task_associate_count_def quinn_client_new_def quinn_server_new_def
      quinn_collect_garbage_def task_connect_count_def task_associate_count_def connection_new_def udp_sessions_new_def
      connection_collect_garbage_def udp_sessions_collect_garbage_def)

section \<open>The received commands of the QUIC layer\<close>

record 'r quinn_packet =
  qp_model :: "rx_marker packet_model"
  qp_src :: "'r packet_source"

definition quinn_packet_new :: "rx_marker packet_model \<Rightarrow> 'r packet_source \<Rightarrow> 'r quinn_packet" where
  "quinn_packet_new model src = \<lparr>qp_model = model, qp_src = src\<rparr>"

definition quinn_packet_assoc_id :: "'r quinn_packet \<Rightarrow> u16 outcome" where
  "quinn_packet_assoc_id p = packet_rx_assoc_id (qp_model p)"

definition quinn_packet_pkt_id :: "'r quinn_packet \<Rightarrow> u16 outcome" where
  "quinn_packet_pkt_id p = packet_rx_pkt_id (qp_model p)"

definition quinn_packet_frag_id :: "'r quinn_packet \<Rightarrow> u8 outcome" where
  "quinn_packet_frag_id p = packet_rx_frag_id (qp_model p)"

definition quinn_packet_frag_total :: "'r quinn_packet \<Rightarrow> u8 outcome" where
  "quinn_packet_frag_total p = packet_rx_frag_total (qp_model p)"

definition quinn_packet_is_from_quic :: "'r quinn_packet \<Rightarrow> bool" where
  "quinn_packet_is_from_quic p = (case qp_src p of SourceQuic _ \<Rightarrow> True | SourceNative _ \<Rightarrow> False)"

definition quinn_packet_is_from_native :: "'r quinn_packet \<Rightarrow> bool" where
  "quinn_packet_is_from_native p = (case qp_src p of SourceQuic _ \<Rightarrow> False | SourceNative _ \<Rightarrow> True)"

text \<open>The exporter of a received \<open>Authenticate\<close> is that of its connection.\<close>

record 'u quinn_authenticate =
  qa_model :: "('u, rx_marker) authenticate_model"
  qa_exporter :: exporter

definition quinn_authenticate_new ::
    "('u, rx_marker) authenticate_model \<Rightarrow> exporter \<Rightarrow> 'u quinn_authenticate" where
  "quinn_authenticate_new model exporter = \<lparr>qa_model = model, qa_exporter = exporter\<rparr>"

definition quinn_authenticate_uuid :: "'u quinn_authenticate \<Rightarrow> 'u outcome" where
  "quinn_authenticate_uuid a = authenticate_rx_uuid (qa_model a)"

definition quinn_authenticate_token :: "'u quinn_authenticate \<Rightarrow> bytes outcome" where
  "quinn_authenticate_token a = authenticate_rx_token (qa_model a)"

definition quinn_authenticate_validate :: "'u uuid_lib \<Rightarrow> bytes \<Rightarrow> 'u quinn_authenticate \<Rightarrow> bool outcome" where
  "quinn_authenticate_validate U password a = authenticate_model_is_valid U password (qa_exporter a) (qa_model a)"

text \<open>A \<open>Connect\<close> of either side of the connection.\<close>

datatype ('c, 's) conn_side = ClientSide 'c | ServerSide 's

record ('u, 's, 'r) quinn_connect =
  qc_model :: "(('u, tx_marker) connect_model, ('u, rx_marker) connect_model) conn_side"
  qc_send :: 's
  qc_recv :: 'r

definition quinn_connect_new ::
    "(('u, tx_marker) connect_model, ('u, rx_marker) connect_model) conn_side \<Rightarrow> 's \<Rightarrow> 'r \<Rightarrow> ('u, 's, 'r) quinn_connect" where
  "quinn_connect_new model send recv = \<lparr>qc_model = model, qc_send = send, qc_recv = recv\<rparr>"

definition quinn_connect_addr :: "('u, 's, 'r) quinn_connect \<Rightarrow> address outcome" where
  "quinn_connect_addr conn = (case qc_model conn of
     ClientSide model \<Rightarrow> outcome_bind (connect_tx_header model) (\<lambda>header. case header of
       Connect conn \<Rightarrow> Returns (ch_addr conn)
     | _ \<Rightarrow> Panics Unreachable)
   | ServerSide model \<Rightarrow> connect_rx_addr model)"

text \<open>The calls on the two streams: their results, and the state of the transport after them.\<close>

record ('q, 's, 'r, 'e) stream_lib =
  stream_reset :: "'s \<Rightarrow> nat \<Rightarrow> 'q \<Rightarrow> ('e + unit) \<times> 'q"
  stream_finish :: "'s \<Rightarrow> 'q \<Rightarrow> ('e + unit) \<times> 'q"
  stream_stop :: "'r \<Rightarrow> nat \<Rightarrow> 'q \<Rightarrow> ('e + unit) \<times> 'q"
  poll_read :: "'r \<Rightarrow> nat \<Rightarrow> 'q \<Rightarrow> (io_error + bytes) option \<times> 'q"
  poll_write :: "'s \<Rightarrow> bytes \<Rightarrow> 'q \<Rightarrow> (io_error + nat) option \<times> 'q"
  poll_flush :: "'s \<Rightarrow> 'q \<Rightarrow> (io_error + unit) option \<times> 'q"
  poll_shutdown :: "'s \<Rightarrow> 'q \<Rightarrow> (io_error + unit) option \<times> 'q"

definition quinn_connect_reset ::
    "('q, 's, 'r, 'e) stream_lib \<Rightarrow> nat \<Rightarrow> ('u, 's, 'r) quinn_connect \<Rightarrow> 'q \<Rightarrow> (('e + unit) \<times> ('e + unit)) \<times> 'q" where
  "quinn_connect_reset L error_code conn q =
     (case stream_reset L (qc_send conn) error_code q of (send_res, q) \<Rightarrow>
      case stream_stop L (qc_recv conn) error_code q of (recv_res, q) \<Rightarrow> ((send_res, recv_res), q))"

definition quinn_connect_finish ::
    "('q, 's, 'r, 'e) stream_lib \<Rightarrow> ('u, 's, 'r) quinn_connect \<Rightarrow> 'q \<Rightarrow> (('e + unit) \<times> ('e + unit)) \<times> 'q" where
  "quinn_connect_finish L conn q =
     (case stream_finish L (qc_send conn) q of (send_res, q) \<Rightarrow>
      case stream_stop L (qc_recv conn) 0 q of (recv_res, q) \<Rightarrow> ((send_res, recv_res), q))"

text \<open>\<open>AsyncRead\<close> reads from the receiving stream, \<open>AsyncWrite\<close> writes to the sending one; \<open>None\<close> is \<open>Pending\<close>.\<close>

definition quinn_connect_poll_read ::
    "('q, 's, 'r, 'e) stream_lib \<Rightarrow> ('u, 's, 'r) quinn_connect \<Rightarrow> nat \<Rightarrow> 'q \<Rightarrow> (io_error + bytes) option \<times> 'q" where
  "quinn_connect_poll_read L conn n q = poll_read L (qc_recv conn) n q"

definition quinn_connect_poll_write ::
    "('q, 's, 'r, 'e) stream_lib \<Rightarrow> ('u, 's, 'r) quinn_connect \<Rightarrow> bytes \<Rightarrow> 'q \<Rightarrow> (io_error + nat) option \<times> 'q" where
  "quinn_connect_poll_write L conn buf q = poll_write L (qc_send conn) buf q"

definition quinn_connect_poll_flush ::
    "('q, 's, 'r, 'e) stream_lib \<Rightarrow> ('u, 's, 'r) quinn_connect \<Rightarrow> 'q \<Rightarrow> (io_error + unit) option \<times> 'q" where
  "quinn_connect_poll_flush L conn q = poll_flush L (qc_send conn) q"

definition quinn_connect_poll_shutdown ::
    "('q, 's, 'r, 'e) stream_lib \<Rightarrow> ('u, 's, 'r) quinn_connect \<Rightarrow> 'q \<Rightarrow> (io_error + unit) option \<times> 'q" where
  "quinn_connect_poll_shutdown L conn q = poll_shutdown L (qc_send conn) q"

section \<open>The typed layer computes what is inside\<close>

named_theorems sides \<open>the commands and their accessors\<close>

lemmas side_constructors [sides] =
  packet_model_tx_def packet_model_rx_def authenticate_model_tx_def authenticate_model_rx_def connect_model_tx_def
  connect_model_rx_def dissociate_model_tx_def dissociate_model_rx_def heartbeat_model_tx_def heartbeat_model_rx_def

lemmas side_accessors [sides] =
  packet_tx_assoc_id_def packet_tx_pkt_id_def packet_tx_addr_def packet_rx_assoc_id_def packet_rx_pkt_id_def
  packet_rx_frag_id_def packet_rx_frag_total_def packet_rx_addr_def packet_rx_size_def authenticate_tx_header_def
  authenticate_rx_uuid_def authenticate_rx_token_def connect_tx_header_def connect_rx_addr_def dissociate_tx_header_def
  dissociate_rx_assoc_id_def heartbeat_tx_header_def

lemma typed_packet_sends:
  assumes "connection_send_packet assoc_id addr max_pkt_size c = (tx, c')"
  defines "m \<equiv> packet_model_tx (ptx_assoc_id tx) (ptx_pkt_id tx) (ptx_addr tx) (ptx_max_pkt_size tx)"
  shows "packet_model_into_fragments oc m payload = into_fragments oc tx payload"
    and "packet_tx_assoc_id m = Returns assoc_id" and "packet_tx_addr m = Returns addr"
  using assms(1) by (auto simp: m_def packet_model_into_fragments_def packet_tx_new_def into_fragments_def sides
      connection_send_packet_def udp_sessions_send_packet_def udp_session_send_packet_def split: prod.splits)

lemma typed_packet_receives:
  fixes s :: udp_session
  assumes "connection_recv_packet_unrestricted h c = (rx, c')"
  defines "m \<equiv> udp_session_recv_packet (ph_assoc_id h) (ph_pkt_id h) (ph_frag_total h) (ph_frag_id h) (ph_size h) (ph_addr h) s"
  shows "packet_model_assemble oc now m data ss = packet_rx_assemble oc now rx data ss"
    and "packet_rx_assoc_id m = Returns (ph_assoc_id h)" and "packet_rx_pkt_id m = Returns (ph_pkt_id h)"
    and "packet_rx_frag_id m = Returns (ph_frag_id h)" and "packet_rx_frag_total m = Returns (ph_frag_total h)"
    and "packet_rx_size m = Returns (ph_size h)" and "packet_rx_addr m = Returns (ph_addr h)"
  using recv_packet_unrestricted_buffer(1) [OF assms(1)]
  by (simp_all add: m_def udp_session_recv_packet_def packet_model_assemble_def packet_rx_assemble_def packet_rx_new_def sides)

lemma typed_authenticate:
  shows "authenticate_tx_header (authenticate_model_tx U uuid password exporter) =
      Returns (Authenticate (connection_send_authenticate U uuid password exporter))"
    and "quinn_authenticate_validate U password (quinn_authenticate_new (authenticate_model_rx (arx_uuid rx) (arx_token rx)) ex) =
      Returns (authenticate_is_valid U password ex rx)"
  by (simp_all add: connection_send_authenticate_def quinn_authenticate_validate_def quinn_authenticate_new_def
      authenticate_model_is_valid_def authenticate_is_valid_def sides)

text \<open>
  The two ends of a \<open>Connect\<close> agree on its address: the one that \<open>connect\<close> returns, whose model still holds the header
  it sent, and the one that is accepted from that header.
\<close>

lemma typed_connect:
  assumes "connection_send_connect addr c = (header, c1)" and "connection_recv_connect header d = (rx, d1)"
  shows "quinn_connect_addr (quinn_connect_new (ClientSide (connect_model_tx (ch_addr header))) send recv) = Returns addr"
    and "quinn_connect_addr (quinn_connect_new (ServerSide (connect_model_rx (crx_addr rx))) send' recv') = Returns addr"
  using assms by (auto simp: quinn_connect_addr_def quinn_connect_new_def connection_send_connect_def
      connection_recv_connect_def connect_into_def sides)

lemma typed_others:
  shows "dissociate_tx_header (dissociate_model_tx a) = Returns (Dissociate \<lparr>dh_assoc_id = a\<rparr>)"
    and "dissociate_rx_assoc_id (dissociate_model_rx a) = Returns a"
    and "heartbeat_tx_header heartbeat_model_tx = Returns connection_send_heartbeat"
  by (simp_all add: connection_send_heartbeat_def sides)

end
