(* ===== verification/Client_Loop.thy ===== *)
theory Client_Loop
  imports Client_Relay
begin

text \<open>
  A client connection with its tasks: \<open>Connection::init\<close> of \<^verbatim>\<open>tuic-client/src/connection/mod.rs\<close>, which starts the
  keep-alive and the collection of garbage and spawns a handler for each stream and datagram of the server,
  beside the SOCKS5 handlers that use the connection.
\<close>

section \<open>The loop\<close>

text \<open>What the branch of \<open>select!\<close> that is ready yields, and the handlers it spawns.\<close>

datatype ('s, 'r) client_ready = ReadyUni "io_error + 'r" | ReadyBi "io_error + 's \<times> 'r" | ReadyDatagram "io_error + bytes"

datatype ('s, 'r) client_spawned = ClientUni 'r | ClientBi 's 'r | ClientDatagram bytes

text \<open>
  The branches are polled in any order until one is ready, and a branch of streams checks its limit when it is
  polled first: \<open>uni\<close> and \<open>bi\<close> say which have been.
\<close>

definition client_init_polls ::
    "('u, 'q, 'e, 's, 'r) client_lib \<Rightarrow> bool \<Rightarrow> bool \<Rightarrow> ('u, 'q) client_conn \<Rightarrow> unit outcome \<times> ('u, 'q) client_conn" where
  "client_init_polls B uni bi c =
     (case (if uni then client_grow_uni B c else (Returns (), c)) of
        (Panics p, c) \<Rightarrow> (Panics p, c)
      | (Returns _, c) \<Rightarrow> (if bi then client_grow_bi B c else (Returns (), c)))"

text \<open>A turn: the polls, then the branch that is ready. An error ends the loop.\<close>

definition client_init_turn ::
    "('u, 'q, 'e, 's, 'r) client_lib \<Rightarrow> bool \<Rightarrow> bool \<Rightarrow> ('s, 'r) client_ready \<Rightarrow> ('u, 'q) client_conn \<Rightarrow>
      ('m client_error + ('s, 'r) client_spawned) outcome \<times> ('u, 'q) client_conn" where
  "client_init_turn B uni bi inc c = (case client_init_polls B uni bi c of
     (Panics p, c) \<Rightarrow> (Panics p, c)
   | (Returns _, c) \<Rightarrow> (case inc of
       ReadyUni got \<Rightarrow> (case client_accept_uni B got c of
         (res, c) \<Rightarrow> (outcome_bind res (\<lambda>r. Returns (map_sum id ClientUni r)), c))
     | ReadyBi got \<Rightarrow> (case client_accept_bi B got c of
         (res, c) \<Rightarrow> (outcome_bind res (\<lambda>r. Returns (map_sum id (\<lambda>(send, recv). ClientBi send recv) r)), c))
     | ReadyDatagram got \<Rightarrow> (Returns (map_sum id ClientDatagram (client_accept_dg got)), c)))"

section \<open>The connection with its tasks\<close>

record ('u, 'q, 's, 'r) client_serving =
  cv_conn :: "('u, 'q) client_conn"
  cv_socks :: socks_udp
  cv_running :: "('s, 'r) client_spawned list"
  cv_looping :: bool
  cv_authenticating :: bool
  cv_beating :: bool
  cv_collecting :: bool

text \<open>The start of \<open>init\<close>, which spawns the three tasks.\<close>

definition client_init ::
    "'q \<Rightarrow> client_relay_mode \<Rightarrow> 'u \<Rightarrow> bytes \<Rightarrow> socks_udp \<Rightarrow> ('u, 'q, 's, 'r) client_serving" where
  "client_init conn mode uuid password u =
     \<lparr>cv_conn = client_conn_new conn mode uuid password, cv_socks = u, cv_running = [], cv_looping = True,
      cv_authenticating = True, cv_beating = True, cv_collecting = True\<rparr>"

text \<open>
  What the SOCKS5 handlers, the transport and the process do beside the tasks of the connection.
\<close>

inductive client_other_step ::
    "('u, 'q, 'e, 's, 'r) client_lib \<Rightarrow> ('u, 'q) client_conn \<Rightarrow> ('u, 'q) client_conn \<Rightarrow> bool" for B where
  client_other_connect: "client_other_step B c (snd (client_conn_connect B addr c))"
| client_other_drop: "client_other_step B c (c\<lparr>cl_model := connection_drop_connect (cl_model c)\<rparr>)"
| client_other_packet:
    "client_other_step B c (snd (client_conn_packet B pkt addr assoc_id c))"
| client_other_dissociate:
    "client_other_step B c (snd (client_conn_dissociate B assoc_id c))"
| client_other_closed: "client_other_step B c (c\<lparr>cl_closed := True\<rparr>)"
| client_other_quic: "client_other_step B c (c\<lparr>cl_conn := q\<rparr>)"

text \<open>
  The steps. Polls happen any time the loop waits; a limit checked again before the accept does not grow twice, because only the loop
  itself adds streams. A panic ends the task it happens in, here the loop or a handler.
\<close>

inductive client_serving_step ::
    "('u, 'q, 'e, 's, 'r) client_lib \<Rightarrow> ('u, 'q, 's, 'r) client_serving \<Rightarrow> ('u, 'q, 's, 'r) client_serving \<Rightarrow> bool"
  for B where
  client_polls: "cv_looping s \<Longrightarrow>
    client_init_polls B uni bi (cv_conn s) = (r, c) \<Longrightarrow>
    client_serving_step B s (s\<lparr>cv_conn := c, cv_looping := (r = Returns ())\<rparr>)"
| client_spawns: "cv_looping s \<Longrightarrow>
    client_init_turn B uni bi inc (cv_conn s) =
      (Returns (Inr task) :: (('e, 's, 'r) quinn_error client_error + _) outcome, c) \<Longrightarrow>
    client_serving_step B s (s\<lparr>cv_conn := c, cv_running := cv_running s @ [task]\<rparr>)"
| client_breaks: "cv_looping s \<Longrightarrow>
    client_init_turn B uni bi inc (cv_conn s) =
      (r :: (('e, 's, 'r) quinn_error client_error + ('s, 'r) client_spawned) outcome, c) \<Longrightarrow>
    \<not> (\<exists>task. r = Returns (Inr task)) \<Longrightarrow>
    client_serving_step B s (s\<lparr>cv_conn := c, cv_looping := False\<rparr>)"
| client_uni: "cv_running s = before @ ClientUni recv # after \<Longrightarrow>
    client_handle_uni_stream B sent now recv (cv_conn s, cv_socks s) = (r, c, u) \<Longrightarrow>
    client_serving_step B s (s\<lparr>cv_conn := c, cv_socks := u, cv_running := before @ after\<rparr>)"
| client_bi: "cv_running s = before @ ClientBi send recv # after \<Longrightarrow>
    client_handle_bi_stream B send recv (cv_conn s) = (r, c) \<Longrightarrow>
    client_serving_step B s (s\<lparr>cv_conn := c, cv_running := before @ after\<rparr>)"
| client_datagram: "cv_running s = before @ ClientDatagram dg # after \<Longrightarrow>
    client_handle_datagram B sent now dg (cv_conn s, cv_socks s) = (r, c, u) \<Longrightarrow>
    client_serving_step B s (s\<lparr>cv_conn := c, cv_socks := u, cv_running := before @ after\<rparr>)"
| client_authenticates: "cv_authenticating s \<Longrightarrow>
    client_serving_step B s (s\<lparr>cv_conn := client_conn_authenticate B (cv_conn s),
      cv_authenticating := False\<rparr>)"
| client_beats: "cv_beating s \<Longrightarrow>
    client_conn_heartbeat B (cv_conn s) = (ends, c) \<Longrightarrow>
    client_serving_step B s (s\<lparr>cv_conn := c, cv_beating := \<not> ends\<rparr>)"
| client_collects: "cv_collecting s \<Longrightarrow> client_conn_collect_garbage now lifetime (cv_conn s) = (ends, c) \<Longrightarrow>
    client_serving_step B s (s\<lparr>cv_conn := c, cv_collecting := \<not> ends\<rparr>)"
| client_other: "client_other_step B (cv_conn s) c \<Longrightarrow> client_serving_step B s (s\<lparr>cv_conn := c\<rparr>)"
| client_socks_udp: "client_serving_step B s (s\<lparr>cv_socks := u\<rparr>)"

section \<open>The counters and limits of streams\<close>

fun client_is_uni :: "('s, 'r) client_spawned \<Rightarrow> bool" where
  "client_is_uni (ClientUni _) = True"
| "client_is_uni _ = False"

fun client_is_bi :: "('s, 'r) client_spawned \<Rightarrow> bool" where
  "client_is_bi (ClientBi _ _) = True"
| "client_is_bi _ = False"

definition same_client_streams :: "('u, 'q) client_conn \<Rightarrow> ('u, 'q) client_conn \<Rightarrow> bool" where
  "same_client_streams c c' \<longleftrightarrow>
     cl_uni_stream_cnt c' = cl_uni_stream_cnt c \<and> cl_bi_stream_cnt c' = cl_bi_stream_cnt c \<and>
     cl_max_uni_streams c' = cl_max_uni_streams c \<and> cl_max_bi_streams c' = cl_max_bi_streams c \<and>
     cl_quic_max_uni c' = cl_quic_max_uni c \<and> cl_quic_max_bi c' = cl_quic_max_bi c"

lemma same_client_streams_refl [simp]: "same_client_streams c c"
  by (simp add: same_client_streams_def)

lemma same_client_streams_updates [simp]:
  "same_client_streams a (c\<lparr>cl_model := m\<rparr>) = same_client_streams a c"
  "same_client_streams a (c\<lparr>cl_conn := q\<rparr>) = same_client_streams a c"
  "same_client_streams a (c\<lparr>cl_closed := b\<rparr>) = same_client_streams a c"
  "same_client_streams a (client_close code reason c) = same_client_streams a c"
  by (simp_all add: same_client_streams_def client_close_def)

lemma same_client_streams_sends:
  "same_client_streams c (client_conn_authenticate B c)" "same_client_streams c (snd (client_conn_connect B addr c))"
  "same_client_streams c (snd (client_conn_packet B pkt addr assoc_id c))"
  "same_client_streams c (snd (client_conn_dissociate B assoc_id c))"
  "same_client_streams c (snd (client_conn_heartbeat B c))"
  "same_client_streams c (snd (client_conn_collect_garbage now lifetime c))"
  by (simp_all add: client_conn_authenticate_def client_conn_connect_def client_conn_packet_def client_conn_dissociate_def
      client_conn_heartbeat_def client_conn_collect_garbage_def Let_def split: prod.split sum.split)

lemma same_client_streams_other: "client_other_step B c c' \<Longrightarrow> same_client_streams c c'"
  by (induction rule: client_other_step.induct) (simp_all add: same_client_streams_sends)

lemma same_client_streams_handle_packet:
  assumes "client_handle_packet B sent now pkt src (c, u) = (r, c', u')"
  shows "same_client_streams c c'"
  using assms by (auto simp: client_handle_packet_def Let_def
      split: if_splits prod.splits outcome.splits sum.splits option.splits address.splits)

lemma client_handle_datagram_streams:
  assumes "client_handle_datagram B sent now dg (c, u) = (r, c', u')"
  shows "same_client_streams c c'"
  using assms same_client_streams_handle_packet
  by (fastforce simp: client_handle_datagram_def
      split: outcome.splits sum.splits task.splits client_relay_mode.splits prod.splits)

lemma client_handle_uni_stream_streams:
  assumes "client_handle_uni_stream B sent now recv (c, u) = (r, c', u')"
  shows "same_client_streams (c\<lparr>cl_uni_stream_cnt := cl_uni_stream_cnt c - 1\<rparr>) c'"
  using assms same_client_streams_handle_packet
  by (fastforce simp: client_handle_uni_stream_def same_client_streams_def
      split: outcome.splits sum.splits task.splits client_relay_mode.splits prod.splits)

lemma client_handle_bi_stream_streams:
  assumes "client_handle_bi_stream B send recv c = (r, c')"
  shows "same_client_streams (c\<lparr>cl_bi_stream_cnt := cl_bi_stream_cnt c - 1\<rparr>) c'"
  using assms by (auto simp: client_handle_bi_stream_def)

text \<open>
  The limit of a kind of stream: the initial one doubled some times, told to quinn, and not below the number of
  handlers. It has room when it is above that number.
\<close>

definition limit_ok :: "u32 \<Rightarrow> u32 \<Rightarrow> nat \<Rightarrow> bool" where
  "limit_ok m quic n \<longleftrightarrow> quic = m \<and> (\<exists>k\<le>31. unat m = 2 ^ k) \<and> n \<le> unat m"

definition limits_kept :: "('u, 'q) client_conn \<Rightarrow> bool" where
  "limits_kept c \<longleftrightarrow> limit_ok (cl_max_uni_streams c) (cl_quic_max_uni c) (cl_uni_stream_cnt c) \<and>
     limit_ok (cl_max_bi_streams c) (cl_quic_max_bi c) (cl_bi_stream_cnt c)"

lemma limit_doubles:
  assumes "limit_ok m quic n" and "n < 2 ^ 31" and "(of_nat n :: u32) = m"
  shows "u32_double oc m = Returns (m * 2)" and "limit_ok (m * 2) (m * 2) n" and "n < unat (m * 2)"
proof -
  obtain k where k: "k \<le> 31" "unat m = 2 ^ k" using assms(1) by (auto simp: limit_ok_def)
  have n: "n = 2 ^ k" using assms(2,3) k(2) by (auto simp: unat_of_nat)
  with assms(2) have less: "(2 :: nat) ^ k < 2 ^ 31" by (simp only:)
  then have "k < 31" by (rule power_less_imp_less_exp [rotated]) simp
  have small: "unat m < 2 ^ 31" using less unfolding k(2) .
  then have "m < 2 ^ 31" by (simp add: word_less_nat_alt)
  then show "u32_double oc m = Returns (m * 2)" by (simp add: u32_double_def not_le)
  have "unat (m * 2) = unat m * 2" using small by (subst unat_mult_lem [THEN iffD1]) simp_all
  then have double: "unat (m * 2) = 2 ^ Suc k" using k(2) by simp
  then show "n < unat (m * 2)" using n by simp
  then show "limit_ok (m * 2) (m * 2) n" using double \<open>k < 31\<close> unfolding limit_ok_def by (metis Suc_leI less_imp_le_nat)
qed

lemma limit_stays:
  assumes "limit_ok m quic n" and "(of_nat n :: u32) \<noteq> m"
  shows "n < unat m"
proof -
  have "n \<noteq> unat m" using assms(2) by auto
  with assms(1) show ?thesis by (simp add: limit_ok_def)
qed

lemma client_grow_room:
  assumes "limits_kept c" and "cl_uni_stream_cnt c < 2 ^ 31" and "cl_bi_stream_cnt c < 2 ^ 31"
  obtains m m' where
    "client_grow_uni B c = (Returns (), c\<lparr>cl_max_uni_streams := m, cl_quic_max_uni := m\<rparr>)" and
    "limit_ok m m (cl_uni_stream_cnt c)" and "cl_uni_stream_cnt c < unat m" and
    "client_grow_bi B c = (Returns (), c\<lparr>cl_max_bi_streams := m', cl_quic_max_bi := m'\<rparr>)" and
    "limit_ok m' m' (cl_bi_stream_cnt c)" and "cl_bi_stream_cnt c < unat m'"
proof -
  have uni: "\<exists>m. client_grow_uni B c = (Returns (), c\<lparr>cl_max_uni_streams := m, cl_quic_max_uni := m\<rparr>) \<and>
      limit_ok m m (cl_uni_stream_cnt c) \<and> cl_uni_stream_cnt c < unat m"
  proof (cases "(of_nat (cl_uni_stream_cnt c) :: u32) = cl_max_uni_streams c")
    case True
    with assms limit_doubles [of "cl_max_uni_streams c" "cl_quic_max_uni c" "cl_uni_stream_cnt c"]
    show ?thesis by (auto simp: client_grow_uni_def limits_kept_def)
  next
    case False
    with assms(1) limit_stays [of "cl_max_uni_streams c" "cl_quic_max_uni c" "cl_uni_stream_cnt c"]
    show ?thesis
      by (intro exI [of _ "cl_max_uni_streams c"]) (simp add: client_grow_uni_def limits_kept_def limit_ok_def)
  qed
  have bi: "\<exists>m. client_grow_bi B c = (Returns (), c\<lparr>cl_max_bi_streams := m, cl_quic_max_bi := m\<rparr>) \<and>
      limit_ok m m (cl_bi_stream_cnt c) \<and> cl_bi_stream_cnt c < unat m"
  proof (cases "(of_nat (cl_bi_stream_cnt c) :: u32) = cl_max_bi_streams c")
    case True
    with assms limit_doubles [of "cl_max_bi_streams c" "cl_quic_max_bi c" "cl_bi_stream_cnt c"]
    show ?thesis by (auto simp: client_grow_bi_def limits_kept_def)
  next
    case False
    with assms(1) limit_stays [of "cl_max_bi_streams c" "cl_quic_max_bi c" "cl_bi_stream_cnt c"]
    show ?thesis
      by (intro exI [of _ "cl_max_bi_streams c"]) (simp add: client_grow_bi_def limits_kept_def limit_ok_def)
  qed
  from uni bi that show thesis by blast
qed

lemma client_polls_room:
  assumes "limits_kept c" and "cl_uni_stream_cnt c < 2 ^ 31" and "cl_bi_stream_cnt c < 2 ^ 31"
  obtains c' where "client_init_polls B uni bi c = (Returns (), c')" and "limits_kept c'"
    and "cl_uni_stream_cnt c' = cl_uni_stream_cnt c" and "cl_bi_stream_cnt c' = cl_bi_stream_cnt c"
    and "cl_model c' = cl_model c"
    and "uni \<Longrightarrow> cl_uni_stream_cnt c < unat (cl_quic_max_uni c')"
    and "bi \<Longrightarrow> cl_bi_stream_cnt c < unat (cl_quic_max_bi c')"
proof -
  obtain m where m: "client_grow_uni B c = (Returns (), c\<lparr>cl_max_uni_streams := m, cl_quic_max_uni := m\<rparr>)"
    "limit_ok m m (cl_uni_stream_cnt c)" "cl_uni_stream_cnt c < unat m"
    by (rule client_grow_room [OF assms])
  define c1 where "c1 = (if uni then c\<lparr>cl_max_uni_streams := m, cl_quic_max_uni := m\<rparr> else c)"
  have c1: "limits_kept c1" "cl_uni_stream_cnt c1 = cl_uni_stream_cnt c" "cl_bi_stream_cnt c1 = cl_bi_stream_cnt c"
    "cl_model c1 = cl_model c"
    "uni \<longrightarrow> cl_uni_stream_cnt c < unat (cl_quic_max_uni c1)"
    using assms(1) m(2,3) by (simp_all add: c1_def limits_kept_def)
  with assms(2,3) obtain m' where m': "client_grow_bi B c1 = (Returns (), c1\<lparr>cl_max_bi_streams := m', cl_quic_max_bi := m'\<rparr>)"
    "limit_ok m' m' (cl_bi_stream_cnt c1)" "cl_bi_stream_cnt c1 < unat m'"
    using client_grow_room [of c1 B] by metis
  let ?c2 = "if bi then c1\<lparr>cl_max_bi_streams := m', cl_quic_max_bi := m'\<rparr> else c1"
  have "client_init_polls B uni bi c = (Returns (), ?c2)"
    using m(1) m'(1) unfolding client_init_polls_def c1_def by (cases uni; cases bi) simp_all
  then show thesis using c1 m'(2,3) by (intro that [of ?c2]) (simp_all add: limits_kept_def)
qed

text \<open>What a turn that spawns a handler adds.\<close>

lemma map_sum_eq_Inr: "map_sum f g s = Inr y \<longleftrightarrow> (\<exists>x. s = Inr x \<and> y = g x)"
  by (cases s) auto

lemma client_turn_spawns:
  assumes "client_init_turn B uni bi inc c = (Returns (Inr task), c')"
    and "limits_kept c" and "cl_uni_stream_cnt c < 2 ^ 31" and "cl_bi_stream_cnt c < 2 ^ 31"
  shows "cl_uni_stream_cnt c' = cl_uni_stream_cnt c + (if client_is_uni task then 1 else 0)"
    and "cl_bi_stream_cnt c' = cl_bi_stream_cnt c + (if client_is_bi task then 1 else 0)"
    and "limits_kept c'" and "cl_model c' = cl_model c"
proof -
  obtain c1 where c1: "client_init_polls B uni bi c = (Returns (), c1)" "limits_kept c1"
    "cl_uni_stream_cnt c1 = cl_uni_stream_cnt c" "cl_bi_stream_cnt c1 = cl_bi_stream_cnt c" "cl_model c1 = cl_model c"
    by (rule client_polls_room [OF assms(2-4)])
  have small: "cl_uni_stream_cnt c1 < 2 ^ 31" "cl_bi_stream_cnt c1 < 2 ^ 31" using c1 assms(3,4) by simp_all
  obtain m m' where grown:
    "client_grow_uni B c1 = (Returns (), c1\<lparr>cl_max_uni_streams := m, cl_quic_max_uni := m\<rparr>)"
    "limit_ok m m (cl_uni_stream_cnt c1)" "cl_uni_stream_cnt c1 < unat m"
    "client_grow_bi B c1 = (Returns (), c1\<lparr>cl_max_bi_streams := m', cl_quic_max_bi := m'\<rparr>)"
    "limit_ok m' m' (cl_bi_stream_cnt c1)" "cl_bi_stream_cnt c1 < unat m'"
    by (rule client_grow_room [OF c1(2) small])
  show "cl_uni_stream_cnt c' = cl_uni_stream_cnt c + (if client_is_uni task then 1 else 0)"
    and "cl_bi_stream_cnt c' = cl_bi_stream_cnt c + (if client_is_bi task then 1 else 0)"
    and "limits_kept c'" and "cl_model c' = cl_model c"
    using assms(1) c1 grown
    by (auto simp: client_init_turn_def client_accept_uni_def client_accept_bi_def limits_kept_def limit_ok_def
        outcome_bind_eq_Returns map_sum_eq_Inr split: client_ready.splits sum.splits prod.splits)
qed

section \<open>The state of the protocol\<close>

text \<open>The tasks and the SOCKS5 handlers move the state of the protocol by its own operations only.\<close>

definition model_moves :: "bool \<Rightarrow> ('u, 'q) client_conn \<Rightarrow> ('u, 'q) client_conn \<Rightarrow> bool" where
  "model_moves oc c c' \<longleftrightarrow> (connection_step oc)\<^sup>*\<^sup>* (cl_model c) (cl_model c')"

lemma model_moves_refl: "cl_model c' = cl_model c \<Longrightarrow> model_moves oc c c'"
  by (simp add: model_moves_def)

lemma model_moves_connect: "model_moves oc c (snd (client_conn_connect B addr c))"
proof -
  obtain h m where sent: "connection_send_connect addr (cl_model c) = (h, m)" by (rule prod.exhaust)
  then have "(connection_step oc)\<^sup>*\<^sup>* (cl_model c) m" by (intro r_into_rtranclp step_send_connect)
  moreover from this have "(connection_step oc)\<^sup>*\<^sup>* (cl_model c) (connection_drop_connect m)"
    by (rule rtranclp.rtrancl_into_rtrancl) (rule step_drop_connect)
  ultimately show ?thesis using sent
    by (auto simp: model_moves_def client_conn_connect_def client_connect_def Let_def client_close_def
        split: prod.splits sum.splits)
qed

lemma model_moves_packet: "model_moves (cb_overflow_checks B) c (snd (client_conn_packet B pkt addr assoc_id c))"
proof -
  have sent: "connection_step oc m m'" if "connection_send_packet assoc_id addr sz m = (tx, m')" for oc sz tx m m'
    using that by (rule step_send_packet)
  show ?thesis
    by (auto simp: model_moves_def client_conn_packet_def packet_native_def packet_quic_def client_close_def
        split: prod.splits option.splits outcome.splits client_relay_mode.splits intro!: r_into_rtranclp dest!: sent)
qed

lemma model_moves_dissociate: "model_moves oc c (snd (client_conn_dissociate B assoc_id c))"
  by (auto simp: model_moves_def client_conn_dissociate_def client_dissociate_def split: prod.splits
      intro!: r_into_rtranclp intro: step_send_dissociate)

lemma model_moves_other: "client_other_step B c c' \<Longrightarrow> model_moves (cb_overflow_checks B) c c'"
proof (induction rule: client_other_step.induct)
  case (client_other_drop c)
  show ?case by (simp add: model_moves_def r_into_rtranclp step_drop_connect)
qed (simp_all add: model_moves_connect model_moves_packet model_moves_dissociate model_moves_refl)

lemma packet_accept_moves:
  assumes "packet_accept oc rd now rx src m = (r, m')"
  shows "(connection_step oc)\<^sup>*\<^sup>* m m'"
  using assms by (auto simp: packet_accept_def split: sum.splits prod.splits intro!: r_into_rtranclp
      intro: step_assemble)

lemma model_moves_handle_packet:
  assumes "client_handle_packet B sent now pkt src (c, u) = (r, c', u')"
  shows "model_moves (cb_overflow_checks B) c c'"
  using assms packet_accept_moves by (fastforce simp: client_handle_packet_def Let_def model_moves_def
      split: if_splits prod.splits outcome.splits sum.splits option.splits address.splits)

lemma model_moves_handlers:
  "client_handle_datagram B sent now dg (c, u) = (r, c', u') \<Longrightarrow> model_moves (cb_overflow_checks B) c c'"
  "client_handle_uni_stream B sent now recv (c, u) = (r, c', u') \<Longrightarrow> model_moves (cb_overflow_checks B) c c'"
  "client_handle_bi_stream B send recv c = (r, c') \<Longrightarrow> model_moves (cb_overflow_checks B) c c'"
  using model_moves_handle_packet [of B sent now _ _ c u]
  by (fastforce simp: client_handle_datagram_def client_handle_uni_stream_def client_handle_bi_stream_def model_moves_def
      split: outcome.splits sum.splits task.splits client_relay_mode.splits prod.splits)+

lemma model_moves_timers:
  "model_moves oc c (client_conn_authenticate B c)" "model_moves oc c (snd (client_conn_heartbeat B c))"
  "model_moves oc c (snd (client_conn_collect_garbage now lifetime c))"
  by (auto simp: model_moves_def client_conn_authenticate_def client_conn_heartbeat_def client_conn_collect_garbage_def
      client_close_def split: prod.splits intro!: r_into_rtranclp step_collect_garbage)

section \<open>The invariant\<close>

lemma client_turn_else:
  assumes "client_init_turn B uni bi inc c = (r, c')" and "\<not> (\<exists>task. r = Returns (Inr task))"
    and "limits_kept c" and "cl_uni_stream_cnt c < 2 ^ 31" and "cl_bi_stream_cnt c < 2 ^ 31"
  shows "cl_uni_stream_cnt c' = cl_uni_stream_cnt c" and "cl_bi_stream_cnt c' = cl_bi_stream_cnt c"
    and "limits_kept c'" and "cl_model c' = cl_model c"
proof -
  obtain c1 where c1: "client_init_polls B uni bi c = (Returns (), c1)" "limits_kept c1"
    "cl_uni_stream_cnt c1 = cl_uni_stream_cnt c" "cl_bi_stream_cnt c1 = cl_bi_stream_cnt c" "cl_model c1 = cl_model c"
    by (rule client_polls_room [OF assms(3-5)])
  have small: "cl_uni_stream_cnt c1 < 2 ^ 31" "cl_bi_stream_cnt c1 < 2 ^ 31" using c1 assms(4,5) by simp_all
  obtain m m' where grown:
    "client_grow_uni B c1 = (Returns (), c1\<lparr>cl_max_uni_streams := m, cl_quic_max_uni := m\<rparr>)"
    "limit_ok m m (cl_uni_stream_cnt c1)"
    "client_grow_bi B c1 = (Returns (), c1\<lparr>cl_max_bi_streams := m', cl_quic_max_bi := m'\<rparr>)"
    "limit_ok m' m' (cl_bi_stream_cnt c1)"
    by (rule client_grow_room [OF c1(2) small])
  show "cl_uni_stream_cnt c' = cl_uni_stream_cnt c" and "cl_bi_stream_cnt c' = cl_bi_stream_cnt c"
    and "limits_kept c'" and "cl_model c' = cl_model c"
    using assms(1,2) c1 grown
    by (auto simp: client_init_turn_def client_accept_uni_def client_accept_bi_def limits_kept_def
        split: client_ready.splits sum.splits prod.splits)
qed

text \<open>
  The steps as long as fewer than \<open>2 ^ 31\<close> handlers run, where the limits stay representable.
\<close>

definition client_bounded_step ::
    "('u, 'q, 'e, 's, 'r) client_lib \<Rightarrow> ('u, 'q, 's, 'r) client_serving \<Rightarrow> ('u, 'q, 's, 'r) client_serving \<Rightarrow> bool" where
  "client_bounded_step B s s' \<longleftrightarrow> client_serving_step B s s' \<and> length (cv_running s') < 2 ^ 31"

definition client_starts :: "('u, 'q, 's, 'r) client_serving \<Rightarrow> bool" where
  "client_starts s \<longleftrightarrow> (\<exists>conn mode uuid password u. s = client_init conn mode uuid password u)"

definition client_serving_ok ::
    "('u, 'q, 'e, 's, 'r) client_lib \<Rightarrow> ('u, 'q, 's, 'r) client_serving \<Rightarrow> bool" where
  "client_serving_ok B s \<longleftrightarrow>
     cl_uni_stream_cnt (cv_conn s) = length (filter client_is_uni (cv_running s)) \<and>
     cl_bi_stream_cnt (cv_conn s) = length (filter client_is_bi (cv_running s)) \<and>
     limits_kept (cv_conn s) \<and> length (cv_running s) < 2 ^ 31 \<and>
     connection_ok (cl_model (cv_conn s))"

lemma client_serving_ok_small:
  assumes "client_serving_ok B s"
  shows "cl_uni_stream_cnt (cv_conn s) < 2 ^ 31" and "cl_bi_stream_cnt (cv_conn s) < 2 ^ 31"
  using assms le_less_trans [OF length_filter_le] unfolding client_serving_ok_def by (metis, metis)

lemma client_serving_ok_keeps:
  assumes "client_serving_ok B s" and "same_client_streams (cv_conn s) c" and "model_moves (cb_overflow_checks B) (cv_conn s) c"
    and "cv_conn s' = c" and "cv_running s' = before @ after"
    and "cv_running s = before @ after \<or> cv_running s = before @ ClientDatagram dg # after"
  shows "client_serving_ok B s'"
proof -
  have "limits_kept c"
    using assms(1,2) by (auto simp: client_serving_ok_def limits_kept_def same_client_streams_def)
  moreover have "connection_ok (cl_model c)"
    using assms(1,3) conn.steps_inv by (auto simp: client_serving_ok_def model_moves_def)
  ultimately show ?thesis using assms by (auto simp: client_serving_ok_def same_client_streams_def)
qed

lemma client_serving_ok_same:
  assumes "client_serving_ok B s" and "same_client_streams (cv_conn s) c" and "model_moves (cb_overflow_checks B) (cv_conn s) c"
    and "cv_conn s' = c" and "cv_running s' = cv_running s"
  shows "client_serving_ok B s'"
  using client_serving_ok_keeps [OF assms(1-4), of "cv_running s" "[]"] assms(5) by simp

lemma client_serving_step_ok:
  assumes "client_serving_step B s s'" and "client_serving_ok B s" and "length (cv_running s') < 2 ^ 31"
  shows "client_serving_ok B s'"
  using assms
proof (induction rule: client_serving_step.induct)
  case (client_polls s uni bi r c)
  note ok = client_polls.prems(1)
  have "limits_kept (cv_conn s)" using ok by (simp add: client_serving_ok_def)
  from client_polls_room [OF this client_serving_ok_small [OF ok], of B uni bi] client_polls.hyps(2)
  have "limits_kept c" "cl_uni_stream_cnt c = cl_uni_stream_cnt (cv_conn s)"
    "cl_bi_stream_cnt c = cl_bi_stream_cnt (cv_conn s)" "cl_model c = cl_model (cv_conn s)" by (metis prod.inject)+
  with ok show ?case by (simp add: client_serving_ok_def)
next
  case (client_spawns s uni bi inc task c)
  note ok = client_spawns.prems(1)
  have "limits_kept (cv_conn s)" using ok by (simp add: client_serving_ok_def)
  from client_turn_spawns [OF client_spawns.hyps(2) this client_serving_ok_small [OF ok]] ok client_spawns.prems(2)
  show ?case by (simp add: client_serving_ok_def)
next
  case (client_breaks s uni bi inc r c)
  note ok = client_breaks.prems(1)
  have "limits_kept (cv_conn s)" using ok by (simp add: client_serving_ok_def)
  from client_turn_else [OF client_breaks.hyps(2,3) this client_serving_ok_small [OF ok]] ok
  show ?case by (simp add: client_serving_ok_def)
next
  case (client_uni s before recv after sent now r c u)
  have limits: "limits_kept c"
    using client_uni.prems(1) client_handle_uni_stream_streams [OF client_uni.hyps(2)]
    by (auto simp: client_serving_ok_def limits_kept_def limit_ok_def same_client_streams_def)
  have "connection_ok (cl_model c)"
    using client_uni.prems(1) model_moves_handlers(2) [OF client_uni.hyps(2)] conn.steps_inv
    by (auto simp: client_serving_ok_def model_moves_def)
  with limits client_uni.prems client_uni.hyps(1) client_handle_uni_stream_streams [OF client_uni.hyps(2)]
  show ?case by (auto simp: client_serving_ok_def same_client_streams_def)
next
  case (client_bi s before send recv after r c)
  have limits: "limits_kept c"
    using client_bi.prems(1) client_handle_bi_stream_streams [OF client_bi.hyps(2)]
    by (auto simp: client_serving_ok_def limits_kept_def limit_ok_def same_client_streams_def)
  have "connection_ok (cl_model c)"
    using client_bi.prems(1) model_moves_handlers(3) [OF client_bi.hyps(2)] conn.steps_inv
    by (auto simp: client_serving_ok_def model_moves_def)
  with limits client_bi.prems client_bi.hyps(1) client_handle_bi_stream_streams [OF client_bi.hyps(2)]
  show ?case by (auto simp: client_serving_ok_def same_client_streams_def)
next
  case (client_datagram s before dg after sent now r c u)
  show ?case
    by (rule client_serving_ok_keeps [where dg = dg and before = before and after = after, OF client_datagram.prems(1) client_handle_datagram_streams [OF client_datagram.hyps(2)]
        model_moves_handlers(1) [OF client_datagram.hyps(2)]]) (use client_datagram.hyps(1) in simp_all)
next
  case (client_authenticates s)
  show ?case
    by (rule client_serving_ok_same [OF client_authenticates.prems(1) same_client_streams_sends(1) model_moves_timers(1)])
      simp_all
next
  case (client_beats s ends c)
  have "c = snd (client_conn_heartbeat B (cv_conn s))" using client_beats.hyps(2) by simp
  with same_client_streams_sends(5) model_moves_timers(2)
  show ?case by (intro client_serving_ok_same [OF client_beats.prems(1), of c]) simp_all
next
  case (client_collects s now lifetime ends c)
  have "c = snd (client_conn_collect_garbage now lifetime (cv_conn s))" using client_collects.hyps(2) by simp
  with same_client_streams_sends(6) model_moves_timers(3)
  show ?case by (intro client_serving_ok_same [OF client_collects.prems(1), of c]) simp_all
next
  case (client_other s c)
  show ?case
    by (rule client_serving_ok_same [OF client_other.prems(1) same_client_streams_other [OF client_other.hyps]
        model_moves_other [OF client_other.hyps]]) simp_all
next
  case (client_socks_udp s u)
  then show ?case by (simp add: client_serving_ok_def)
qed

lemma client_starts_ok:
  assumes "client_starts s"
  shows "client_serving_ok B s"
proof -
  have "\<exists>k\<le>31. unat (DEFAULT_CONCURRENT_STREAMS) = (2 :: nat) ^ k"
    by (intro exI [of _ 5]) (simp add: DEFAULT_CONCURRENT_STREAMS_def)
  with assms show ?thesis
    by (auto simp: client_starts_def client_init_def client_serving_ok_def client_conn_new_def limits_kept_def limit_ok_def
        intro: conn.inv_init)
qed

interpretation client_serving: invariant_system client_starts "client_bounded_step B" "client_serving_ok B" for B
proof unfold_locales
  show "client_serving_ok B s" if "client_starts s" for s
    using that by (rule client_starts_ok)
  show "client_serving_ok B s'" if "client_serving_ok B s" and "client_bounded_step B s s'" for s s'
    using that client_serving_step_ok [of B s s'] by (simp add: client_bounded_step_def)
qed

section \<open>How a handler can panic\<close>

text \<open>
  The panics that are left when a packet is handled: it is numbered beyond the buffer that waits for it, its number is the last of a byte
  and logged plus one, the table of the associations is not there yet, or its session has no peer to log.
\<close>

definition known_panic ::
    "('u, 'q, 'e, 's, 'r) client_lib \<Rightarrow> ('u, 'q) client_conn \<Rightarrow> socks_udp \<Rightarrow> packet_rx \<Rightarrow> panic \<Rightarrow> bool" where
  "known_panic B c u rx p \<longleftrightarrow>
     p = IndexOutOfBounds \<and> fragment_beyond (cl_model c) rx \<or>
     p = ArithmeticOverflow \<and> cb_logs_info B \<and> cb_overflow_checks B \<and> prx_frag_id rx = 255 \<or>
     p = UnwrapNone \<and> su_map u = None \<or>
     p = UnwrapErr \<and> (cb_logs_debug B \<or> cb_logs_warn B) \<and> (\<exists>sessions sid session. su_map u = Some sessions \<and>
       sessions (prx_assoc_id rx) = Some sid \<and> su_sessions u sid = Some session \<and> sk_peer session = None)"

lemma outcome_bind_eq_Panics: "outcome_bind m f = Panics p \<longleftrightarrow> m = Panics p \<or> (\<exists>a. m = Returns a \<and> f a = Panics p)"
  by (cases m) simp_all

lemma socks_session_send_panics:
  "socks_session_send logs_debug logs_warn sent pkt addr session = (Panics p, session') \<Longrightarrow>
    p = UnwrapErr \<and> (logs_debug \<or> logs_warn) \<and> sk_peer session = None"
  by (auto simp: socks_session_send_def split: if_splits sum.splits)

lemma client_handle_packet_panics:
  fixes B :: "('u, 'q, 'e, 's, 'r) client_lib"
  assumes "connection_ok (cl_model c)"
    and "source_has_size (cb_read B) rx src" and "client_handle_packet B sent now rx src (c, u) = (Panics p, c', u')"
  shows "known_panic B c u rx p"
proof -
  obtain r m where acc: "(packet_accept (cb_overflow_checks B) (cb_read B) now rx src (cl_model c) ::
      ('e, 's, 'r) receipt \<times> connection) = (r, m)" by (rule prod.exhaust)
  note outcome = packet_accept_outcome [OF assms(1,2) acc]
  show ?thesis
  proof (cases r)
    case (Panics p')
    with assms(3) acc outcome(1) [OF Panics] show ?thesis
      by (auto simp: client_handle_packet_def Let_def known_panic_def split: if_splits)
  next
    case (Returns res)
    with assms(3) acc outcome(2) show ?thesis
      by (auto simp: client_handle_packet_def Let_def known_panic_def outcome_bind_eq_Panics
          split: if_splits sum.splits option.splits address.splits prod.splits
          dest!: socks_session_send_panics)
  qed
qed

text \<open>What the client accepts: packets only.\<close>

lemma client_accepts_uni:
  "client_accept_uni_stream U rd recv c = Inr t \<Longrightarrow> \<exists>rx recv'. t = TaskPacket rx (SourceQuic recv')"
  by (auto simp: client_accept_uni_stream_def split: prod.splits sum.splits header.splits option.splits)

lemma client_refuses_bi: "\<exists>e. client_accept_bi_stream U rd send recv = Inl e"
  by (auto simp: client_accept_bi_stream_def split: prod.splits sum.splits header.splits)

lemma client_accepts_datagram:
  "(\<exists>e. client_accept_datagram U dg c = Returns (Inl e)) \<or>
    (\<exists>rx data. client_accept_datagram U dg c = Returns (Inr (TaskPacket rx (SourceNative data))) \<and>
      length data = unat (prx_size rx))"
  by (auto simp: client_accept_datagram_def bytes_slice_def Let_def split: prod.splits sum.splits header.splits option.splits)

section \<open>Properties\<close>

text \<open>
  C16: the server can always open another stream. In every state that the client's connection reaches, in whatever order its
  tasks and the SOCKS5 handlers run, with fewer than \<open>2 ^ 31\<close> handlers at a time, the two counters are the numbers of
  handlers that run, and once the loop has polled its branches the limits that quinn was told are above them; the check of
  the limits does not panic.
\<close>

theorem client_admits_streams:
  assumes "reachable client_starts (client_bounded_step B) s"
  shows "\<exists>c. client_init_polls B True True (cv_conn s) = (Returns (), c) \<and>
    cl_uni_stream_cnt c = length (filter client_is_uni (cv_running s)) \<and>
    cl_bi_stream_cnt c = length (filter client_is_bi (cv_running s)) \<and>
    cl_uni_stream_cnt c < unat (cl_quic_max_uni c) \<and> cl_bi_stream_cnt c < unat (cl_quic_max_bi c)"
proof -
  have ok: "client_serving_ok B s" using assms by (rule client_serving.reachable_inv)
  then have "limits_kept (cv_conn s)" by (simp add: client_serving_ok_def)
  from client_polls_room [OF this client_serving_ok_small [OF ok], of B True True] ok
  show ?thesis by (metis client_serving_ok_def)
qed

text \<open>
  C10: how a handler of the client can panic. In every state that the connection reaches, a handler of a stream or datagram
  of the server never meets a task it does not know, a completed packet without an address, a missing fragment or a packet
  of another size than announced. When it panics, then on a packet it accepted, in one of the four ways of \<open>known_panic\<close>; a
  bidirectional stream is always refused with an error.
\<close>

theorem client_handlers_panic_only:
  fixes B :: "('u, 'q, 'e, 's, 'r) client_lib"
  assumes "reachable client_starts (client_bounded_step B) s"
    and "\<forall>n recv data recv'. cb_read B n recv = (Inr data, recv') \<longrightarrow> length data = n"
  shows "(\<forall>p. fst (client_handle_uni_stream B sent now recv (cv_conn s, cv_socks s)) = Panics p \<longrightarrow>
      (\<exists>rx src. (client_accept_uni_stream (cb_uuid B) (cb_read B) recv (cl_model (cv_conn s)) ::
          ('e, 's, 'r) quinn_error + ('u, 's, 'r) task) = Inr (TaskPacket rx src) \<and>
        known_panic B (cv_conn s) (cv_socks s) rx p)) \<and>
    (\<forall>p. fst (client_handle_datagram B sent now dg (cv_conn s, cv_socks s)) = Panics p \<longrightarrow>
      (\<exists>rx src. (client_accept_datagram (cb_uuid B) dg (cl_model (cv_conn s)) ::
          (('e, 's, 'r) quinn_error + ('u, 's, 'r) task) outcome) = Returns (Inr (TaskPacket rx src)) \<and>
        known_panic B (cv_conn s) (cv_socks s) rx p)) \<and>
    (\<exists>e. fst (client_handle_bi_stream B send recv (cv_conn s)) = Returns (Inl e))"
proof -
  let ?uni = "client_accept_uni_stream (cb_uuid B) (cb_read B) recv (cl_model (cv_conn s)) ::
      ('e, 's, 'r) quinn_error + ('u, 's, 'r) task"
  let ?datagram = "client_accept_datagram (cb_uuid B) dg (cl_model (cv_conn s)) ::
      (('e, 's, 'r) quinn_error + ('u, 's, 'r) task) outcome"
  have model: "connection_ok (cl_model (cv_conn s))"
    using client_serving.reachable_inv [OF assms(1)] by (simp add: client_serving_ok_def)
  have panics: "known_panic B (cv_conn s) (cv_socks s) rx p"
    if "source_has_size (cb_read B) rx src" "client_handle_packet B sent now rx src (cv_conn s, cv_socks s) = (Panics p, c, u)"
    for rx src p c u using client_handle_packet_panics [OF model that] .
  have uni: "\<exists>rx src. ?uni = Inr (TaskPacket rx src) \<and> known_panic B (cv_conn s) (cv_socks s) rx p"
    if "fst (client_handle_uni_stream B sent now recv (cv_conn s, cv_socks s)) = Panics p" for p
  proof (cases ?uni)
    case (Inl e)
    with that show ?thesis by (simp add: client_handle_uni_stream_def)
  next
    case (Inr t)
    from client_accepts_uni [OF this] obtain rx recv' where t: "t = TaskPacket rx (SourceQuic recv')" by blast
    have "source_has_size (cb_read B) rx (SourceQuic recv')" using assms(2) by (simp add: source_has_size_def)
    from panics [OF this] that Inr t show ?thesis
      by (auto simp: client_handle_uni_stream_def outcome_bind_eq_Panics split: client_relay_mode.splits prod.splits)
  qed
  have datagram: "\<exists>rx src. ?datagram = Returns (Inr (TaskPacket rx src)) \<and> known_panic B (cv_conn s) (cv_socks s) rx p"
    if "fst (client_handle_datagram B sent now dg (cv_conn s, cv_socks s)) = Panics p" for p
  proof -
    consider (refused) e where "?datagram = Returns (Inl e)"
      | (packet) rx data where "?datagram = Returns (Inr (TaskPacket rx (SourceNative data)))"
        and "source_has_size (cb_read B) rx (SourceNative data)"
      using client_accepts_datagram [of "cb_uuid B" dg "cl_model (cv_conn s)"] unfolding source_has_size_def by auto
    then show ?thesis
    proof cases
      case refused
      with that show ?thesis by (simp add: client_handle_datagram_def)
    next
      case (packet rx data)
      from panics [OF packet(2)] that packet(1) show ?thesis
        by (auto simp: client_handle_datagram_def outcome_bind_eq_Panics split: client_relay_mode.splits prod.splits)
    qed
  qed
  obtain e where "(client_accept_bi_stream (cb_uuid B) (cb_read B) send recv ::
      ('e, 's, 'r) quinn_error + ('u, 's, 'r) task) = Inl e"
    by (rule exE [OF client_refuses_bi])
  then have bi: "fst (client_handle_bi_stream B send recv (cv_conn s)) = Returns (Inl (ClientModel e))"
    by (simp add: client_handle_bi_stream_def)
  with uni datagram show ?thesis by blast
qed

section \<open>A concrete client with a stream\<close>

definition demo_reading :: "(bytes, bytes list, string, nat, recv_stream) client_lib" where
  "demo_reading = \<lparr>cb_overflow_checks = True, cb_logs_info = False, cb_logs_debug = False, cb_logs_warn = False,
     cb_uuid = bytes_uuid_lib, cb_quic = stream_net, cb_read = stream_read_exact, cb_is_jls = (\<lambda>_. Some True)\<rparr>"

definition demo_socks :: socks_udp where
  "demo_socks = \<lparr>su_map = Some Map.empty, su_sessions = Map.empty, su_next = 0\<rparr>"

definition demo_client_serving :: "(bytes, bytes list, nat, recv_stream) client_serving" where
  "demo_client_serving = (client_init [] RelayQuic (replicate 16 1) [7] demo_socks)
     \<lparr>cv_conn := (client_conn_new [] RelayQuic (replicate 16 1) [7])\<lparr>cl_uni_stream_cnt := 1\<rparr>,
      cv_running := [ClientUni \<lparr>stream_chunks = [[5]], stream_end = UnexpectedEof\<rparr>]\<rparr>"

lemma demo_client_serving_reachable: "reachable client_starts (client_bounded_step demo_reading) demo_client_serving"
proof -
  let ?recv = "\<lparr>stream_chunks = [[5]], stream_end = UnexpectedEof\<rparr> :: recv_stream"
  let ?start = "client_init [] RelayQuic (replicate 16 1) [7] demo_socks :: (bytes, bytes list, nat, recv_stream) client_serving"
  have "client_init_turn demo_reading False False (ReadyUni (Inr ?recv)) (cv_conn ?start) =
      (Returns (Inr (ClientUni ?recv)) :: ((string, nat, recv_stream) quinn_error client_error + _) outcome,
       (client_conn_new [] RelayQuic (replicate 16 1) [7])\<lparr>cl_uni_stream_cnt := 1\<rparr>)"
    by (simp add: client_init_turn_def client_init_polls_def client_accept_uni_def client_grow_uni_def client_init_def
        client_conn_new_def DEFAULT_CONCURRENT_STREAMS_def)
  from client_spawns [OF _ this] have "client_bounded_step demo_reading ?start demo_client_serving"
    by (simp add: client_bounded_step_def demo_client_serving_def client_init_def)
  moreover have "reachable client_starts (client_bounded_step demo_reading) ?start"
    by (rule reachable_init) (unfold client_starts_def, intro exI, rule refl)
  ultimately show ?thesis by (rule reachable_step [rotated])
qed

theorem client_admits_streams_witness:
  "\<exists>c. client_init_polls demo_reading True True (cv_conn demo_client_serving) = (Returns (), c) \<and>
    cl_uni_stream_cnt c = 1 \<and> 1 < unat (cl_quic_max_uni c)"
  using client_admits_streams [OF demo_client_serving_reachable] by (auto simp: demo_client_serving_def)

theorem client_handlers_panic_only_witness:
  "\<not> (\<exists>p. fst (client_handle_uni_stream demo_reading (Inr ()) 0 \<lparr>stream_chunks = [[5]], stream_end = UnexpectedEof\<rparr>
    (cv_conn demo_client_serving, cv_socks demo_client_serving)) = Panics p)"
proof -
  have reads: "\<forall>n recv data recv'. cb_read demo_reading n recv = (Inr data, recv') \<longrightarrow> length data = n"
    using stream_read_exact_length by (simp add: demo_reading_def)
  have none: "\<not> known_panic demo_reading (cv_conn demo_client_serving) (cv_socks demo_client_serving) rx p" for rx p
    by (simp add: known_panic_def fragment_beyond_def demo_reading_def demo_client_serving_def demo_socks_def client_init_def client_conn_new_def
        connection_new_def udp_sessions_new_def buffer_at_def)
  show ?thesis
    using client_handlers_panic_only [OF demo_client_serving_reachable reads, of "Inr ()" 0] none by blast
qed

end
