(* ===== verification/Config_Args.thy ===== *)
theory Config_Args
  imports Tuic_Wire
begin

text \<open>
  The command lines: the argument loops of \<open>Config::parse\<close> in \<^verbatim>\<open>tuic-client/src/config.rs\<close> and of
  \<open>parse_config\<close> in \<^verbatim>\<open>tuic-server/src/config.rs\<close>, and the exit codes of the two \<open>main\<close> functions. The
  parser is the crate lexopt, a parameter.
\<close>

section \<open>The parser\<close>

datatype arg = ArgShort char | ArgLong string | ArgValue string

record ('p, 'e) lexopt =
  lx_next :: "'p \<Rightarrow> ('e + arg option) \<times> 'p"
  lx_value :: "'p \<Rightarrow> ('e + string) \<times> 'p"
  lx_unexpected :: "arg \<Rightarrow> 'e"

datatype 'e config_error =
    ArgumentError 'e
  | NoConfig
  | VersionShown
  | HelpShown
  | ConfigIo io_error
  | ConfigSerde

definition is_option :: "char \<Rightarrow> string \<Rightarrow> arg \<Rightarrow> bool" where
  "is_option short long arg \<longleftrightarrow> arg = ArgShort short \<or> arg = ArgLong long"

section \<open>The loops\<close>

text \<open>\<open>None\<close> is a loop that does not end; otherwise the error that returns from it, or the path when it ends.\<close>

partial_function (option) client_args ::
    "('p, 'e) lexopt \<Rightarrow> string option \<Rightarrow> 'p \<Rightarrow> ('e config_error + string option) option" where
  "client_args L path parser = (case lx_next L parser of
     (Inl e, _) \<Rightarrow> Some (Inl (ArgumentError e))
   | (Inr None, _) \<Rightarrow> Some (Inr path)
   | (Inr (Some arg), parser) \<Rightarrow>
       if is_option (CHR ''c'') ''config'' arg then
         (if path = None then (case lx_value L parser of
              (Inl e, _) \<Rightarrow> Some (Inl (ArgumentError e))
            | (Inr v, parser) \<Rightarrow> client_args L (Some v) parser)
          else Some (Inl (ArgumentError (lx_unexpected L arg))))
       else if is_option (CHR ''v'') ''version'' arg then Some (Inl VersionShown)
       else if is_option (CHR ''h'') ''help'' arg then Some (Inl HelpShown)
       else Some (Inl (ArgumentError (lx_unexpected L arg))))"

text \<open>\<open>written\<close> is the result of writing the example configuration.\<close>

partial_function (option) server_args ::
    "('p, 'e) lexopt \<Rightarrow> io_error + unit \<Rightarrow> string option \<Rightarrow> 'p \<Rightarrow> ('e config_error + string option) option" where
  "server_args L written path parser = (case lx_next L parser of
     (Inl e, _) \<Rightarrow> Some (Inl (ArgumentError e))
   | (Inr None, _) \<Rightarrow> Some (Inr path)
   | (Inr (Some arg), parser) \<Rightarrow>
       if is_option (CHR ''c'') ''config'' arg then
         (if path = None then (case lx_value L parser of
              (Inl e, _) \<Rightarrow> Some (Inl (ArgumentError e))
            | (Inr v, parser) \<Rightarrow> server_args L written (Some v) parser)
          else Some (Inl (ArgumentError (lx_unexpected L arg))))
       else if is_option (CHR ''v'') ''version'' arg then Some (Inl VersionShown)
       else if is_option (CHR ''h'') ''help'' arg then Some (Inl HelpShown)
       else if is_option (CHR ''i'') ''init'' arg then
         (case written of Inl e \<Rightarrow> Some (Inl (ConfigIo e)) | Inr _ \<Rightarrow> Some (Inl HelpShown))
       else Some (Inl (ArgumentError (lx_unexpected L arg))))"

definition exit_code :: "'e config_error \<Rightarrow> nat" where
  "exit_code err = (case err of VersionShown \<Rightarrow> 0 | HelpShown \<Rightarrow> 0 | _ \<Rightarrow> 1)"

text \<open>What a \<open>main\<close> function does with the rest: it exits with a code, or runs.\<close>

datatype 'a main_result = Exits nat | Runs 'a

section \<open>Properties\<close>

text \<open>A parser that consumes: after an argument there is less left, after a value no more.\<close>

definition consumes :: "('p, 'e) lexopt \<Rightarrow> ('p \<Rightarrow> nat) \<Rightarrow> bool" where
  "consumes L left \<longleftrightarrow> (\<forall>p a p'. lx_next L p = (Inr (Some a), p') \<longrightarrow> left p' < left p) \<and>
     (\<forall>p v p'. lx_value L p = (Inr v, p') \<longrightarrow> left p' \<le> left p)"

text \<open>The text of a command line as a parser: short options one by one, each with the next text as its value.\<close>

fun tokens_next :: "string list \<Rightarrow> (string + arg option) \<times> string list" where
  "tokens_next [] = (Inr None, [])"
| "tokens_next ([a, c] # ts) = (if a = CHR ''-'' then (Inr (Some (ArgShort c)), ts) else (Inr (Some (ArgValue [a, c])), ts))"
| "tokens_next (t # ts) = (if take 2 t = ''--'' then (Inr (Some (ArgLong (drop 2 t))), ts) else (Inr (Some (ArgValue t)), ts))"

fun tokens_value :: "string list \<Rightarrow> (string + string) \<times> string list" where
  "tokens_value [] = (Inl ''missing value'', [])"
| "tokens_value (t # ts) = (Inr t, ts)"

definition tokens :: "(string list, string) lexopt" where
  "tokens = \<lparr>lx_next = tokens_next, lx_value = tokens_value, lx_unexpected = (\<lambda>_. ''unexpected'')\<rparr>"

lemma tokens_consumes: "consumes tokens length"
proof -
  have "length p' < length p" if "tokens_next p = (Inr (Some a), p')" for p a p'
    using that by (cases p rule: tokens_next.cases) (auto split: if_splits)
  moreover have "length p' \<le> length p" if "tokens_value p = (Inr v, p')" for p v p'
    using that by (cases p) auto
  ultimately show ?thesis unfolding consumes_def tokens_def by simp
qed

lemma argument_loops_return:
  assumes "consumes L left"
  shows "client_args L path p \<noteq> None \<and> server_args L written path p \<noteq> None"
proof (induction "left p" arbitrary: p path rule: less_induct)
  case less
  note next_less = assms [unfolded consumes_def, THEN conjunct1, rule_format]
    and value_le = assms [unfolded consumes_def, THEN conjunct2, rule_format]
  have later: "client_args L path' p2 \<noteq> None \<and> server_args L written path' p2 \<noteq> None"
    if "lx_next L p = (Inr (Some a), p1)" "lx_value L p1 = (Inr v, p2)" for path' a v p1 p2
    using less [of p2 path'] next_less [OF that(1)] value_le [OF that(2)] by linarith
  show ?case
    by (subst client_args.simps, subst server_args.simps)
      (auto split: prod.splits sum.splits option.splits dest: later)
qed

lemma with_path_nothing_follows:
  "client_args L (Some x) p = Some (Inr r) \<longleftrightarrow> r = Some x \<and> (\<exists>p'. lx_next L p = (Inr None, p'))"
  "server_args L written (Some x) p = Some (Inr r) \<longleftrightarrow> r = Some x \<and> (\<exists>p'. lx_next L p = (Inr None, p'))"
proof -
  show "client_args L (Some x) p = Some (Inr r) \<longleftrightarrow> r = Some x \<and> (\<exists>p'. lx_next L p = (Inr None, p'))"
    by (subst client_args.simps) (auto split: prod.splits sum.splits option.splits)
  show "server_args L written (Some x) p = Some (Inr r) \<longleftrightarrow> r = Some x \<and> (\<exists>p'. lx_next L p = (Inr None, p'))"
    by (subst server_args.simps) (auto split: prod.splits sum.splits option.splits)
qed

text \<open>
  The argument loops end. With a parser that consumes what it hands out, both loops return, with an
  error or a path. They return no path when the command line is empty, and a path when it is one
  \<open>--config\<close> or \<open>-c\<close> with its value and nothing else; everything else is an error.
\<close>

theorem argument_loops_end:
  assumes "consumes L left"
  defines "one_option r p \<equiv> (\<exists>p' a p1 p2. if r = None then lx_next L p = (Inr None, p')
    else lx_next L p = (Inr (Some a), p1) \<and> is_option (CHR ''c'') ''config'' a \<and>
      lx_value L p1 = (Inr (the r), p2) \<and> lx_next L p2 = (Inr None, p'))"
  shows "client_args L path p \<noteq> None \<and> server_args L written path p \<noteq> None \<and>
    (client_args L None p = Some (Inr r) \<longleftrightarrow> one_option r p) \<and>
    (server_args L written None p = Some (Inr r) \<longleftrightarrow> one_option r p)"
proof (intro conjI)
  show "client_args L path p \<noteq> None" "server_args L written path p \<noteq> None"
    using argument_loops_return [OF assms(1)] by blast+
  show "client_args L None p = Some (Inr r) \<longleftrightarrow> one_option r p"
    by (subst client_args.simps)
      (auto simp: one_option_def with_path_nothing_follows split: prod.splits sum.splits option.splits)
  show "server_args L written None p = Some (Inr r) \<longleftrightarrow> one_option r p"
    by (subst server_args.simps)
      (auto simp: one_option_def with_path_nothing_follows split: prod.splits sum.splits option.splits)
qed

theorem argument_loops_end_witness:
  "client_args tokens None [''-c'', ''client.json''] = Some (Inr (Some ''client.json'')) \<and>
   server_args tokens (Inr ()) None [''-c'', ''a'', ''-c'', ''b''] \<noteq> Some (Inr (Some ''a''))"
proof -
  note loops = argument_loops_end [OF tokens_consumes, THEN conjunct2, THEN conjunct2]
  show ?thesis
    using loops [of _ "Some ''client.json''"] loops [of _ "Some ''a''"]
    by (simp add: tokens_def is_option_def)
qed

end
