(* ===== verification/Config_Server.thy ===== *)
theory Config_Server
  imports Server_Conn Config_Text Config_Args
begin

text \<open>
  The server's configuration and start: \<^verbatim>\<open>tuic-server/src/config.rs\<close>, \<^verbatim>\<open>old_config.rs\<close>, \<^verbatim>\<open>server.rs\<close> and
  \<^verbatim>\<open>main.rs\<close>. Reading TOML and JSON, durations, certificates, sockets and TLS are library code. A
  path is a text.
\<close>

section \<open>The configuration\<close>

datatype log_level = Trace | Debug | Info | Warn | Error | Off

record tls_config =
  tls_self_sign :: bool
  tls_certificate :: string
  tls_private_key :: string
  tls_alpn :: "bytes list"
  tls_jls_pwd :: bytes
  tls_jls_iv :: bytes
  tls_jls_upstream :: bytes

record congestion_config =
  cc_controller :: congestion_controller
  cc_initial_window :: u64

record quic_config =
  qu_congestion_control :: congestion_config
  qu_initial_mtu :: u16
  qu_min_mtu :: u16
  qu_gso :: bool
  qu_pmtu :: bool
  qu_send_window :: u64
  qu_receive_window :: u32
  qu_max_idle_time :: nat

record restful_settings =
  rs_addr :: socket_addr
  rs_secret :: string
  rs_maximum_clients_per_user :: u64

record 'u server_config =
  sf_log_level :: log_level
  sf_server :: socket_addr
  sf_users :: "'u \<Rightarrow> bytes option"
  sf_tls :: tls_config
  sf_persistent_data :: string
  sf_restful :: "restful_settings option"
  sf_quic :: quic_config
  sf_udp_relay_ipv6 :: bool
  sf_zero_rtt_handshake :: bool
  sf_dual_stack :: bool
  sf_auth_timeout :: nat
  sf_task_negotiation_timeout :: nat
  sf_gc_interval :: nat
  sf_gc_lifetime :: nat
  sf_max_external_packet_size :: nat
  sf_stream_timeout :: nat

text \<open>The \<open>Default\<close> implementations.\<close>

definition tls_default :: tls_config where
  "tls_default = \<lparr>tls_self_sign = False, tls_certificate = [], tls_private_key = [], tls_alpn = [],
     tls_jls_pwd = [], tls_jls_iv = [], tls_jls_upstream = []\<rparr>"

definition congestion_default :: congestion_config where
  "congestion_default = \<lparr>cc_controller = Bbr, cc_initial_window = 1048576\<rparr>"

definition quic_default :: quic_config where
  "quic_default = \<lparr>qu_congestion_control = congestion_default, qu_initial_mtu = 1200, qu_min_mtu = 1200,
     qu_gso = True, qu_pmtu = True, qu_send_window = 16777216, qu_receive_window = 8388608,
     qu_max_idle_time = from_millis 10000\<rparr>"

definition restful_default :: restful_settings where
  "restful_default = \<lparr>rs_addr = SocketV4 (Ipv4 127 0 0 1) 8443, rs_secret = ''YOUR_SECRET_HERE'',
     rs_maximum_clients_per_user = 0\<rparr>"

definition server_default :: "'u server_config" where
  "server_default = \<lparr>sf_log_level = Info, sf_server = SocketV6 (Ipv6 0 0 0 0 0 0 0 0) 443 0 0,
     sf_users = Map.empty, sf_tls = tls_default, sf_persistent_data = ''./data.toml'', sf_restful = None,
     sf_quic = quic_default, sf_udp_relay_ipv6 = True, sf_zero_rtt_handshake = False, sf_dual_stack = True,
     sf_auth_timeout = from_millis 3000, sf_task_negotiation_timeout = from_millis 3000,
     sf_gc_interval = from_millis 3000, sf_gc_lifetime = from_millis 15000, sf_max_external_packet_size = 1500,
     sf_stream_timeout = from_millis 60000\<rparr>"

definition full_example :: "'u \<Rightarrow> 'u server_config" where
  "full_example new_v4 = server_default\<lparr>sf_users := [new_v4 \<mapsto> ascii ''YOUR_USER_PASSWD_HERE''],
     sf_restful := Some restful_default\<rparr>"

section \<open>The old format\<close>

text \<open>The fields of the JSON file as serde hands them out, \<open>None\<close> when absent, and the structure.\<close>

record 'u raw_old_config =
  or_server :: "socket_addr option"
  or_users :: "('u \<Rightarrow> bytes option) option"
  or_self_sign :: "bool option"
  or_certificate :: "string option"
  or_private_key :: "string option"
  or_congestion_control :: "bytes option"
  or_alpn :: "bytes list option"
  or_udp_relay_ipv6 :: "bool option"
  or_zero_rtt_handshake :: "bool option"
  or_dual_stack :: "bool option"
  or_auth_timeout :: "bytes option"
  or_task_negotiation_timeout :: "bytes option"
  or_max_idle_time :: "bytes option"
  or_max_external_packet_size :: "nat option"
  or_initial_window :: "u64 option"
  or_send_window :: "u64 option"
  or_receive_window :: "u32 option"
  or_initial_mtu :: "u16 option"
  or_min_mtu :: "u16 option"
  or_gso :: "bool option"
  or_pmtu :: "bool option"
  or_log_level :: "log_level option"
  or_gc_interval :: "bytes option"
  or_gc_lifetime :: "bytes option"
  or_restful_server :: "socket_addr option"
  or_jls_pwd :: "bytes option"
  or_jls_iv :: "bytes option"
  or_jls_upstream :: "bytes option"

record 'u old_config =
  ol_server :: socket_addr
  ol_users :: "'u \<Rightarrow> bytes option"
  ol_self_sign :: bool
  ol_certificate :: string
  ol_private_key :: string
  ol_congestion_control :: congestion_controller
  ol_alpn :: "bytes list"
  ol_udp_relay_ipv6 :: bool
  ol_zero_rtt_handshake :: bool
  ol_dual_stack :: "bool option"
  ol_auth_timeout :: nat
  ol_task_negotiation_timeout :: nat
  ol_max_idle_time :: nat
  ol_max_external_packet_size :: nat
  ol_initial_window :: "u64 option"
  ol_send_window :: u64
  ol_receive_window :: u32
  ol_initial_mtu :: u16
  ol_min_mtu :: u16
  ol_gso :: bool
  ol_pmtu :: bool
  ol_log_level :: "log_level option"
  ol_gc_interval :: nat
  ol_gc_lifetime :: nat
  ol_restful_server :: "socket_addr option"
  ol_jls_pwd :: bytes
  ol_jls_iv :: bytes
  ol_jls_upstream :: bytes

text \<open>The default functions, around the fields that have none.\<close>

definition old_defaults ::
    "socket_addr \<Rightarrow> ('u \<Rightarrow> bytes option) \<Rightarrow> bytes \<Rightarrow> bytes \<Rightarrow> bytes \<Rightarrow> 'u old_config" where
  "old_defaults server users jls_pwd jls_iv jls_upstream =
     \<lparr>ol_server = server, ol_users = users, ol_self_sign = False, ol_certificate = [], ol_private_key = [],
      ol_congestion_control = Cubic, ol_alpn = [], ol_udp_relay_ipv6 = True, ol_zero_rtt_handshake = False,
      ol_dual_stack = None, ol_auth_timeout = from_secs 3, ol_task_negotiation_timeout = from_secs 3,
      ol_max_idle_time = from_secs 10, ol_max_external_packet_size = 1500, ol_initial_window = None,
      ol_send_window = 8 * 1024 * 1024 * 2, ol_receive_window = 8 * 1024 * 1024, ol_initial_mtu = 1200,
      ol_min_mtu = 1200, ol_gso = True, ol_pmtu = True, ol_log_level = None, ol_gc_interval = from_secs 3,
      ol_gc_lifetime = from_secs 15, ol_restful_server = None, ol_jls_pwd = jls_pwd, ol_jls_iv = jls_iv,
      ol_jls_upstream = jls_upstream\<rparr>"

definition old_config_of_raw :: "(bytes \<Rightarrow> string + nat) \<Rightarrow> 'u raw_old_config \<Rightarrow> 'u old_config option" where
  "old_config_of_raw H r =
     Option.bind (or_server r) (\<lambda>server.
     Option.bind (or_users r) (\<lambda>users.
     Option.bind (or_jls_pwd r) (\<lambda>jls_pwd.
     Option.bind (or_jls_iv r) (\<lambda>jls_iv.
     Option.bind (or_jls_upstream r) (\<lambda>jls_upstream.
     let d = old_defaults server users jls_pwd jls_iv jls_upstream in
     Option.bind (parsed_or (ol_congestion_control d) congestion_from_str (or_congestion_control r)) (\<lambda>congestion_control.
     Option.bind (parsed_or (ol_auth_timeout d) H (or_auth_timeout r)) (\<lambda>auth_timeout.
     Option.bind (parsed_or (ol_task_negotiation_timeout d) H (or_task_negotiation_timeout r)) (\<lambda>task_negotiation_timeout.
     Option.bind (parsed_or (ol_max_idle_time d) H (or_max_idle_time r)) (\<lambda>max_idle_time.
     Option.bind (parsed_or (ol_gc_interval d) H (or_gc_interval r)) (\<lambda>gc_interval.
     Option.bind (parsed_or (ol_gc_lifetime d) H (or_gc_lifetime r)) (\<lambda>gc_lifetime.
     Some (d\<lparr>ol_self_sign := or_default (ol_self_sign d) (or_self_sign r),
       ol_certificate := or_default (ol_certificate d) (or_certificate r),
       ol_private_key := or_default (ol_private_key d) (or_private_key r),
       ol_congestion_control := congestion_control, ol_alpn := or_default (ol_alpn d) (or_alpn r),
       ol_udp_relay_ipv6 := or_default (ol_udp_relay_ipv6 d) (or_udp_relay_ipv6 r),
       ol_zero_rtt_handshake := or_default (ol_zero_rtt_handshake d) (or_zero_rtt_handshake r),
       ol_dual_stack := or_dual_stack r,
       ol_auth_timeout := auth_timeout, ol_task_negotiation_timeout := task_negotiation_timeout,
       ol_max_idle_time := max_idle_time,
       ol_max_external_packet_size := or_default (ol_max_external_packet_size d) (or_max_external_packet_size r),
       ol_initial_window := (case or_initial_window r of None \<Rightarrow> ol_initial_window d | Some n \<Rightarrow> Some n),
       ol_send_window := or_default (ol_send_window d) (or_send_window r),
       ol_receive_window := or_default (ol_receive_window d) (or_receive_window r),
       ol_initial_mtu := or_default (ol_initial_mtu d) (or_initial_mtu r),
       ol_min_mtu := or_default (ol_min_mtu d) (or_min_mtu r),
       ol_gso := or_default (ol_gso d) (or_gso r), ol_pmtu := or_default (ol_pmtu d) (or_pmtu r),
       ol_log_level := or_log_level r, ol_gc_interval := gc_interval, ol_gc_lifetime := gc_lifetime,
       ol_restful_server := or_restful_server r\<rparr>))))))))))))"

definition config_from :: "'u old_config \<Rightarrow> 'u server_config" where
  "config_from value = server_default
     \<lparr>sf_server := ol_server value, sf_users := ol_users value,
      sf_tls := \<lparr>tls_self_sign = ol_self_sign value, tls_certificate = ol_certificate value,
        tls_private_key = ol_private_key value, tls_alpn = ol_alpn value, tls_jls_pwd = ol_jls_pwd value,
        tls_jls_iv = ol_jls_iv value, tls_jls_upstream = ol_jls_upstream value\<rparr>,
      sf_udp_relay_ipv6 := ol_udp_relay_ipv6 value, sf_zero_rtt_handshake := ol_zero_rtt_handshake value,
      sf_dual_stack := or_default True (ol_dual_stack value), sf_auth_timeout := ol_auth_timeout value,
      sf_task_negotiation_timeout := ol_task_negotiation_timeout value, sf_gc_interval := ol_gc_interval value,
      sf_gc_lifetime := ol_gc_lifetime value, sf_max_external_packet_size := ol_max_external_packet_size value,
      sf_restful := (case ol_restful_server value of Some addr \<Rightarrow> Some (restful_default\<lparr>rs_addr := addr\<rparr>) | None \<Rightarrow> None),
      sf_log_level := or_default Info (ol_log_level value),
      sf_quic := \<lparr>qu_congestion_control = \<lparr>cc_controller = ol_congestion_control value,
          cc_initial_window = or_default 1048576 (ol_initial_window value)\<rparr>,
        qu_initial_mtu = ol_initial_mtu value, qu_min_mtu = ol_min_mtu value, qu_gso = ol_gso value,
        qu_pmtu = ol_pmtu value, qu_send_window = ol_send_window value, qu_receive_window = ol_receive_window value,
        qu_max_idle_time = ol_max_idle_time value\<rparr>\<rparr>"

section \<open>Reading it\<close>

text \<open>
  \<open>parse_config\<close>: the format is chosen by the file's name or a variable of the environment. \<open>extract\<close>
  reads a TOML file over the defaults, and an error of it panics; \<open>load\<close> reads the JSON of the other
  format.
\<close>

definition ends_with :: "string \<Rightarrow> string \<Rightarrow> bool" where
  "ends_with suffix s \<longleftrightarrow> length suffix \<le> length s \<and> drop (length s - length suffix) s = suffix"

definition parse_config ::
    "('p, 'e) lexopt \<Rightarrow> io_error + unit \<Rightarrow> bool \<Rightarrow> (string \<Rightarrow> 'u server_config \<Rightarrow> 'u server_config option) \<Rightarrow>
      (string \<Rightarrow> io_error + 'u raw_old_config option) \<Rightarrow> (bytes \<Rightarrow> string + nat) \<Rightarrow> 'p \<Rightarrow>
      ('e config_error + 'u server_config) outcome option" where
  "parse_config L written force_toml extract load H args = map_option (\<lambda>r.
     case r of
       Inl e \<Rightarrow> Returns (Inl e)
     | Inr None \<Rightarrow> Returns (Inl NoConfig)
     | Inr (Some path) \<Rightarrow>
         if ends_with ''.toml'' path \<or> force_toml
         then (case extract path server_default of Some cfg \<Rightarrow> Returns (Inr cfg) | None \<Rightarrow> Panics UnwrapErr)
         else Returns (try_bind (map_err ConfigIo (load path)) (\<lambda>raw.
           case Option.bind raw (old_config_of_raw H) of
             None \<Rightarrow> Inl ConfigSerde | Some old \<Rightarrow> Inr (config_from old))))
     (server_args L written None args)"

section \<open>The server's socket, transport and TLS\<close>

record 'c server_crypto =
  sy_cert :: 'c
  sy_alpn_protocols :: "bytes list"
  sy_max_early_data_size :: u32
  sy_send_half_rtt_data :: bool
  sy_jls :: "bytes \<times> bytes \<times> bytes"

datatype socket_call = SetOnlyV6 bool | BindTo socket_addr

text \<open>
  The library calls of \<open>init\<close>: making a self-signed certificate, resolving the configured one, checking
  the cipher suites and the idle timeout, and the calls on the socket.
\<close>

record 'c server_setup =
  su_self_signed :: "string + 'c"
  su_resolver :: "string \<Rightarrow> string \<Rightarrow> string + 'c"
  su_cipher_suite :: "'c server_crypto \<Rightarrow> string + unit"
  su_transport_default :: transport
  su_idle_timeout :: "nat \<Rightarrow> bool"
  su_socket_new :: "bool \<Rightarrow> io_error + unit"
  su_socket_call :: "socket_call \<Rightarrow> io_error + unit"
  su_endpoint :: "io_error + unit"

definition server_crypto_of :: "'c \<Rightarrow> 'u server_config \<Rightarrow> 'c server_crypto" where
  "server_crypto_of cert cfg =
     \<lparr>sy_cert = cert, sy_alpn_protocols = tls_alpn (sf_tls cfg), sy_max_early_data_size = - 1,
      sy_send_half_rtt_data = sf_zero_rtt_handshake cfg,
      sy_jls = (tls_jls_pwd (sf_tls cfg), tls_jls_iv (sf_tls cfg), tls_jls_upstream (sf_tls cfg))\<rparr>"

definition server_transport :: "transport \<Rightarrow> quic_config \<Rightarrow> transport" where
  "server_transport d q = d
     \<lparr>tp_max_concurrent_bidi_streams := INIT_CONCURRENT_STREAMS,
      tp_max_concurrent_uni_streams := INIT_CONCURRENT_STREAMS, tp_send_window := qu_send_window q,
      tp_stream_receive_window := qu_receive_window q, tp_max_idle_timeout := Some (qu_max_idle_time q),
      tp_initial_mtu := qu_initial_mtu q, tp_min_mtu := qu_min_mtu q, tp_segmentation_offload := qu_gso q,
      tp_mtu_discovery := qu_pmtu q,
      tp_congestion := (cc_controller (qu_congestion_control q), Some (cc_initial_window (qu_congestion_control q)))\<rparr>"

text \<open>\<open>Server::init\<close>: what the endpoint is made of, and the calls that were made on its socket.\<close>

definition server_init ::
    "'c server_setup \<Rightarrow> 'u server_config \<Rightarrow>
      ('u, 'm) server_error + 'c server_crypto \<times> transport \<times> socket_call list" where
  "server_init S cfg =
     try_bind (if tls_self_sign (sf_tls cfg) then map_err ServerRustls (su_self_signed S)
       else map_err ServerOther (su_resolver S (tls_certificate (sf_tls cfg)) (tls_private_key (sf_tls cfg)))) (\<lambda>cert.
     let crypto = server_crypto_of cert cfg in
     try_bind (map_err ServerOther (su_cipher_suite S crypto)) (\<lambda>_.
     if \<not> su_idle_timeout S (qu_max_idle_time (sf_quic cfg)) then Inl InvalidMaxIdleTime
     else (let transport = server_transport (su_transport_default S) (sf_quic cfg) in
     try_bind (map_err (\<lambda>_. ServerOther ''failed to create endpoint UDP socket'')
       (su_socket_new S (case sf_server cfg of SocketV4 _ _ \<Rightarrow> False | SocketV6 _ _ _ _ \<Rightarrow> True))) (\<lambda>_.
     try_bind (if sf_dual_stack cfg
       then map_err (SocketError ''endpoint dual-stack socket setting error'')
         (try_bind (su_socket_call S (SetOnlyV6 (\<not> sf_dual_stack cfg))) (\<lambda>_. Inr [SetOnlyV6 (\<not> sf_dual_stack cfg)]))
       else Inr []) (\<lambda>calls.
     try_bind (map_err (\<lambda>_. ServerOther ''failed to bind endpoint UDP socket'')
       (su_socket_call S (BindTo (sf_server cfg)))) (\<lambda>_.
     try_bind (map_err ServerIo (su_endpoint S)) (\<lambda>_.
     Inr (crypto, transport, calls @ [BindTo (sf_server cfg)]))))))))"

text \<open>One turn of the accept loop of \<open>start\<close>, on what the endpoint's \<open>accept\<close> and the connection's gave.\<close>

datatype 'c accept_turn = HandleConnection 'c | NotAccepted | EndpointClosed

definition server_accept_turn :: "('e + 'c) option \<Rightarrow> 'c accept_turn" where
  "server_accept_turn got = (case got of
     Some (Inr conn) \<Rightarrow> HandleConnection conn | Some (Inl _) \<Rightarrow> NotAccepted | None \<Rightarrow> EndpointClosed)"

text \<open>
  The start of \<open>Connection::handle\<close>: the handshake, with the calls \<open>into_0rtt\<close> (\<open>None\<close>: it hands the
  connection back) and awaiting it. The event loop that follows is \<open>handle_incoming\<close>.
\<close>

definition server_establish ::
    "bool \<Rightarrow> ('k \<Rightarrow> 'q option) \<Rightarrow> ('k \<Rightarrow> connection_error + 'q) \<Rightarrow> 'u \<Rightarrow> 'u restful \<Rightarrow> 'k \<Rightarrow>
      ('u, 'm) server_error + ('u, 'q, 'm) server_conn" where
  "server_establish zero_rtt_handshake into_0rtt handshake nil rest conn =
     try_bind (if zero_rtt_handshake
       then (case into_0rtt conn of Some conn \<Rightarrow> Inr conn | None \<Rightarrow> map_err server_error_from (handshake conn))
       else map_err server_error_from (handshake conn)) (\<lambda>conn. Inr (server_conn_new nil conn rest))"

text \<open>
  \<open>main\<close>, up to the running server: the endpoint and, when it is configured, the RESTful interface, whose
  tables start with the users. \<open>logs\<close>: the log subscriber could be set.
\<close>

definition server_main ::
    "bool \<Rightarrow> 'c server_setup \<Rightarrow> ('e config_error + 'u server_config) outcome \<Rightarrow>
      (('c server_crypto \<times> transport \<times> socket_call list) \<times> 'u restful option) main_result outcome" where
  "server_main logs S arguments = outcome_bind arguments (\<lambda>cfg. case cfg of
     Inl err \<Rightarrow> Returns (Exits (exit_code err))
   | Inr cfg \<Rightarrow>
       if \<not> logs then Returns (Exits 1)
       else (case (server_init S cfg :: ('u, unit) server_error + _) of
         Inl _ \<Rightarrow> Returns (Exits 1)
       | Inr ep \<Rightarrow> Returns (Runs (ep, map_option (\<lambda>_. restful_start (sf_users cfg)) (sf_restful cfg)))))"

text \<open>What the RESTful interface reads of the configuration.\<close>

definition restful_of :: "restful_settings \<Rightarrow> restful_config" where
  "restful_of r = \<lparr>rf_secret = rs_secret r, rf_maximum_clients_per_user = rs_maximum_clients_per_user r\<rparr>"

section \<open>Properties\<close>

definition minimal_old :: "socket_addr \<Rightarrow> ('u \<Rightarrow> bytes option) \<Rightarrow> bytes \<Rightarrow> bytes \<Rightarrow> bytes \<Rightarrow> 'u raw_old_config" where
  "minimal_old server users pwd iv upstream = \<lparr>or_server = Some server, or_users = Some users, or_self_sign = None,
     or_certificate = None, or_private_key = None, or_congestion_control = None, or_alpn = None,
     or_udp_relay_ipv6 = None, or_zero_rtt_handshake = None, or_dual_stack = None, or_auth_timeout = None,
     or_task_negotiation_timeout = None, or_max_idle_time = None, or_max_external_packet_size = None,
     or_initial_window = None, or_send_window = None, or_receive_window = None, or_initial_mtu = None,
     or_min_mtu = None, or_gso = None, or_pmtu = None, or_log_level = None, or_gc_interval = None,
     or_gc_lifetime = None, or_restful_server = None, or_jls_pwd = Some pwd, or_jls_iv = Some iv,
     or_jls_upstream = Some upstream\<rparr>"

text \<open>
  A file in the old format without the optional fields means what a TOML file with the same
  server, users and JLS settings means, but for the congestion controller: the old default is Cubic, the new
  one BBR.
\<close>

theorem old_format_differs_in_controller:
  "map_option config_from (old_config_of_raw H (minimal_old server users pwd iv upstream)) =
     Some (server_default\<lparr>sf_server := server, sf_users := users,
       sf_tls := tls_default\<lparr>tls_jls_pwd := pwd, tls_jls_iv := iv, tls_jls_upstream := upstream\<rparr>,
       sf_quic := quic_default\<lparr>qu_congestion_control := congestion_default\<lparr>cc_controller := Cubic\<rparr>\<rparr>\<rparr>)"
  by (simp add: old_config_of_raw_def old_defaults_def Let_def minimal_old_def parsed_or_def or_default_def config_from_def server_default_def
      tls_default_def quic_default_def congestion_default_def from_secs_def from_millis_def)

text \<open>
  The RESTful interface of a file in the old format is guarded by a published secret: when it sets
  \<open>restful_server\<close>, the requests that are served are those with no token and those with the placeholder of the
  documentation, there is no limit of clients, and the file cannot change it.
\<close>

theorem old_format_publishes_secret:
  assumes "ol_restful_server old = Some addr"
  defines "cfg \<equiv> map_option restful_of (sf_restful (config_from old))"
  shows "(fst (kick cfg token users s) = OK \<longleftrightarrow> token = None \<or> token = Some ''YOUR_SECRET_HERE'') \<and>
    (fst (list_traffic cfg token s) = OK \<longleftrightarrow> token = None \<or> token = Some ''YOUR_SECRET_HERE'') \<and>
    closed_clients (snd (restful_client_connect ups cfg uuid conn s)) = closed_clients s"
  using assms(1)
  by (auto simp: cfg_def config_from_def restful_of_def restful_default_def kick_def list_traffic_def
      rejected_def restful_client_connect_def Let_def split: option.splits)

theorem old_format_publishes_secret_witness:
  "let old = the (old_config_of_raw (\<lambda>_. Inl []) ((minimal_old (SocketV4 (Ipv4 0 0 0 0) 443) [1 \<mapsto> [7]] [] [] [])
       \<lparr>or_restful_server := Some (SocketV4 (Ipv4 0 0 0 0) 80)\<rparr>)) :: nat old_config
   in fst (kick (map_option restful_of (sf_restful (config_from old))) (Some ''YOUR_SECRET_HERE'') [1] (restful_start (ol_users old))) = OK"
proof -
  let ?raw = "(minimal_old (SocketV4 (Ipv4 0 0 0 0) 443) [1 \<mapsto> [7]] [] [] [])
    \<lparr>or_restful_server := Some (SocketV4 (Ipv4 0 0 0 0) 80)\<rparr> :: nat raw_old_config"
  let ?old = "the (old_config_of_raw (\<lambda>_. Inl []) ?raw)"
  have "ol_restful_server ?old = Some (SocketV4 (Ipv4 0 0 0 0) 80)"
    by (simp add: old_config_of_raw_def minimal_old_def parsed_or_def Let_def)
  note published = old_format_publishes_secret [OF this, THEN conjunct1]
  show ?thesis unfolding Let_def by (rule published [THEN iffD2]) simp
qed

text \<open>
  What the server starts with. Its transport has the configured controller, window and idle time, its
  socket is bound to the configured address after it was made dual-stack when the configuration says so.
  Two settings that are off have no effect: with \<open>dual_stack\<close> off nothing is said to the socket, so that it is
  up to the platform, and early data is accepted whatever \<open>zero_rtt_handshake\<close> says.
\<close>

theorem server_starts_as_configured:
  assumes "server_init S cfg = (Inr (crypto, transport, calls) :: ('u, 'm) server_error + _)"
  shows "calls = (if sf_dual_stack cfg then [SetOnlyV6 False] else []) @ [BindTo (sf_server cfg)] \<and>
    tp_congestion transport = (cc_controller (qu_congestion_control (sf_quic cfg)),
      Some (cc_initial_window (qu_congestion_control (sf_quic cfg)))) \<and>
    tp_max_idle_timeout transport = Some (qu_max_idle_time (sf_quic cfg)) \<and> sy_max_early_data_size crypto = 4294967295"
  using assms
  by (auto simp: server_init_def Let_def try_bind_eq_Inr server_transport_def server_crypto_of_def split: if_splits)

definition demo_server_setup :: "unit server_setup" where
  "demo_server_setup = \<lparr>su_self_signed = Inr (), su_resolver = (\<lambda>_ _. Inl ''no certificate''),
     su_cipher_suite = (\<lambda>_. Inr ()),
     su_transport_default = \<lparr>tp_max_concurrent_bidi_streams = 100, tp_max_concurrent_uni_streams = 100,
       tp_send_window = 10, tp_stream_receive_window = 10, tp_max_idle_timeout = Some 30, tp_initial_mtu = 1200,
       tp_min_mtu = 1200, tp_segmentation_offload = True, tp_mtu_discovery = True, tp_congestion = (Cubic, None)\<rparr>,
     su_idle_timeout = (\<lambda>_. True), su_socket_new = (\<lambda>_. Inr ()), su_socket_call = (\<lambda>_. Inr ()), su_endpoint = Inr ()\<rparr>"

definition demo_server_config :: "unit server_config" where
  "demo_server_config = server_default\<lparr>sf_dual_stack := False, sf_tls := tls_default\<lparr>tls_self_sign := True\<rparr>\<rparr>"

theorem server_starts_as_configured_witness:
  "\<exists>crypto transport. server_init demo_server_setup demo_server_config =
     (Inr (crypto, transport, [BindTo (SocketV6 (Ipv6 0 0 0 0 0 0 0 0) 443 0 0)]) :: (unit, string) server_error + _) \<and>
     tp_congestion transport = (Bbr, Some 1048576)"
proof -
  have "\<exists>r. server_init demo_server_setup demo_server_config = (Inr r :: (unit, string) server_error + _)"
    by (simp add: server_init_def demo_server_setup_def demo_server_config_def Let_def tls_default_def)
  then obtain crypto transport calls where init: "server_init demo_server_setup demo_server_config =
      (Inr (crypto, transport, calls) :: (unit, string) server_error + _)" by (metis prod.collapse)
  from server_starts_as_configured [OF init] init show ?thesis
    by (simp add: demo_server_config_def server_default_def quic_default_def congestion_default_def)
qed

end
