(* ===== verification/Client_Associations.thy ===== *)
theory Client_Associations
  imports Client_Socks
begin

text \<open>
  The numbers of the SOCKS5 server's UDP associations over its whole run: a step relation on the
  operations of \<^verbatim>\<open>Client_Socks\<close>, its invariant, and what happens when a number is reused.
\<close>

section \<open>The run of the server\<close>

text \<open>
  A handler of an association: how many associations were accepted before it, its number, and its
  session once that is registered. \<open>aw_started\<close> counts the associations accepted.
\<close>

record assoc_task =
  at_no :: nat
  at_id :: u16
  at_session :: "nat option"

record assoc_world =
  aw_statics :: socks_statics
  aw_started :: nat
  aw_tasks :: "assoc_task list"

text \<open>No handler of the last 65536 associations still runs: the lifetime assumption under which a number is free.\<close>

definition number_free :: "assoc_world \<Rightarrow> bool" where
  "number_free w \<longleftrightarrow> (\<forall>t \<in> set (aw_tasks w). aw_started w < at_no t + 65536)"

definition set_udp :: "socks_udp \<Rightarrow> assoc_world \<Rightarrow> assoc_world" where
  "set_udp u w = w\<lparr>aw_statics := (aw_statics w)\<lparr>sx_udp := u\<rparr>\<rparr>"

inductive assoc_step :: "assoc_world \<Rightarrow> assoc_world \<Rightarrow> bool" where
  assoc_accepted:
    "socks_accept (Inr CommandAssociate :: string + socks_command) (aw_statics w) = (Returns (RunAssociate a dual sz), s) \<Longrightarrow> number_free w \<Longrightarrow>
     assoc_step w (w\<lparr>aw_statics := s, aw_started := aw_started w + 1,
       aw_tasks := \<lparr>at_no = aw_started w, at_id = a, at_session = None\<rparr> # aw_tasks w\<rparr>)"
| assoc_opened:
    "aw_tasks w = ts @ t # ts' \<Longrightarrow> at_session t = None \<Longrightarrow>
     associate_open S local_addr replied (at_id t) dual (sock, sx_udp (aw_statics w)) = (Returns (Some sid), sock', u) \<Longrightarrow>
     assoc_step w (set_udp u (w\<lparr>aw_tasks := ts @ t\<lparr>at_session := Some sid\<rparr> # ts'\<rparr>))"
| assoc_refused:
    "aw_tasks w = ts @ t # ts' \<Longrightarrow> at_session t = None \<Longrightarrow>
     associate_open S local_addr replied (at_id t) dual (sock, sx_udp (aw_statics w)) = (r, sock', u) \<Longrightarrow>
     r = Returns None \<or> r = Panics p \<Longrightarrow> assoc_step w (set_udp u (w\<lparr>aw_tasks := ts @ ts'\<rparr>))"
| assoc_receives:
    "t \<in> set (aw_tasks w) \<Longrightarrow> at_session t = Some sid \<Longrightarrow>
     associate_recv display connect received sid (sx_udp (aw_statics w)) = (res, u) \<Longrightarrow>
     assoc_step w (set_udp u w)"
| assoc_answers:
    "sx_udp (aw_statics w) = u \<Longrightarrow> su_sessions u sid = Some s \<Longrightarrow>
     socks_session_send logs_debug logs_warn sent pkt addr s = (res :: (unit client_error + unit) outcome, s') \<Longrightarrow>
     assoc_step w (set_udp (u\<lparr>su_sessions := (su_sessions u)(sid \<mapsto> s')\<rparr>) w)"
| assoc_closed:
    "aw_tasks w = ts @ t # ts' \<Longrightarrow> at_session t = Some sid \<Longrightarrow>
     associate_remove (at_id t) (sx_udp (aw_statics w)) = (r, u) \<Longrightarrow>
     assoc_step w (set_udp u (w\<lparr>aw_tasks := ts @ ts'\<rparr>))"

definition assoc_start :: "assoc_world \<Rightarrow> bool" where
  "assoc_start w \<longleftrightarrow> aw_started w = 0 \<and> aw_tasks w = [] \<and> su_map (sx_udp (aw_statics w)) = Some Map.empty \<and>
     (\<exists>srv. sx_server (aw_statics w) = Some srv \<and> sr_next_assoc_id srv = 0)"

section \<open>The invariant\<close>

text \<open>The table as the handlers see it: each number leads to the session of the one handler that has it.\<close>

definition tasks_ok :: "nat \<Rightarrow> assoc_task list \<Rightarrow> bool" where
  "tasks_ok n ts \<longleftrightarrow> (\<forall>t \<in> set ts. at_no t < n \<and> at_id t = of_nat (at_no t)) \<and> distinct (map at_id ts)"

definition table_ok :: "assoc_task list \<Rightarrow> socks_udp \<Rightarrow> bool" where
  "table_ok ts u \<longleftrightarrow> (\<exists>m. su_map u = Some m \<and>
     (\<forall>a sid. m a = Some sid \<longleftrightarrow> (\<exists>t \<in> set ts. at_id t = a \<and> at_session t = Some sid)) \<and>
     (\<forall>a sid. m a = Some sid \<longrightarrow> sid < su_next u \<and> map_option sk_assoc_id (su_sessions u sid) = Some a))"

definition assoc_ok :: "assoc_world \<Rightarrow> bool" where
  "assoc_ok w \<longleftrightarrow> tasks_ok (aw_started w) (aw_tasks w) \<and> table_ok (aw_tasks w) (sx_udp (aw_statics w)) \<and>
     (\<exists>srv. sx_server (aw_statics w) = Some srv \<and> sr_next_assoc_id srv = of_nat (aw_started w))"

lemma of_nat_u16_fresh:
  assumes "i < n" and "n < i + 65536"
  shows "(of_nat i :: u16) \<noteq> of_nat n"
proof
  assume "(of_nat i :: u16) = of_nat n"
  then have "(of_nat (n - i) :: u16) = 0" using assms(1) by (simp add: of_nat_diff)
  moreover have "unat (of_nat (n - i) :: u16) = n - i" using assms by (intro unat_of_nat_u16) simp
  ultimately show False using assms(1) by simp
qed

text \<open>Steps that only change sessions: their map, their numbers and their owners stay.\<close>

definition same_table :: "socks_udp \<Rightarrow> socks_udp \<Rightarrow> bool" where
  "same_table u u' \<longleftrightarrow> su_map u' = su_map u \<and> su_next u' = su_next u \<and>
     (\<forall>sid. map_option sk_assoc_id (su_sessions u' sid) = map_option sk_assoc_id (su_sessions u sid))"

lemma table_ok_same: "table_ok ts u \<Longrightarrow> same_table u u' \<Longrightarrow> table_ok ts u'"
  by (simp add: table_ok_def same_table_def)

lemma same_table_refl [simp]: "same_table u u"
  by (simp add: same_table_def)

lemma same_table_update:
  "su_sessions u sid = Some s \<Longrightarrow> sk_assoc_id s' = sk_assoc_id s \<Longrightarrow>
    same_table u (u\<lparr>su_sessions := (su_sessions u)(sid \<mapsto> s')\<rparr>)"
  by (simp add: same_table_def)

lemma socks_session_recv_id:
  "socks_session_recv display connect received s = (r, s') \<Longrightarrow> sk_assoc_id s' = sk_assoc_id s"
  by (auto simp: socks_session_recv_def split: sum.splits prod.splits option.splits if_splits)

lemma socks_session_send_id:
  "socks_session_send ld lw sent pkt addr s = (r, s') \<Longrightarrow> sk_assoc_id s' = sk_assoc_id s"
  by (auto simp: socks_session_send_def split: sum.splits if_splits)

lemma associate_recv_same: "associate_recv display connect received sid u = (res, u') \<Longrightarrow> same_table u u'"
  by (auto simp: associate_recv_def intro!: same_table_update dest: socks_session_recv_id
      split: option.splits prod.splits sum.splits)

lemma socks_session_new_id: "socks_session_new S a ctrl ip dual = Inr s \<Longrightarrow> sk_assoc_id s = a"
  by (auto simp: socks_session_new_def try_bind_eq_Inr)

lemma associate_open_cases:
  assumes "associate_open S local_addr replied a dual (sock, u) = (r, sock', u')"
  obtains (opened) m s where "r = Returns (Some (su_next u))" "su_map u = Some m" "sk_assoc_id s = a"
      "u' = u\<lparr>su_map := Some (m(a \<mapsto> su_next u)), su_sessions := (su_sessions u)(su_next u \<mapsto> s),
        su_next := su_next u + 1\<rparr>"
    | (refused) "r = Returns None \<or> (\<exists>p. r = Panics p)" "u' = u"
proof (cases "\<exists>sid. r = Returns (Some sid)")
  case False
  moreover from this assms have "u' = u"
    by (simp add: associate_open_def Let_def split: sum.splits option.splits) blast+
  ultimately show thesis using refused by (cases r) auto
next
  case True
  with assms show thesis
    by (simp add: associate_open_def Let_def split: sum.splits option.splits)
      (auto intro: opened dest: socks_session_new_id)
qed

lemma table_ok_remove:
  assumes "tasks_ok n (ts @ t # ts')" and "table_ok (ts @ t # ts') u" and "at_session t = Some sid"
    and "associate_remove (at_id t) u = (r, u')"
  shows "r = Returns ()" and "table_ok (ts @ ts') u'"
proof -
  obtain m where m: "su_map u = Some m"
    "\<And>a sid. m a = Some sid \<longleftrightarrow> (\<exists>t \<in> set (ts @ t # ts'). at_id t = a \<and> at_session t = Some sid)"
    "\<And>a sid. m a = Some sid \<Longrightarrow> sid < su_next u \<and> map_option sk_assoc_id (su_sessions u sid) = Some a"
    using assms(2) unfolding table_ok_def by blast
  have "m (at_id t) = Some sid" using m(2) assms(3) by auto
  then show "r = Returns ()" using assms(4) m(1) by (simp add: associate_remove_def)
  have others: "at_id t' \<noteq> at_id t" if "t' \<in> set (ts @ ts')" for t'
    using assms(1) that unfolding tasks_ok_def by (force simp: image_iff)
  have u': "u' = u\<lparr>su_map := Some (m(at_id t := None))\<rparr>"
    using assms(4) m(1) by (simp add: associate_remove_def)
  show "table_ok (ts @ ts') u'"
    unfolding table_ok_def u'
  proof (intro exI conjI allI impI)
    show "(m(at_id t := None)) a = Some sid \<longleftrightarrow> (\<exists>t \<in> set (ts @ ts'). at_id t = a \<and> at_session t = Some sid)" for a sid
      using others m(2) by (cases "a = at_id t") auto
  qed (use m(3) in \<open>auto split: if_splits\<close>)
qed

lemma table_ok_insert:
  assumes "tasks_ok n (ts @ t # ts')" and "table_ok (ts @ t # ts') u" and "at_session t = None"
    and "su_map u = Some m" and "sk_assoc_id s = at_id t"
  shows "table_ok (ts @ t\<lparr>at_session := Some (su_next u)\<rparr> # ts')
    (u\<lparr>su_map := Some (m(at_id t \<mapsto> su_next u)), su_sessions := (su_sessions u)(su_next u \<mapsto> s),
      su_next := su_next u + 1\<rparr>)"
proof -
  have m: "\<And>a sid. m a = Some sid \<longleftrightarrow> (\<exists>t \<in> set (ts @ t # ts'). at_id t = a \<and> at_session t = Some sid)"
    "\<And>a sid. m a = Some sid \<Longrightarrow> sid < su_next u \<and> map_option sk_assoc_id (su_sessions u sid) = Some a"
    using assms(2,4) unfolding table_ok_def by auto
  have others: "at_id t' \<noteq> at_id t" if "t' \<in> set (ts @ ts')" for t'
    using assms(1) that unfolding tasks_ok_def by (force simp: image_iff)
  show ?thesis
    unfolding table_ok_def
  proof (intro exI conjI allI impI)
    show "(m(at_id t \<mapsto> su_next u)) a = Some sid \<longleftrightarrow>
        (\<exists>t \<in> set (ts @ t\<lparr>at_session := Some (su_next u)\<rparr> # ts'). at_id t = a \<and> at_session t = Some sid)" for a sid
      using others m(1) assms(3) by (cases "a = at_id t") auto
  qed (use m(2) assms(5) in \<open>force split: if_splits\<close>)+
qed

lemma tasks_ok_remove: "tasks_ok n (ts @ t # ts') \<Longrightarrow> tasks_ok n (ts @ ts')"
  by (auto simp: tasks_ok_def)

lemma tasks_ok_session: "tasks_ok n (ts @ t # ts') \<Longrightarrow> tasks_ok n (ts @ t\<lparr>at_session := x\<rparr> # ts')"
  by (auto simp: tasks_ok_def)

lemma table_ok_no_session: "table_ok (ts @ t # ts') u \<Longrightarrow> at_session t = None \<Longrightarrow> table_ok (ts @ ts') u"
  by (auto simp: table_ok_def)

lemma set_udp_simps [simp]:
  "aw_tasks (set_udp u w) = aw_tasks w" "aw_started (set_udp u w) = aw_started w"
  "sx_udp (aw_statics (set_udp u w)) = u" "sx_server (aw_statics (set_udp u w)) = sx_server (aw_statics w)"
  by (simp_all add: set_udp_def)

lemma assoc_step_ok:
  assumes "assoc_step w w'" and "assoc_ok w"
  shows "assoc_ok w'"
  using assms
proof (induction rule: assoc_step.induct)
  case (assoc_accepted w a dual sz s)
  then obtain srv where srv: "sx_server (aw_statics w) = Some srv" "sr_next_assoc_id srv = of_nat (aw_started w)"
    and tasks: "tasks_ok (aw_started w) (aw_tasks w)" and table: "table_ok (aw_tasks w) (sx_udp (aw_statics w))"
    by (auto simp: assoc_ok_def)
  have s: "a = of_nat (aw_started w)" "sx_udp s = sx_udp (aw_statics w)"
    "\<exists>srv. sx_server s = Some srv \<and> sr_next_assoc_id srv = of_nat (Suc (aw_started w))"
    using assoc_accepted.hyps(1) srv by (auto simp: socks_accept_def next_assoc_id_def)
  have "at_id t \<noteq> a" if "t \<in> set (aw_tasks w)" for t
    using of_nat_u16_fresh [of "at_no t" "aw_started w"] tasks assoc_accepted.hyps(2) that s(1)
    by (auto simp: tasks_ok_def number_free_def)
  then have "a \<notin> set (map at_id (aw_tasks w))" by auto
  with tasks have "tasks_ok (Suc (aw_started w))
      (\<lparr>at_no = aw_started w, at_id = a, at_session = None\<rparr> # aw_tasks w)"
    by (simp add: tasks_ok_def s(1) less_Suc_eq)
  moreover have "table_ok (\<lparr>at_no = aw_started w, at_id = a, at_session = None\<rparr> # aw_tasks w) (sx_udp s)"
    using table by (simp add: table_ok_def s(2))
  ultimately show ?case using s(3) by (simp add: assoc_ok_def)
next
  case (assoc_opened w ts t ts' S local_addr replied dual sock sid sock' u)
  then have tasks: "tasks_ok (aw_started w) (ts @ t # ts')" and table: "table_ok (ts @ t # ts') (sx_udp (aw_statics w))"
    by (auto simp: assoc_ok_def)
  from assoc_opened.hyps(3) show ?case
  proof (cases rule: associate_open_cases)
    case (opened m s)
    with table_ok_insert [OF tasks table assoc_opened.hyps(2) opened(2,3)] tasks_ok_session [OF tasks]
      assoc_opened.prems show ?thesis by (simp add: assoc_ok_def)
  qed simp
next
  case (assoc_refused w ts t ts' S local_addr replied dual sock r sock' u p)
  from assoc_refused.hyps(3) have "u = sx_udp (aw_statics w)"
    using assoc_refused.hyps(4) by (cases rule: associate_open_cases) auto
  with assoc_refused show ?case
    using tasks_ok_remove table_ok_no_session by (auto simp: assoc_ok_def)
next
  case (assoc_receives t w sid display connect received res u)
  then show ?case using table_ok_same [OF _ associate_recv_same] by (auto simp: assoc_ok_def)
next
  case (assoc_answers w u sid s logs_debug logs_warn sent pkt addr res s')
  then show ?case
    using table_ok_same [OF _ same_table_update [OF _ socks_session_send_id]] by (auto simp: assoc_ok_def)
next
  case (assoc_closed w ts t ts' sid r u)
  then show ?case
    using table_ok_remove(2) tasks_ok_remove by (auto simp: assoc_ok_def)
qed

interpretation assoc: invariant_system assoc_start assoc_step assoc_ok
proof unfold_locales
  show "assoc_start w \<Longrightarrow> assoc_ok w" for w
    by (auto simp: assoc_start_def assoc_ok_def tasks_ok_def table_ok_def)
  show "assoc_ok w \<Longrightarrow> assoc_step w w' \<Longrightarrow> assoc_ok w'" for w w'
    using assoc_step_ok by blast
qed

section \<open>Properties\<close>

text \<open>
  C14: the associations of the SOCKS5 server do not mix. As long as no association outlives the next
  65535 ones, in every state the server can reach the running handlers have different numbers, the
  table leads from a handler's number to the session it opened and to no other, and removing it at the
  end does not panic, and leaves the other handlers' entries.
\<close>

theorem associations_do_not_mix:
  assumes "reachable assoc_start assoc_step w" and "t \<in> set (aw_tasks w)" and "at_session t = Some sid"
    and "sx_udp (aw_statics w) = u" and "associate_remove (at_id t) u = (r, u')"
  shows "distinct (map at_id (aw_tasks w)) \<and> r = Returns () \<and>
    map_option (\<lambda>m. m (at_id t)) (su_map u) = Some (Some sid) \<and>
    map_option sk_assoc_id (su_sessions u sid) = Some (at_id t) \<and>
    (\<forall>t' sid'. t' \<in> set (aw_tasks w) \<and> t' \<noteq> t \<and> at_session t' = Some sid' \<longrightarrow>
       sid' \<noteq> sid \<and> map_option (\<lambda>m. m (at_id t')) (su_map u') = Some (Some sid'))"
proof -
  have ok: "tasks_ok (aw_started w) (aw_tasks w)" "table_ok (aw_tasks w) u"
    using assoc.reachable_inv [OF assms(1)] assms(4) by (simp_all add: assoc_ok_def)
  obtain m where m: "su_map u = Some m"
    "\<And>a sid. m a = Some sid \<longleftrightarrow> (\<exists>t \<in> set (aw_tasks w). at_id t = a \<and> at_session t = Some sid)"
    "\<And>a sid. m a = Some sid \<Longrightarrow> map_option sk_assoc_id (su_sessions u sid) = Some a"
    using ok(2) unfolding table_ok_def by blast
  have here: "m (at_id t) = Some sid" using m(2) assms(2,3) by blast
  have u': "u' = u\<lparr>su_map := Some (m(at_id t := None))\<rparr>" and r: "r = Returns ()"
    using assms(5) m(1) here by (simp_all add: associate_remove_def)
  have ids: "distinct (map at_id (aw_tasks w))" using ok(1) by (simp add: tasks_ok_def)
  have others: "sid' \<noteq> sid \<and> at_id t' \<noteq> at_id t \<and> m (at_id t') = Some sid'"
    if "t' \<in> set (aw_tasks w)" "t' \<noteq> t" "at_session t' = Some sid'" for t' sid'
  proof -
    have "at_id t' \<noteq> at_id t" using ids that(1,2) assms(2) by (auto simp: distinct_map dest: inj_onD)
    moreover have "m (at_id t') = Some sid'" using m(2) that(1,3) by blast
    moreover from calculation have "sid' \<noteq> sid"
      using m(3) [OF here] m(3) [of "at_id t'" sid'] by auto
    ultimately show ?thesis by blast
  qed
  show ?thesis using ids here m(1,3) others by (auto simp: u' r)
qed

definition demo_udp_sockets :: socks_sockets where
  "demo_udp_sockets = \<lparr>sk_new = (\<lambda>_. Inr ()), sk_set_only_v6 = (\<lambda>_. Inr ()), sk_set_nonblocking = Inr (),
     sk_bind = (\<lambda>_. Inr ()), sk_from_std = Inr ()\<rparr>"

definition demo_world :: assoc_world where
  "demo_world = \<lparr>aw_statics = \<lparr>sx_server = Some \<lparr>sr_auth = NoAuth, sr_dual_stack = None, sr_max_pkt_size = 1500,
       sr_next_assoc_id = 0\<rparr>, sx_udp = \<lparr>su_map = Some Map.empty, su_sessions = Map.empty, su_next = 0\<rparr>\<rparr>,
     aw_started = 0, aw_tasks = []\<rparr>"

theorem associations_do_not_mix_witness:
  "let u = snd (snd (associate_open demo_udp_sockets (Inr (SocketV4 (Ipv4 127 0 0 1) 6000)) (Inr ()) 0 None
      (demo_client, sx_udp (aw_statics demo_world))))
   in fst (associate_remove 0 u) = Returns () \<and> map_option (\<lambda>m. m 0) (su_map u) = Some (Some 0)"
proof -
  let ?accept = "socks_accept (Inr CommandAssociate :: string + socks_command) (aw_statics demo_world)"
  let ?t = "\<lparr>at_no = 0, at_id = 0, at_session = None\<rparr>"
  let ?w1 = "demo_world\<lparr>aw_statics := snd ?accept, aw_started := aw_started demo_world + 1,
    aw_tasks := \<lparr>at_no = aw_started demo_world, at_id = 0, at_session = None\<rparr> # aw_tasks demo_world\<rparr>"
  let ?open = "associate_open demo_udp_sockets (Inr (SocketV4 (Ipv4 127 0 0 1) 6000)) (Inr ()) 0 None
      (demo_client, sx_udp (aw_statics demo_world))"
  let ?u = "snd (snd ?open)"
  have "reachable assoc_start assoc_step demo_world"
    by (rule reachable_init) (simp add: assoc_start_def demo_world_def)
  moreover have "assoc_step demo_world ?w1"
    by (rule assoc_accepted) (simp_all add: socks_accept_def demo_world_def next_assoc_id_def number_free_def)
  ultimately have w1: "reachable assoc_start assoc_step ?w1" by (rule reachable_step)
  have tasks: "aw_tasks ?w1 = [] @ ?t # []" by (simp add: demo_world_def)
  have same: "sx_udp (aw_statics ?w1) = sx_udp (aw_statics demo_world)"
    by (simp add: socks_accept_def demo_world_def next_assoc_id_def)
  have opened: "?open = (Returns (Some 0), fst (snd ?open), ?u)"
    by (simp add: associate_open_def demo_client_def demo_world_def demo_udp_sockets_def socks_session_new_def Let_def)
  have registered: "associate_open demo_udp_sockets (Inr (SocketV4 (Ipv4 127 0 0 1) 6000)) (Inr ()) (at_id ?t) None
      (demo_client, sx_udp (aw_statics ?w1)) = (Returns (Some 0), fst (snd ?open), ?u)"
    using opened by (simp only: same assoc_task.select_convs)
  have "assoc_step ?w1 (set_udp ?u (?w1\<lparr>aw_tasks := [] @ ?t\<lparr>at_session := Some 0\<rparr> # []\<rparr>))" (is "assoc_step _ ?w2")
    by (rule assoc_opened [OF tasks _ registered]) simp
  with w1 have w2: "reachable assoc_start assoc_step ?w2" by (rule reachable_step)
  have t: "?t\<lparr>at_session := Some 0\<rparr> \<in> set (aw_tasks ?w2)" "at_session (?t\<lparr>at_session := Some 0\<rparr>) = Some 0"
    "sx_udp (aw_statics ?w2) = ?u" by simp_all
  from associations_do_not_mix [OF w2 t surjective_pairing] show ?thesis by (simp add: Let_def)
qed

lemma next_assoc_id_repeats: "((\<lambda>s. snd (next_assoc_id s)) ^^ n) s = s\<lparr>sr_next_assoc_id := sr_next_assoc_id s + of_nat n\<rparr>"
  by (induction n) (simp_all add: next_assoc_id_def add.commute)

text \<open>
  The numbers of the associations repeat after 65536. When an association is still open when its number
  is given out again, the table leads to the newer session, the first handler to end removes
  that entry, and the handler that ends last panics on it.
\<close>

theorem reused_association_number_panics:
  assumes "associate_open S local_addr (Inr ()) (fst (next_assoc_id srv)) dual (sock, u) = (Returns (Some sid), sock1, u1)"
    and "srv' = ((\<lambda>s. snd (next_assoc_id s)) ^^ 65536) srv"
    and "associate_open S local_addr' (Inr ()) (fst (next_assoc_id srv')) dual (sock', u1) =
      (Returns (Some sid'), sock2, u2)"
    and "associate_remove (fst (next_assoc_id srv)) u2 = (r1, u3)"
    and "associate_remove (fst (next_assoc_id srv')) u3 = (r2, u4)"
  shows "fst (next_assoc_id srv') = fst (next_assoc_id srv) \<and> sid' \<noteq> sid \<and>
    map_option (\<lambda>m. m (fst (next_assoc_id srv))) (su_map u2) = Some (Some sid') \<and>
    r1 = Returns () \<and> r2 = Panics UnwrapNone"
proof -
  have "(of_nat 65536 :: u16) = 0" by simp
  then have "srv' = srv" using assms(2) by (simp add: next_assoc_id_repeats)
  with assms(1,3-5) show ?thesis
    by (elim associate_open_cases) (auto simp: associate_remove_def)
qed

theorem reused_association_number_panics_witness:
  "let u = sx_udp (aw_statics demo_world);
     opened = (\<lambda>u. snd (snd (associate_open demo_udp_sockets (Inr (SocketV4 (Ipv4 127 0 0 1) 6000)) (Inr ()) 0 None
       (demo_client, u))))
   in fst (associate_remove 0 (snd (associate_remove 0 (opened (opened u))))) = Panics UnwrapNone"
proof -
  let ?u = "sx_udp (aw_statics demo_world)"
  let ?srv = "the (sx_server (aw_statics demo_world))"
  let ?open = "\<lambda>u. associate_open demo_udp_sockets (Inr (SocketV4 (Ipv4 127 0 0 1) 6000)) (Inr ())
    (fst (next_assoc_id ?srv)) None (demo_client, u)"
  have opened: "?open u = (Returns (Some (su_next u)), fst (snd (?open u)), snd (snd (?open u)))"
    if "su_map u = Some m" for u m
    using that by (simp add: associate_open_def demo_client_def demo_udp_sockets_def socks_session_new_def Let_def)
  have u: "su_map ?u = Some Map.empty" by (simp add: demo_world_def)
  obtain m where u1: "su_map (snd (snd (?open ?u))) = Some m"
    by (simp add: associate_open_def demo_client_def demo_udp_sockets_def socks_session_new_def Let_def u)
  have srv: "((\<lambda>s. snd (next_assoc_id s)) ^^ 65536) ?srv = ?srv"
    unfolding next_assoc_id_repeats by (simp add: demo_world_def)
  have "fst (next_assoc_id ?srv) = 0" by (simp add: next_assoc_id_def demo_world_def)
  with reused_association_number_panics [OF opened [OF u] srv [symmetric] opened [OF u1] surjective_pairing surjective_pairing]
  show ?thesis by (simp add: Let_def)
qed

end
