(* ===== verification/Client_Start.thy ===== *)
theory Client_Start
  imports Client_Associations Config_Args
begin

text \<open>
  The start of the client: its configuration, \<^verbatim>\<open>tuic-client/src/config.rs\<close>, \<open>Connection::set_config\<close> of
  \<^verbatim>\<open>tuic-client/src/connection/mod.rs\<close> and \<^verbatim>\<open>tuic-client/src/main.rs\<close>. Reading JSON, the types that serde
  parses itself (UUIDs, addresses, numbers), durations, certificates and TLS are library code.
\<close>

section \<open>The configuration\<close>

record 'u raw_relay =
  rr_server :: "bytes option"
  rr_uuid :: "'u option"
  rr_password :: "bytes option"
  rr_ip :: "ip_addr option"
  rr_certificates :: "string list option"
  rr_udp_relay_mode :: "bytes option"
  rr_congestion_control :: "bytes option"
  rr_alpn :: "bytes list option"
  rr_zero_rtt_handshake :: "bool option"
  rr_disable_sni :: "bool option"
  rr_timeout :: "bytes option"
  rr_heartbeat :: "bytes option"
  rr_disable_native_certs :: "bool option"
  rr_send_window :: "u64 option"
  rr_receive_window :: "u32 option"
  rr_initial_mtu :: "u16 option"
  rr_min_mtu :: "u16 option"
  rr_gso :: "bool option"
  rr_pmtu :: "bool option"
  rr_gc_interval :: "bytes option"
  rr_gc_lifetime :: "bytes option"
  rr_skip_cert_verify :: "bool option"
  rr_jls_pwd :: "bytes option"
  rr_jls_iv :: "bytes option"
  rr_server_name :: "bytes option"

record 'u relay_config =
  rl_server :: "bytes \<times> u16"
  rl_uuid :: 'u
  rl_password :: bytes
  rl_ip :: "ip_addr option"
  rl_certificates :: "string list"
  rl_udp_relay_mode :: client_relay_mode
  rl_congestion_control :: client_congestion
  rl_alpn :: "bytes list"
  rl_zero_rtt_handshake :: bool
  rl_disable_sni :: bool
  rl_timeout :: nat
  rl_heartbeat :: nat
  rl_disable_native_certs :: bool
  rl_send_window :: u64
  rl_receive_window :: u32
  rl_initial_mtu :: u16
  rl_min_mtu :: u16
  rl_gso :: bool
  rl_pmtu :: bool
  rl_gc_interval :: nat
  rl_gc_lifetime :: nat
  rl_skip_cert_verify :: bool
  rl_jls_pwd :: bytes
  rl_jls_iv :: bytes
  rl_server_name :: "bytes option"

text \<open>The default functions, around the fields that have none.\<close>

definition relay_defaults :: "bytes \<times> u16 \<Rightarrow> 'u \<Rightarrow> bytes \<Rightarrow> bytes \<Rightarrow> bytes \<Rightarrow> 'u relay_config" where
  "relay_defaults server uuid password jls_pwd jls_iv =
     \<lparr>rl_server = server, rl_uuid = uuid, rl_password = password, rl_ip = None, rl_certificates = [],
      rl_udp_relay_mode = RelayNative, rl_congestion_control = ClientCubic, rl_alpn = [],
      rl_zero_rtt_handshake = False, rl_disable_sni = False, rl_timeout = from_secs 8, rl_heartbeat = from_secs 3,
      rl_disable_native_certs = False, rl_send_window = 8 * 1024 * 1024 * 2, rl_receive_window = 8 * 1024 * 1024,
      rl_initial_mtu = 1200, rl_min_mtu = 1200, rl_gso = True, rl_pmtu = True, rl_gc_interval = from_secs 3,
      rl_gc_lifetime = from_secs 15, rl_skip_cert_verify = False, rl_jls_pwd = jls_pwd, rl_jls_iv = jls_iv,
      rl_server_name = None\<rparr>"

text \<open>\<open>H\<close> reads a duration.\<close>

definition relay_of_raw :: "(bytes \<Rightarrow> string + nat) \<Rightarrow> 'u raw_relay \<Rightarrow> 'u relay_config option" where
  "relay_of_raw H r =
     Option.bind (parsed deserialize_server (rr_server r)) (\<lambda>server.
     Option.bind (rr_uuid r) (\<lambda>uuid.
     Option.bind (rr_password r) (\<lambda>password.
     Option.bind (rr_jls_pwd r) (\<lambda>jls_pwd.
     Option.bind (rr_jls_iv r) (\<lambda>jls_iv.
     let d = relay_defaults server uuid password jls_pwd jls_iv in
     Option.bind (parsed_or (rl_udp_relay_mode d) udp_relay_mode_from_str (rr_udp_relay_mode r)) (\<lambda>udp_relay_mode.
     Option.bind (parsed_or (rl_congestion_control d) client_congestion_from_str (rr_congestion_control r)) (\<lambda>congestion_control.
     Option.bind (parsed_or (rl_timeout d) H (rr_timeout r)) (\<lambda>timeout.
     Option.bind (parsed_or (rl_heartbeat d) H (rr_heartbeat r)) (\<lambda>heartbeat.
     Option.bind (parsed_or (rl_gc_interval d) H (rr_gc_interval r)) (\<lambda>gc_interval.
     Option.bind (parsed_or (rl_gc_lifetime d) H (rr_gc_lifetime r)) (\<lambda>gc_lifetime.
     Some (d\<lparr>rl_ip := rr_ip r, rl_certificates := or_default (rl_certificates d) (rr_certificates r),
       rl_udp_relay_mode := udp_relay_mode, rl_congestion_control := congestion_control,
       rl_alpn := or_default (rl_alpn d) (rr_alpn r),
       rl_zero_rtt_handshake := or_default (rl_zero_rtt_handshake d) (rr_zero_rtt_handshake r),
       rl_disable_sni := or_default (rl_disable_sni d) (rr_disable_sni r),
       rl_timeout := timeout, rl_heartbeat := heartbeat,
       rl_disable_native_certs := or_default (rl_disable_native_certs d) (rr_disable_native_certs r),
       rl_send_window := or_default (rl_send_window d) (rr_send_window r),
       rl_receive_window := or_default (rl_receive_window d) (rr_receive_window r),
       rl_initial_mtu := or_default (rl_initial_mtu d) (rr_initial_mtu r),
       rl_min_mtu := or_default (rl_min_mtu d) (rr_min_mtu r),
       rl_gso := or_default (rl_gso d) (rr_gso r), rl_pmtu := or_default (rl_pmtu d) (rr_pmtu r),
       rl_gc_interval := gc_interval, rl_gc_lifetime := gc_lifetime,
       rl_skip_cert_verify := or_default (rl_skip_cert_verify d) (rr_skip_cert_verify r),
       rl_server_name := rr_server_name r\<rparr>))))))))))))"

record raw_local =
  ro_server :: "socket_addr option"
  ro_username :: "bytes option"
  ro_password :: "bytes option"
  ro_dual_stack :: "bool option"
  ro_max_packet_size :: "nat option"

record local_config =
  lo_server :: socket_addr
  lo_username :: "bytes option"
  lo_password :: "bytes option"
  lo_dual_stack :: "bool option"
  lo_max_packet_size :: nat

definition local_of_raw :: "raw_local \<Rightarrow> local_config option" where
  "local_of_raw r = map_option (\<lambda>server. \<lparr>lo_server = server, lo_username = ro_username r,
     lo_password = ro_password r, lo_dual_stack = ro_dual_stack r,
     lo_max_packet_size = or_default 1500 (ro_max_packet_size r)\<rparr>) (ro_server r)"

record 'u client_config =
  cf_relay :: "'u relay_config"
  cf_local :: local_config
  cf_log_level :: bytes

text \<open>What the JSON of the file holds: the two sections and the level, when they are there.\<close>

definition client_config_of_raw ::
    "(bytes \<Rightarrow> string + nat) \<Rightarrow> 'u raw_relay option \<times> raw_local option \<times> bytes option \<Rightarrow> 'u client_config option" where
  "client_config_of_raw H raw = (case raw of (relay, local, log_level) \<Rightarrow>
     Option.bind (Option.bind relay (relay_of_raw H)) (\<lambda>relay.
     Option.bind (Option.bind local local_of_raw) (\<lambda>local.
     Some \<lparr>cf_relay = relay, cf_local = local, cf_log_level = or_default (ascii ''info'') log_level\<rparr>)))"

text \<open>\<open>Config::parse\<close>; \<open>load\<close> opens the file and reads its JSON.\<close>

definition client_config_parse ::
    "('p, 'e) lexopt \<Rightarrow> (bytes \<Rightarrow> string + nat) \<Rightarrow>
      (string \<Rightarrow> io_error + ('u raw_relay option \<times> raw_local option \<times> bytes option) option) \<Rightarrow> 'p \<Rightarrow>
      ('e config_error + 'u client_config) option" where
  "client_config_parse L H load args = map_option (\<lambda>r. try_bind r (\<lambda>path.
     case path of None \<Rightarrow> Inl NoConfig | Some path \<Rightarrow>
     try_bind (map_err ConfigIo (load path)) (\<lambda>raw.
     case Option.bind raw (client_config_of_raw H) of None \<Rightarrow> Inl ConfigSerde | Some cfg \<Rightarrow> Inr cfg)))
     (client_args L None args)"

section \<open>The verifier that accepts every certificate\<close>

text \<open>
  With \<open>skip_cert_verify\<close> the client's verifier accepts any chain for any name; the signatures of the handshake are still
  checked, by the process's crypto provider.
\<close>

record 'scheme crypto_provider =
  cp_verify_tls12_signature :: "bytes \<Rightarrow> bytes \<Rightarrow> bytes \<Rightarrow> string + unit"
  cp_verify_tls13_signature :: "bytes \<Rightarrow> bytes \<Rightarrow> bytes \<Rightarrow> string + unit"
  cp_supported_schemes :: "'scheme list"

definition skip_verification_new :: "'scheme crypto_provider option \<Rightarrow> 'scheme crypto_provider outcome" where
  "skip_verification_new get_default = (case get_default of None \<Rightarrow> Panics UnwrapNone | Some p \<Rightarrow> Returns p)"

definition skip_verify_server_cert ::
    "'scheme crypto_provider \<Rightarrow> bytes \<Rightarrow> bytes list \<Rightarrow> bytes \<Rightarrow> bytes \<Rightarrow> nat \<Rightarrow> string + unit" where
  "skip_verify_server_cert p end_entity intermediates name ocsp now = Inr ()"

definition skip_verify_tls12_signature :: "'scheme crypto_provider \<Rightarrow> bytes \<Rightarrow> bytes \<Rightarrow> bytes \<Rightarrow> string + unit" where
  "skip_verify_tls12_signature p message cert dss = cp_verify_tls12_signature p message cert dss"

definition skip_verify_tls13_signature :: "'scheme crypto_provider \<Rightarrow> bytes \<Rightarrow> bytes \<Rightarrow> bytes \<Rightarrow> string + unit" where
  "skip_verify_tls13_signature p message cert dss = cp_verify_tls13_signature p message cert dss"

definition skip_supported_verify_schemes :: "'scheme crypto_provider \<Rightarrow> 'scheme list" where
  "skip_supported_verify_schemes p = cp_supported_schemes p"

section \<open>Setting up the connection\<close>

text \<open>How the server's certificate is checked: not at all, or against roots and then with TLS 1.3 only.\<close>

datatype ('c, 'p) client_verifier = SkipServerVerification "'p crypto_provider" | RootCertificates 'c

record ('c, 'p) client_crypto =
  cr_verifier :: "('c, 'p) client_verifier"
  cr_alpn_protocols :: "bytes list"
  cr_enable_early_data :: bool
  cr_enable_sni :: bool
  cr_jls :: "bytes \<times> bytes"

text \<open>The library calls of \<open>set_config\<close>.\<close>

record ('c, 'p) client_setup =
  cs_load_certs :: "string list \<Rightarrow> bool \<Rightarrow> string + 'c"
  cs_crypto_provider :: "'p crypto_provider option"
  cs_initial_cipher_suite :: "('c, 'p) client_crypto \<Rightarrow> string + unit"
  cs_transport_default :: transport
  cs_lookup_host :: "bytes \<Rightarrow> u16 \<Rightarrow> io_error + socket_addr list"
  cs_bind :: "ip_addr \<Rightarrow> io_error + unit"
  cs_endpoint :: "io_error + unit"

fun client_controller :: "client_congestion \<Rightarrow> congestion_controller" where
  "client_controller ClientCubic = Cubic"
| "client_controller ClientNewReno = NewReno"
| "client_controller ClientBbr = Bbr"

definition client_transport :: "transport \<Rightarrow> 'u relay_config \<Rightarrow> transport" where
  "client_transport d cfg =
     (let t = d\<lparr>tp_max_concurrent_bidi_streams := DEFAULT_CONCURRENT_STREAMS,
         tp_max_concurrent_uni_streams := DEFAULT_CONCURRENT_STREAMS, tp_send_window := rl_send_window cfg,
         tp_stream_receive_window := rl_receive_window cfg, tp_max_idle_timeout := None,
         tp_initial_mtu := rl_initial_mtu cfg, tp_min_mtu := rl_min_mtu cfg\<rparr>;
       t = (if \<not> rl_gso cfg then t\<lparr>tp_segmentation_offload := False\<rparr> else t);
       t = (if \<not> rl_pmtu cfg then t\<lparr>tp_mtu_discovery := False\<rparr> else t)
     in t\<lparr>tp_congestion := (client_controller (rl_congestion_control cfg), None)\<rparr>)"

definition client_crypto_of ::
    "'p crypto_provider option \<Rightarrow> 'c \<Rightarrow> 'u relay_config \<Rightarrow> ('c, 'p) client_crypto outcome" where
  "client_crypto_of provider certs cfg =
     outcome_bind (if rl_skip_cert_verify cfg
         then outcome_bind (skip_verification_new provider) (\<lambda>p. Returns (SkipServerVerification p))
         else Returns (RootCertificates certs)) (\<lambda>verifier.
     Returns \<lparr>cr_verifier = verifier, cr_alpn_protocols = rl_alpn cfg, cr_enable_early_data = True,
       cr_enable_sni = (\<not> rl_disable_sni cfg), cr_jls = (rl_jls_pwd cfg, rl_jls_iv cfg)\<rparr>)"

text \<open>\<open>set_config\<close>; on success also what the endpoint is configured with and the address it is bound to.\<close>

definition client_set_config ::
    "('c, 'p) client_setup \<Rightarrow> 'u relay_config \<Rightarrow> ('u, 'q) client_statics \<Rightarrow>
      ('m client_error + ('c, 'p) client_crypto \<times> transport \<times> ip_addr) outcome \<times> ('u, 'q) client_statics" where
  "client_set_config S cfg s =
     (case map_err ClientOther (cs_load_certs S (rl_certificates cfg) (rl_disable_native_certs cfg)) of
        Inl e \<Rightarrow> (Returns (Inl e), s)
      | Inr certs \<Rightarrow>
     (case client_crypto_of (cs_crypto_provider S) certs cfg of
        Panics p \<Rightarrow> (Panics p, s)
      | Returns crypto \<Rightarrow>
     (let server = \<lparr>sv_domain = fst (rl_server cfg), sv_port = snd (rl_server cfg), sv_ip = rl_ip cfg\<rparr> in
     (case map_err ClientOther (cs_initial_cipher_suite S crypto) of
        Inl e \<Rightarrow> (Returns (Inl e), s)
      | Inr _ \<Rightarrow>
     (case server_resolve (cs_lookup_host S) server of
        Inl e \<Rightarrow> (Returns (Inl e), s)
      | Inr [] \<Rightarrow> (Panics UnwrapNone, s)
      | Inr (addr # _) \<Rightarrow>
     (let unspecified = (if ip_is_v6 (socket_addr_ip addr) then IpV6 (Ipv6 0 0 0 0 0 0 0 0) else IpV4 (Ipv4 0 0 0 0)) in
     (case map_err ClientIo (try_bind (cs_bind S unspecified) (\<lambda>_. cs_endpoint S)) of
        Inl e \<Rightarrow> (Returns (Inl e), s)
      | Inr _ \<Rightarrow>
          if st_endpoint s \<noteq> None then (Panics UnwrapErr, s)
          else (Returns (Inr (crypto, client_transport (cs_transport_default S) cfg, unspecified)),
            s\<lparr>st_endpoint := Some \<lparr>en_server = server, en_uuid = rl_uuid cfg, en_password = rl_password cfg,
              en_udp_relay_mode = rl_udp_relay_mode cfg, en_zero_rtt_handshake = rl_zero_rtt_handshake cfg,
              en_heartbeat = rl_heartbeat cfg, en_gc_interval = rl_gc_interval cfg,
              en_gc_lifetime = rl_gc_lifetime cfg, en_server_name = rl_server_name cfg\<rparr>,
              st_timeout := rl_timeout cfg\<rparr>))))))))"

section \<open>The main function\<close>

text \<open>It exits with a code, or runs the SOCKS5 server. \<open>logs\<close> tells whether the level is known and the subscriber set.\<close>

definition client_main ::
    "(bytes \<Rightarrow> bool) \<Rightarrow> ('c, 'p) client_setup \<Rightarrow> tcp_sockets \<Rightarrow> 'e config_error + 'u client_config \<Rightarrow>
      ('u, 'q) client_statics \<times> socks_statics \<Rightarrow>
      (('u, 'q) client_statics \<times> socks_statics) main_result outcome" where
  "client_main logs S T cfg st = (case st of (s, x) \<Rightarrow>
     (case cfg of
        Inl err \<Rightarrow> Returns (Exits (exit_code err))
      | Inr cfg \<Rightarrow>
          if \<not> logs (cf_log_level cfg) then Returns (Exits 1)
          else (case (client_set_config S (cf_relay cfg) s ::
              (unit client_error + ('c, 'p) client_crypto \<times> transport \<times> ip_addr) outcome \<times> ('u, 'q) client_statics) of
            (Panics p, s) \<Rightarrow> Panics p
          | (Returns (Inl _), s) \<Rightarrow> Returns (Exits 1)
          | (Returns (Inr _), s) \<Rightarrow>
              (let local = cf_local cfg in
              (case (socks_set_config T (lo_server local) (lo_dual_stack local) (lo_max_packet_size local)
                  (lo_username local) (lo_password local) x :: (unit client_error + unit) outcome \<times> socks_statics) of
                (Panics p, x) \<Rightarrow> Panics p
              | (Returns (Inl _), x) \<Rightarrow> Returns (Exits 1)
              | (Returns (Inr _), x) \<Rightarrow> Returns (Runs (s, x)))))))"

section \<open>The statics while the client runs\<close>

text \<open>
  What happens to the statics of the connection once the SOCKS5 server runs: any handler of a SOCKS5 client does any of its
  operations on them, in any order, or the tasks of the connection, which share it, change it.
\<close>

inductive statics_step ::
    "('u, 'q, 'e, 's, 'r) client_lib \<Rightarrow> ('u, 'q) client_statics \<Rightarrow> ('u, 'q) client_statics \<Rightarrow> bool"
  for B :: "('u, 'q, 'e, 's, 'r) client_lib"
  where
  statics_connect: "statics_step B s (snd (snd (socks_connect_open B (g :: ('q, nat) getting) addr replied (sock, s))))"
| statics_relayed: "statics_step B s (snd (snd (socks_connect_close replied copied (sock, s))))"
| statics_forward: "statics_step B s (snd (associate_forward B (g :: ('q, nat) getting) assoc_id pkt s))"
| statics_associate_close: "statics_step B s (snd (snd (associate_close B (g :: ('q, nat) getting) assoc_id (u, s))))"
| statics_tasks: "st_connection s = Some c \<Longrightarrow> statics_step B s (s\<lparr>st_connection := Some c'\<rparr>)"

section \<open>Properties\<close>

lemma client_set_config_done:
  assumes "client_set_config S cfg s = (Returns (Inr built) :: ('m client_error + _) outcome, s')"
  shows "st_endpoint s = None \<and> s' = s\<lparr>st_endpoint := Some \<lparr>en_server = \<lparr>sv_domain = fst (rl_server cfg),
      sv_port = snd (rl_server cfg), sv_ip = rl_ip cfg\<rparr>, en_uuid = rl_uuid cfg, en_password = rl_password cfg,
      en_udp_relay_mode = rl_udp_relay_mode cfg, en_zero_rtt_handshake = rl_zero_rtt_handshake cfg,
      en_heartbeat = rl_heartbeat cfg, en_gc_interval = rl_gc_interval cfg, en_gc_lifetime = rl_gc_lifetime cfg,
      en_server_name = rl_server_name cfg\<rparr>, st_timeout := rl_timeout cfg\<rparr>"
  using assms
  by (auto simp: client_set_config_def Let_def split: outcome.splits sum.splits list.splits if_splits)

lemma socks_set_config_done:
  assumes "socks_set_config T addr dual sz user pass x = (Returns (Inr ()) :: ('m client_error + unit) outcome, x')"
  shows "su_map (sx_udp x') = Some Map.empty \<and> (\<exists>srv. sx_server x' = Some srv \<and> sr_next_assoc_id srv = 0)"
  using assms
  by (auto simp: socks_set_config_def socks_server_new_def Let_def try_bind_eq_Inr split: sum.splits if_splits)

text \<open>No operation changes what \<open>set_config\<close> stored, so getting a connection finds the endpoint.\<close>

definition same_config :: "('u, 'q) client_statics \<Rightarrow> ('u, 'q) client_statics \<Rightarrow> bool" where
  "same_config s s' \<longleftrightarrow> st_endpoint s' = st_endpoint s \<and> st_timeout s' = st_timeout s"

lemma same_config_refl [simp]: "same_config s s"
  by (simp add: same_config_def)

lemma attempt_connect_keeps:
  "attempt_connect a s = (r, s') \<Longrightarrow> same_config s s' \<and> (st_endpoint s \<noteq> None \<longrightarrow> \<not> panics r)"
  by (auto simp: attempt_connect_def same_config_def split: option.splits sum.splits)

lemma get_conn_keeps:
  fixes r :: "('m client_error + ('u, 'q) client_conn) outcome"
  assumes "get_conn locked a1 a2 s = (r, s')"
  shows "same_config s s' \<and> (st_endpoint s \<noteq> None \<longrightarrow> \<not> panics r)"
proof (cases "st_connection s")
  case None
  obtain r1 :: "('m client_error + ('u, 'q) client_conn) outcome" and s1
    where first: "attempt_connect a1 s = (r1, s1)" by (rule prod.exhaust)
  note keeps = attempt_connect_keeps [OF first]
  have second: "same_config s s2 \<and> (st_endpoint s \<noteq> None \<longrightarrow> \<not> panics r2)"
    if "attempt_connect a2 s1 = (r2, s2)" for r2 :: "('m client_error + ('u, 'q) client_conn) outcome" and s2
    using attempt_connect_keeps [OF that] keeps by (simp add: same_config_def)
  from assms None keeps show ?thesis
    by (auto simp: get_conn_def first split: outcome.splits sum.splits if_splits dest: second)
next
  case (Some conn)
  with assms show ?thesis
    by (auto simp: get_conn_def same_config_def split: if_splits dest: attempt_connect_keeps)
qed

lemma on_connection_keeps:
  fixes f :: "('u, 'q) client_conn \<Rightarrow> ('m client_error + 'a) outcome \<times> ('u, 'q) client_conn"
  shows "same_config s (snd (on_connection g f s))"
proof -
  obtain locked a1 a2 where g: "g = (locked, a1, a2)" by (cases g)
  obtain r :: "('m client_error + ('u, 'q) client_conn) outcome" and s1
    where got: "get_conn locked a1 a2 s = (r, s1)" by (rule prod.exhaust)
  from get_conn_keeps [OF this] show ?thesis
    by (auto simp: on_connection_def g got same_config_def split: outcome.split sum.split prod.split)
qed

lemma on_connection_same: "on_connection g f s = (r, s') \<Longrightarrow> same_config s s'"
  using on_connection_keeps [of s g f] by simp

lemma statics_step_keeps: "statics_step B s s' \<Longrightarrow> same_config s s'"
proof (induction rule: statics_step.induct)
  case (statics_connect s g addr replied sock)
  show ?case
    by (auto simp: socks_connect_open_def dest: on_connection_same split: sum.split outcome.split prod.split)
next
  case (statics_relayed s replied copied sock)
  show ?case by (simp add: socks_connect_close_def Let_def same_config_def split: sum.split)
next
  case (statics_forward s g assoc_id pkt)
  show ?case by (simp add: associate_forward_def on_connection_keeps split: prod.split)
next
  case (statics_associate_close s g assoc_id u)
  show ?case
    by (auto simp: associate_close_def dest: on_connection_same split: outcome.split prod.split)
next
  case (statics_tasks s c c')
  show ?case by (simp add: same_config_def)
qed

interpretation statics: invariant_system "same_config s0" "statics_step B" "same_config s0"
  by unfold_locales (auto simp: same_config_def dest: statics_step_keeps)

text \<open>
  C34: a client that runs is set up, and stays so. When \<open>main\<close> gets as far as serving, the shared endpoint has the
  server, user, mode, durations and name of the configuration, there is no connection yet, and the tables of
  the SOCKS5 server are those its run starts from. Whatever the handlers of its SOCKS5 clients and the tasks of its
  connections then do to the statics, the endpoint and the timeout stay, so getting a connection never panics;
  nor does accepting a SOCKS5 client, after any of the server's steps.
\<close>

theorem running_client_is_set_up:
  fixes s :: "('u, 'q) client_statics" and B :: "('u, 'q, 'e, 's, 'r) client_lib"
  assumes "client_main logs S T (Inr cfg) (\<lparr>st_endpoint = None, st_connection = None, st_timeout = 0\<rparr>, demo) =
    Returns (Runs (s, x))"
  shows "s = \<lparr>st_endpoint = Some \<lparr>en_server = \<lparr>sv_domain = fst (rl_server (cf_relay cfg)),
        sv_port = snd (rl_server (cf_relay cfg)), sv_ip = rl_ip (cf_relay cfg)\<rparr>, en_uuid = rl_uuid (cf_relay cfg),
      en_password = rl_password (cf_relay cfg), en_udp_relay_mode = rl_udp_relay_mode (cf_relay cfg),
      en_zero_rtt_handshake = rl_zero_rtt_handshake (cf_relay cfg), en_heartbeat = rl_heartbeat (cf_relay cfg),
      en_gc_interval = rl_gc_interval (cf_relay cfg), en_gc_lifetime = rl_gc_lifetime (cf_relay cfg),
      en_server_name = rl_server_name (cf_relay cfg)\<rparr>, st_connection = None, st_timeout = rl_timeout (cf_relay cfg)\<rparr> \<and>
    (\<forall>s'. (statics_step B)\<^sup>*\<^sup>* s s' \<longrightarrow> st_endpoint s' = st_endpoint s \<and> st_timeout s' = st_timeout s \<and>
       \<not> panics (fst (get_conn locked a1 a2 s' :: ('m client_error + ('u, 'q) client_conn) outcome \<times> _))) \<and>
    (\<forall>w. assoc_step\<^sup>*\<^sup>* \<lparr>aw_statics = x, aw_started = 0, aw_tasks = []\<rparr> w \<longrightarrow>
       reachable assoc_start assoc_step w \<and> \<not> panics (fst (socks_accept handshake (aw_statics w))))"
proof -
  let ?s0 = "\<lparr>st_endpoint = None, st_connection = None, st_timeout = 0\<rparr> :: ('u, 'q) client_statics"
  from assms obtain built where
    set: "client_set_config S (cf_relay cfg) ?s0 = (Returns (Inr built) :: (unit client_error + _) outcome, s)"
    and socks: "socks_set_config T (lo_server (cf_local cfg)) (lo_dual_stack (cf_local cfg))
      (lo_max_packet_size (cf_local cfg)) (lo_username (cf_local cfg)) (lo_password (cf_local cfg)) demo =
      (Returns (Inr ()) :: (unit client_error + unit) outcome, x)"
    by (auto simp: client_main_def Let_def split: if_splits prod.splits outcome.splits sum.splits)
  note s = client_set_config_done [OF set, THEN conjunct2]
  have start: "reachable assoc_start assoc_step \<lparr>aw_statics = x, aw_started = 0, aw_tasks = []\<rparr>"
    using socks_set_config_done [OF socks] by (intro reachable_init) (simp add: assoc_start_def)
  have "reachable assoc_start assoc_step w \<and> \<not> panics (fst (socks_accept handshake (aw_statics w)))"
    if "assoc_step\<^sup>*\<^sup>* \<lparr>aw_statics = x, aw_started = 0, aw_tasks = []\<rparr> w" for w
  proof -
    have reach: "reachable assoc_start assoc_step w"
      using that by (induction rule: rtranclp_induct) (auto intro: start reachable_step)
    then have "sx_server (aw_statics w) \<noteq> None"
      using assoc.reachable_inv [of w] by (auto simp: assoc_ok_def)
    with reach show ?thesis
      by (auto simp: socks_accept_def next_assoc_id_def split: sum.splits socks_command.splits)
  qed
  moreover have "st_endpoint s' = st_endpoint s \<and> st_timeout s' = st_timeout s \<and>
      \<not> panics (fst (get_conn locked a1 a2 s' :: ('m client_error + ('u, 'q) client_conn) outcome \<times> _))" if "(statics_step B)\<^sup>*\<^sup>* s s'" for s'
  proof -
    have same: "same_config s s'" by (rule statics.steps_inv [OF that]) simp
    then have "st_endpoint s' \<noteq> None" by (simp add: same_config_def s)
    with same get_conn_keeps [OF surjective_pairing, where locked = locked and ?a1.0 = a1 and ?a2.0 = a2 and s = s' and ?'m = 'm] show ?thesis by (simp add: same_config_def)
  qed
  ultimately show ?thesis by (simp add: s)
qed

definition demo_setup :: "(nat, nat) client_setup" where
  "demo_setup = \<lparr>cs_load_certs = (\<lambda>paths _. Inr (length paths)), cs_crypto_provider = None, cs_initial_cipher_suite = (\<lambda>_. Inr ()),
     cs_transport_default = \<lparr>tp_max_concurrent_bidi_streams = 100, tp_max_concurrent_uni_streams = 100,
       tp_send_window = 10, tp_stream_receive_window = 10, tp_max_idle_timeout = Some 30, tp_initial_mtu = 1200,
       tp_min_mtu = 1200, tp_segmentation_offload = True, tp_mtu_discovery = True, tp_congestion = (Cubic, None)\<rparr>,
     cs_lookup_host = (\<lambda>_ port. Inr [SocketV4 (Ipv4 10 0 0 1) port]), cs_bind = (\<lambda>_. Inr ()), cs_endpoint = Inr ()\<rparr>"

definition demo_raw :: "bytes raw_relay" where
  "demo_raw = \<lparr>rr_server = Some (ascii ''a:443''), rr_uuid = Some (replicate 16 1), rr_password = Some [1], rr_ip = None,
     rr_certificates = None, rr_udp_relay_mode = Some (ascii ''QUIC''), rr_congestion_control = None, rr_alpn = None,
     rr_zero_rtt_handshake = None, rr_disable_sni = None, rr_timeout = None, rr_heartbeat = None,
     rr_disable_native_certs = None, rr_send_window = None, rr_receive_window = None, rr_initial_mtu = None,
     rr_min_mtu = None, rr_gso = None, rr_pmtu = None, rr_gc_interval = None, rr_gc_lifetime = None,
     rr_skip_cert_verify = None, rr_jls_pwd = Some [2], rr_jls_iv = Some [3], rr_server_name = None\<rparr>"

definition demo_config :: "bytes client_config" where
  "demo_config = the (client_config_of_raw (\<lambda>_. Inl []) (Some demo_raw, Some \<lparr>ro_server =
     Some (SocketV4 (Ipv4 127 0 0 1) 1080), ro_username = None, ro_password = None, ro_dual_stack = None,
     ro_max_packet_size = None\<rparr>, None))"

lemma demo_config_fields:
  "cf_log_level demo_config = ascii ''info''" "lo_username (cf_local demo_config) = None"
  "lo_password (cf_local demo_config) = None" "rl_udp_relay_mode (cf_relay demo_config) = RelayQuic"
    "\<not> rl_skip_cert_verify (cf_relay demo_config)"
proof -
  have server: "deserialize_server (ascii ''a:443'') = Inr (ascii ''a'', 443)"
    by (simp add: deserialize_server_def rsplit_once_def ascii_def u16_from_str_def to_digit_def)
  have mode: "udp_relay_mode_from_str (ascii ''QUIC'') = Inr RelayQuic"
    by (simp add: udp_relay_mode_from_str_def ascii_def eq_ignore_ascii_case_def ascii_lower_def)
  show "cf_log_level demo_config = ascii ''info''" "lo_username (cf_local demo_config) = None"
    "lo_password (cf_local demo_config) = None" "rl_udp_relay_mode (cf_relay demo_config) = RelayQuic"
    "\<not> rl_skip_cert_verify (cf_relay demo_config)"
    by (simp_all add: demo_config_def client_config_of_raw_def demo_raw_def relay_of_raw_def parsed_def parsed_or_def
        server mode or_default_def local_of_raw_def relay_defaults_def Let_def)
qed

definition demo_main :: "((bytes, bytes list) client_statics \<times> socks_statics) main_result outcome" where
  "demo_main = client_main (\<lambda>level. level = ascii ''info'') demo_setup demo_listener (Inr demo_config :: unit config_error + _)
     (\<lparr>st_endpoint = None, st_connection = None, st_timeout = 0\<rparr>, demo_statics)"

theorem running_client_is_set_up_witness:
  "\<exists>s x. demo_main = Returns (Runs (s, x)) \<and> st_connection s = None \<and>
     map_option en_udp_relay_mode (st_endpoint s) = Some RelayQuic \<and>
     \<not> panics (fst (get_conn True (None :: (bytes list, nat) quinn_endpoint option) None
       (snd (associate_forward demo_streams (True, None :: (bytes list, nat) quinn_endpoint option, None) 1
         ([7], SocksDomain [97] 53) s)) :: (unit client_error + (bytes, bytes list) client_conn) outcome \<times> _))"
proof -
  note config = demo_config_fields
  have "\<exists>s x. demo_main = Returns (Runs (s, x))"
    unfolding demo_main_def client_main_def client_set_config_def socks_set_config_def socks_server_new_def
    by (simp add: config client_crypto_of_def demo_setup_def demo_listener_def demo_statics_def server_resolve_def Let_def
        split: option.split)
  then obtain s x where main: "demo_main = Returns (Runs (s, x))"
    by blast
  note ready = running_client_is_set_up [OF main [unfolded demo_main_def], where B = demo_streams]
  have "st_connection s = None" by (simp add: ready [THEN conjunct1])
  moreover have "map_option en_udp_relay_mode (st_endpoint s) = Some RelayQuic"
    by (simp add: ready [THEN conjunct1] config)
  moreover have "(statics_step demo_streams)\<^sup>*\<^sup>* s (snd (associate_forward demo_streams
      (True, None :: (bytes list, nat) quinn_endpoint option, None) 1 ([7], SocksDomain [97] 53) s))"
    by (intro r_into_rtranclp statics_forward)
  with ready have "\<not> panics (fst (get_conn True (None :: (bytes list, nat) quinn_endpoint option) None
       (snd (associate_forward demo_streams (True, None :: (bytes list, nat) quinn_endpoint option, None) 1
         ([7], SocksDomain [97] 53) s)) :: (unit client_error + (bytes, bytes list) client_conn) outcome \<times> _))"
    by blast
  ultimately show ?thesis using main by blast
qed

end
