(* ===== verification/Tls_Files.thy ===== *)
theory Tls_Files
  imports Config_Server Client_Start
begin

text \<open>
  The certificate files of both programs: \<^verbatim>\<open>tuic-server/src/tls.rs\<close> with the watcher and \<open>log_err\<close> of
  \<^verbatim>\<open>tuic-server/src/utils.rs\<close>, and \<open>load_certs\<close> of \<^verbatim>\<open>tuic-client/src/utils.rs\<close>. The file system is an argument of
  every call that reads it, since it changes while the server runs; PEM files, keys and root stores are library
  code. An error is the text of its outermost context.
\<close>

section \<open>The extension of a path\<close>

text \<open>\<open>Path::extension\<close>: what follows the last dot of the file name, unless only the dot comes before it.\<close>

fun path_components :: "string \<Rightarrow> string list" where
  "path_components [] = [[]]"
| "path_components (c # cs) = (if c = CHR ''/'' then [] # path_components cs
     else (case path_components cs of [] \<Rightarrow> [[c]] | p # ps \<Rightarrow> (c # p) # ps))"

definition path_file_name :: "string \<Rightarrow> string option" where
  "path_file_name path = (case filter (\<lambda>p. p \<noteq> [] \<and> p \<noteq> ''.'') (path_components path) of
     [] \<Rightarrow> None
   | p # ps \<Rightarrow> if last (p # ps) = ''..'' then None else Some (last (p # ps)))"

definition path_extension :: "string \<Rightarrow> string option" where
  "path_extension path = Option.bind (path_file_name path) (\<lambda>name.
     let after = rev (takeWhile (\<lambda>c. c \<noteq> CHR ''.'') (rev name)) in
     if CHR ''.'' \<notin> set name \<or> Suc (length after) = length name then None else Some after)"

lemma path_extension_cases:
  "path_extension ''/etc/tuic/cert.der'' = Some ''der''" "path_extension ''cert.pem'' = Some ''pem''"
  "path_extension ''a.b/cert'' = None" "path_extension ''.der'' = None" "path_extension ''a/cert.der/'' = Some ''der''"
  by (simp_all add: path_extension_def path_file_name_def)

section \<open>Reading chains and keys\<close>

text \<open>
  The library: the certificates of a PEM file as the parser yields them, its first private key, the private key of a DER
  file, and the signing key of a private key.
\<close>

record ('k, 's) cert_lib =
  cf_pem_certs :: "bytes \<Rightarrow> (string + bytes) list"
  cf_pem_key :: "bytes \<Rightarrow> string + 'k option"
  cf_pkcs8 :: "bytes \<Rightarrow> 'k"
  cf_signing_key :: "'k \<Rightarrow> string + 's"

type_synonym file_system = "string \<Rightarrow> io_error + bytes"
type_synonym 's certified_key = "bytes list \<times> 's"

text \<open>\<open>collect\<close> into a \<open>Result\<close>.\<close>

fun collect_results :: "('e + 'a) list \<Rightarrow> 'e + 'a list" where
  "collect_results [] = Inr []"
| "collect_results (r # rs) = try_bind r (\<lambda>x. try_bind (collect_results rs) (\<lambda>xs. Inr (x # xs)))"

definition load_cert_chain :: "('k, 's) cert_lib \<Rightarrow> file_system \<Rightarrow> string \<Rightarrow> string + bytes list" where
  "load_cert_chain L files cert_path =
     try_bind (map_err (\<lambda>_. ''failed to read certificate chain'') (files cert_path)) (\<lambda>cert_chain.
     if path_extension cert_path = Some ''der'' then Inr [cert_chain]
     else map_err (\<lambda>_. ''invalid PEM-encoded certificate'') (collect_results (cf_pem_certs L cert_chain)))"

definition load_priv_key :: "('k, 's) cert_lib \<Rightarrow> file_system \<Rightarrow> string \<Rightarrow> string + 'k" where
  "load_priv_key L files key_path =
     try_bind (map_err (\<lambda>_. ''failed to read private key'') (files key_path)) (\<lambda>key.
     if path_extension key_path = Some ''der'' then Inr (cf_pkcs8 L key)
     else try_bind (map_err (\<lambda>_. ''malformed PKCS #1 private key'') (cf_pem_key L key)) (\<lambda>key.
       case key of None \<Rightarrow> Inl ''no private keys found'' | Some key \<Rightarrow> Inr key))"

definition load_cert_key ::
    "('k, 's) cert_lib \<Rightarrow> file_system \<Rightarrow> string \<Rightarrow> string \<Rightarrow> string + 's certified_key" where
  "load_cert_key L files cert_path key_path =
     try_bind (load_cert_chain L files cert_path) (\<lambda>cert_chain.
     try_bind (load_priv_key L files key_path) (\<lambda>der.
     try_bind (cf_signing_key L der) (\<lambda>key. Inr (cert_chain, key))))"

section \<open>The resolver\<close>

text \<open>\<open>cr_poisoned\<close>: the lock around the pair is poisoned, so that neither side gets it any more.\<close>

record 's cert_resolver =
  cr_cert_path :: string
  cr_key_path :: string
  cr_cert_key :: "'s certified_key"
  cr_poisoned :: bool

text \<open>\<open>CertResolver::new\<close>, which also spawns \<open>start_watch\<close>.\<close>

definition cert_resolver_new ::
    "('k, 's) cert_lib \<Rightarrow> file_system \<Rightarrow> string \<Rightarrow> string \<Rightarrow> string + 's cert_resolver" where
  "cert_resolver_new L files cert_path key_path =
     try_bind (load_cert_key L files cert_path key_path) (\<lambda>cert_key.
     Inr \<lparr>cr_cert_path = cert_path, cr_key_path = key_path, cr_cert_key = cert_key, cr_poisoned = False\<rparr>)"

definition cert_resolve :: "'s cert_resolver \<Rightarrow> 's certified_key option" where
  "cert_resolve R = (if cr_poisoned R then None else Some (cr_cert_key R))"

section \<open>Watching the certificate\<close>

text \<open>
  The watcher's callback: whether it sends on the channel. Sending fails when the receiver is gone, and the
  \<open>unwrap\<close> panics on the watcher's thread.
\<close>

datatype event_kind = EventCreate | EventModify | EventOther

definition watcher_event :: "'e + event_kind \<Rightarrow> 'f + unit \<Rightarrow> bool outcome" where
  "watcher_event res sent = (case res of
     Inl _ \<Rightarrow> Returns False
   | Inr kind \<Rightarrow> if kind = EventCreate \<or> kind = EventModify
       then (case sent of Inl _ \<Rightarrow> Panics UnwrapErr | Inr _ \<Rightarrow> Returns True) else Returns False)"

text \<open>What \<open>recv\<close> returns: a message, or an error, which is also how the channel says that messages were missed.\<close>

datatype recv_result = Received | RecvLagged | RecvClosed

text \<open>
  The loop, on what \<open>recv\<close> returned in each turn and the files as they are then. The result is \<open>None\<close> while it waits
  for the next event.
\<close>

fun watch_loop ::
    "('k, 's) cert_lib \<Rightarrow> (recv_result \<times> file_system) list \<Rightarrow> 's cert_resolver \<Rightarrow>
      (string + unit) option \<times> 's cert_resolver" where
  "watch_loop L [] R = (None, R)"
| "watch_loop L ((received, files) # turns) R =
     (if received \<noteq> Received then (Some (Inr ()), R)
      else (case load_cert_key L files (cr_cert_path R) (cr_key_path R) of
        Inl e \<Rightarrow> (Some (Inl e), R)
      | Inr cert_key \<Rightarrow> watch_loop L turns (if cr_poisoned R then R else R\<lparr>cr_cert_key := cert_key\<rparr>)))"

text \<open>\<open>created\<close> and \<open>watched\<close> are the results of making the watcher and of watching the certificate's path.\<close>

definition start_watch ::
    "('k, 's) cert_lib \<Rightarrow> string + unit \<Rightarrow> string + unit \<Rightarrow> (recv_result \<times> file_system) list \<Rightarrow> 's cert_resolver \<Rightarrow>
      (string + unit) option \<times> 's cert_resolver" where
  "start_watch L created watched turns R = (case try_bind created (\<lambda>_. watched) of
     Inl e \<Rightarrow> (Some (Inl e), R)
   | Inr _ \<Rightarrow> watch_loop L turns R)"

text \<open>\<open>log_err\<close>, which is all that happens with the result.\<close>

definition log_err :: "'e + 'a \<Rightarrow> 'a option" where
  "log_err r = (case r of Inr v \<Rightarrow> Some v | Inl e \<Rightarrow> None)"

lemma watch_loop_good:
  assumes "\<forall>(received, files) \<in> set good. received = Received \<and>
      \<not> isl (load_cert_key L files (cr_cert_path R) (cr_key_path R))" and "\<not> cr_poisoned R"
  shows "watch_loop L (good @ rest) R = watch_loop L rest (R\<lparr>cr_cert_key := last (cr_cert_key R #
    map (\<lambda>(_, files). projr (load_cert_key L files (cr_cert_path R) (cr_key_path R))) good)\<rparr>)"
  using assms
proof (induction good arbitrary: R)
  case Nil
  then show ?case by simp
next
  case (Cons turn good)
  obtain received files where turn: "turn = (received, files)" by (rule prod.exhaust)
  from Cons.prems(1) turn obtain ck where ck: "load_cert_key L files (cr_cert_path R) (cr_key_path R) = Inr ck"
    and "received = Received"
    by (cases "load_cert_key L files (cr_cert_path R) (cr_key_path R)") (auto simp del: split_paired_All)
  with turn Cons.prems Cons.IH [of "R\<lparr>cr_cert_key := ck\<rparr>"] show ?case by auto
qed

section \<open>Properties\<close>

text \<open>
  C30: the server answers every handshake with a chain and a key that were loaded together, the last ones that could be. After events
  that each found the two files readable, the resolver serves the pair of the last event; the loop is then still
  watching, unless the next turn finds a message missed or a file that cannot be loaded: this ends the watch, and
  the pair is served for good, whatever later turns would bring.
\<close>

theorem resolver_serves_last_good_pair:
  assumes "cert_resolver_new L start cert key = Inr R"
    and "\<forall>(received, files) \<in> set good. received = Received \<and> \<not> isl (load_cert_key L files cert key)"
    and "\<And>received files later. rest = (received, files) # later \<Longrightarrow>
      received \<noteq> Received \<or> isl (load_cert_key L files cert key)"
    and "start_watch L (Inr ()) (Inr ()) (good @ rest) R = (ended, R')"
  shows "cert_resolve R' = Some (projr (last (load_cert_key L start cert key #
      map (\<lambda>(_, files). load_cert_key L files cert key) good))) \<and> (ended = None \<longleftrightarrow> rest = [])"
proof -
  obtain ck where ck: "load_cert_key L start cert key = Inr ck"
    and R: "R = \<lparr>cr_cert_path = cert, cr_key_path = key, cr_cert_key = ck, cr_poisoned = False\<rparr>"
    using assms(1) by (auto simp: cert_resolver_new_def try_bind_eq_Inr)
  define last_ck where "last_ck = last (ck # map (\<lambda>(_, files). projr (load_cert_key L files cert key)) good)"
  have run: "watch_loop L rest (R\<lparr>cr_cert_key := last_ck\<rparr>) = (ended, R')"
    using watch_loop_good [of good L R rest] assms(2,4) by (simp add: start_watch_def R last_ck_def)
  have "R' = R\<lparr>cr_cert_key := last_ck\<rparr> \<and> (ended = None \<longleftrightarrow> rest = [])"
  proof (cases rest)
    case Nil
    with run show ?thesis by simp
  next
    case (Cons turn later)
    obtain received files where "turn = (received, files)" by (rule prod.exhaust)
    with Cons assms(3) run show ?thesis by (auto simp: R split: if_splits sum.splits)
  qed
  moreover have "last_ck = projr (last (load_cert_key L start cert key #
      map (\<lambda>(_, files). load_cert_key L files cert key) good))"
    by (cases good rule: rev_cases) (auto simp: last_ck_def ck split: prod.split)
  ultimately show ?thesis by (simp add: cert_resolve_def R)
qed

definition demo_cert_lib :: "(bytes, bytes) cert_lib" where
  "demo_cert_lib = \<lparr>cf_pem_certs = (\<lambda>bs. [Inr bs]), cf_pem_key = (\<lambda>bs. Inr (Some bs)), cf_pkcs8 = (\<lambda>bs. bs),
     cf_signing_key = (\<lambda>k. Inr k)\<rparr>"

definition demo_files :: "bytes \<Rightarrow> bytes \<Rightarrow> file_system" where
  "demo_files cert key path = (if path = ''c.pem'' then Inr cert else if path = ''k.der'' then Inr key
     else Inl (NotFound ''no such file''))"

theorem resolver_serves_last_good_pair_witness:
  "let R = \<lparr>cr_cert_path = ''c.pem'', cr_key_path = ''k.der'', cr_cert_key = ([[1]], [2]), cr_poisoned = False\<rparr>;
     p = start_watch demo_cert_lib (Inr ()) (Inr ()) [(Received, demo_files [3] [4]),
       (RecvLagged, demo_files [5] [6]), (Received, demo_files [7] [8])] R
   in cert_resolve (snd p) = Some ([[3]], [4]) \<and> fst p \<noteq> None"
proof -
  let ?R = "\<lparr>cr_cert_path = ''c.pem'', cr_key_path = ''k.der'', cr_cert_key = ([[1]], [2]), cr_poisoned = False\<rparr>"
  let ?good = "[(Received, demo_files [3] [4])]"
  let ?rest = "[(RecvLagged, demo_files [5] [6]), (Received, demo_files [7] [8])]"
  have load: "load_cert_key demo_cert_lib (demo_files c k) ''c.pem'' ''k.der'' = Inr ([c], k)" for c k
    by (simp add: load_cert_key_def load_cert_chain_def load_priv_key_def demo_cert_lib_def demo_files_def
        path_extension_def path_file_name_def)
  then have new: "cert_resolver_new demo_cert_lib (demo_files [1] [2]) ''c.pem'' ''k.der'' = Inr ?R"
    by (simp add: cert_resolver_new_def)
  have good: "\<forall>(received, files) \<in> set ?good. received = Received \<and>
      \<not> isl (load_cert_key demo_cert_lib files ''c.pem'' ''k.der'')" by (simp add: load)
  have ends: "received \<noteq> Received \<or> isl (load_cert_key demo_cert_lib files ''c.pem'' ''k.der'')"
    if "?rest = (received, files) # later" for received files later using that by auto
  have run: "start_watch demo_cert_lib (Inr ()) (Inr ()) (?good @ ?rest) ?R =
      (fst (start_watch demo_cert_lib (Inr ()) (Inr ()) (?good @ ?rest) ?R),
       snd (start_watch demo_cert_lib (Inr ()) (Inr ()) (?good @ ?rest) ?R))" by simp
  from resolver_serves_last_good_pair [OF new good ends run] show ?thesis by (simp add: load Let_def)
qed

text \<open>A server that is to use certificate files does not start when they cannot be loaded.\<close>

lemma server_init_certificates:
  assumes "\<not> tls_self_sign (sf_tls cfg)"
    and "load_cert_key L files (tls_certificate (sf_tls cfg)) (tls_private_key (sf_tls cfg)) = Inl e"
  shows "server_init (S\<lparr>su_resolver := cert_resolver_new L files\<rparr>) cfg = Inl (ServerOther e)"
  using assms by (simp add: server_init_def cert_resolver_new_def)

section \<open>The client's root certificates\<close>

text \<open>Root stores and the native certificates; \<open>add\<close> may refuse a certificate, which the client ignores.\<close>

record 't root_lib =
  rt_empty :: 't
  rt_add_parsable :: "bytes list \<Rightarrow> 't \<Rightarrow> 't"
  rt_add :: "bytes \<Rightarrow> 't \<Rightarrow> (string + unit) \<times> 't"
  rt_native :: "bytes list"

fun load_cert_paths ::
    "('k, 's) cert_lib \<Rightarrow> 't root_lib \<Rightarrow> file_system \<Rightarrow> string list \<Rightarrow> 't \<Rightarrow> string + 't" where
  "load_cert_paths L T files [] certs = Inr certs"
| "load_cert_paths L T files (cert_path # paths) certs =
     try_bind (map_err (\<lambda>_. ''failed to read certificate chain'') (files cert_path)) (\<lambda>cert_chain.
     try_bind (if path_extension cert_path = Some ''der'' then Inr [cert_chain]
       else map_err (\<lambda>_. ''invalid PEM-encoded certificate'') (collect_results (cf_pem_certs L cert_chain)))
       (\<lambda>cert_chain. load_cert_paths L T files paths (rt_add_parsable T cert_chain certs)))"

definition load_certs ::
    "('k, 's) cert_lib \<Rightarrow> 't root_lib \<Rightarrow> file_system \<Rightarrow> string list \<Rightarrow> bool \<Rightarrow> string + 't" where
  "load_certs L T files paths disable_native =
     try_bind (load_cert_paths L T files paths (rt_empty T)) (\<lambda>certs.
     Inr (if disable_native then certs else fold (\<lambda>cert certs. snd (rt_add T cert certs)) (rt_native T) certs))"

text \<open>The client reads its files as the server does, in the order given, and stops at the first that it cannot load.\<close>

lemma load_cert_paths_chains:
  "load_cert_paths L T files paths certs = try_bind (collect_results (map (load_cert_chain L files) paths))
    (\<lambda>ccs. Inr (fold (rt_add_parsable T) ccs certs))"
proof (induction paths arbitrary: certs)
  case Nil
  then show ?case by simp
next
  case (Cons path paths)
  have "load_cert_paths L T files (path # paths) certs = try_bind (load_cert_chain L files path)
      (\<lambda>chain. load_cert_paths L T files paths (rt_add_parsable T chain certs))"
    by (auto simp: load_cert_chain_def try_bind_def split: sum.split)
  with Cons.IH show ?case by (auto simp: try_bind_def split: sum.split)
qed

text \<open>
  Both programs read a certificate file the same way, and the client's trust is all or nothing. Its root store holds the
  chains of all configured files in order and then the native certificates, unless these are disabled; with a file
  that cannot be loaded the client does not start, with that file's error.
\<close>

theorem load_certs_all_or_nothing:
  "load_certs L T files paths disable_native =
    (case collect_results (map (load_cert_chain L files) paths) of
       Inl e \<Rightarrow> Inl e
     | Inr ccs \<Rightarrow> Inr (fold (\<lambda>cert certs. snd (rt_add T cert certs)) (if disable_native then [] else rt_native T)
         (fold (rt_add_parsable T) ccs (rt_empty T))))"
  by (simp add: load_certs_def load_cert_paths_chains try_bind_def split: sum.split)

section \<open>A client that checks no certificate\<close>

text \<open>
  The files are loaded all the same: one that cannot be loaded stops the client even when no certificate is checked.
\<close>

lemma skipped_files_are_loaded:
  assumes "load_certs L T files (rl_certificates cfg) (rl_disable_native_certs cfg) = Inl e"
  shows "client_set_config (S\<lparr>cs_load_certs := load_certs L T files\<rparr>) cfg s = (Returns (Inl (ClientOther e)), s)"
  using assms by (simp add: client_set_config_def)

end
