(* ===== verification/Server_Loop.thy ===== *)
theory Server_Loop
  imports Server_Handlers Config_Server
begin

text \<open>
  A server connection with its tasks: \<open>Connection::handle\<close> of \<^verbatim>\<open>tuic-server/src/connection/mod.rs\<close>, which spawns a
  handler for each stream and datagram until the connection is closed, beside the two timers. The parts of the handlers
  run in any order, and any handler may wait for any time where it awaits an answer from outside.
\<close>

section \<open>The loop\<close>

datatype ('s, 'r) loop_turn = LoopBreaks | LoopSpawns "('s, 'r) spawned" | LoopLogs log_level

text \<open>The level at which an error is logged; nothing else is done with it.\<close>

definition error_log_level :: "('u, 'm) server_error \<Rightarrow> log_level" where
  "error_log_level err = (if server_error_is_trivial err then Debug else Warn)"

text \<open>One turn of the loop, with what \<open>select!\<close> would accept.\<close>

definition handle_turn ::
    "('s, 'r) incoming \<Rightarrow> ('u, 'q, 'm) server_conn \<Rightarrow> ('s, 'r) loop_turn \<times> ('u, 'q, 'm) server_conn" where
  "handle_turn inc c =
     (if is_closed c then (LoopBreaks, c)
      else (case handle_incoming inc c of
        (Inr task, c) \<Rightarrow> (LoopSpawns task, c)
      | (Inl err, c) \<Rightarrow> (LoopLogs (error_log_level err), c)))"

section \<open>The parts of a handler\<close>

text \<open>
  A handler that was spawned, by what it waits for: \<open>Pending\<close> for its first turn, \<open>ReadingUni\<close> and \<open>ReadingBi\<close> for the
  header of its stream, at most until the negotiation timer fires; then, with no timer, \<open>Receiving\<close> for the payload of
  a packet, \<open>Resolving\<close> for the lookup of its target (the mode tells a stream from a datagram), and \<open>Connecting\<close> for
  the lookup, an address, or the end of the exchange of a \<open>Connect\<close>.
\<close>

datatype ('s, 'r) running =
    Pending "('s, 'r) spawned"
  | ReadingUni 'r
  | ReadingBi 's 'r
  | Receiving packet_rx "'r packet_source"
  | Resolving udp_relay_mode nat bytes address
  | Connecting "nat connecting"

text \<open>The kinds of handlers that hold a register.\<close>

fun holds_uni :: "('s, 'r) running \<Rightarrow> bool" where
  "holds_uni (Pending (SpawnUni _)) = True"
| "holds_uni (ReadingUni _) = True"
| "holds_uni (Receiving _ _) = True"
| "holds_uni (Resolving mode _ _ _) = (mode = Quic)"
| "holds_uni _ = False"

fun holds_bi :: "('s, 'r) running \<Rightarrow> bool" where
  "holds_bi (Pending (SpawnBi _ _)) = True"
| "holds_bi (ReadingBi _ _) = True"
| "holds_bi (Connecting _) = True"
| "holds_bi _ = False"

lemma holds_one: "holds_uni h \<Longrightarrow> \<not> holds_bi h"
  by (cases h rule: holds_uni.cases) auto

definition drop_register :: "('s, 'r) running \<Rightarrow> ('u, 'q, 'm) server_conn \<Rightarrow> ('u, 'q, 'm) server_conn" where
  "drop_register h c =
     (if holds_uni h then drop_uni_register c else if holds_bi h then drop_bi_register c else c)"

text \<open>
  One part of a handler, when what it waits for is there: how it ended, or what it waits for next; \<open>None\<close> while it
  waits for an authentication or exchanges bytes.
\<close>

type_synonym ended = "(stream_call list \<times> connect_error option) outcome"

definition ends_with :: "unit outcome \<Rightarrow> ended" where
  "ends_with r = outcome_bind r (\<lambda>_. Returns ([], None))"

fun handler_part ::
    "('u, 'q, 'e, 's, 'r) app \<Rightarrow> nat dialer \<Rightarrow> nat \<Rightarrow> bool \<Rightarrow> bool \<Rightarrow> ('s, 'r) running \<Rightarrow>
      ('u, 'q, ('e, 's, 'r) quinn_error) server_conn \<Rightarrow>
      (ended + ('s, 'r) running) option \<times> ('u, 'q, ('e, 's, 'r) quinn_error) server_conn" where
  "handler_part A D now timed_out pick (Pending (SpawnUni recv)) c = (case grow_uni_streams A c of
     (Panics p, c) \<Rightarrow> (Some (Inl (Panics p)), c)
   | (Returns _, c) \<Rightarrow> (Some (Inr (ReadingUni recv)), c))"
| "handler_part A D now timed_out pick (ReadingUni recv) c = (case pre_process_uni A timed_out pick recv c of
     (None, c) \<Rightarrow> (None, c)
   | (Some (Inl err), c) \<Rightarrow> (Some (Inl (ends_with (Returns ()))), conn_close (ReasonWith
       ''A serious error occurred at unidirectional stream pre-process stage '' err) c)
   | (Some (Inr task), c) \<Rightarrow> (case task of
       TaskAuthenticate auth \<Rightarrow> (Some (Inl (ends_with (Returns ()))), c)
     | TaskPacket pkt src \<Rightarrow> (case packet_begin A pkt Quic c of
         (Panics p, c) \<Rightarrow> (Some (Inl (Panics p)), c)
       | (Returns _, c) \<Rightarrow> (Some (Inr (Receiving pkt src)), c))
     | TaskDissociate assoc_id \<Rightarrow> (Some (Inl (ends_with (Returns ()))), handle_dissociate assoc_id c)
     | _ \<Rightarrow> (Some (Inl (Panics Unreachable)), c)))"
| "handler_part A D now timed_out pick (Receiving pkt src) c = (case packet_received A now pkt src c of
     (Inl r, c) \<Rightarrow> (Some (Inl (ends_with r)), c)
   | (Inr (session, payload, addr), c) \<Rightarrow> (Some (Inr (Resolving Quic session payload addr)), c))"
| "handler_part A D now timed_out pick (Resolving mode session payload addr) c =
     (Some (Inl (ends_with (Returns ()))), snd (packet_resolved A session payload addr c))"
| "handler_part A D now timed_out pick (Pending (SpawnBi send recv)) c = (case grow_bi_streams A c of
     (Panics p, c) \<Rightarrow> (Some (Inl (Panics p)), c)
   | (Returns _, c) \<Rightarrow> (Some (Inr (ReadingBi send recv)), c))"
| "handler_part A D now timed_out pick (ReadingBi send recv) c = (case pre_process_bi A timed_out pick send recv c of
     (None, c) \<Rightarrow> (None, c)
   | (Some (Inl err), c) \<Rightarrow> (Some (Inl (ends_with (Returns ()))), conn_close (ReasonWith
       ''A serious error occurred at bidirectional stream pre-process stage '' err) c)
   | (Some (Inr task), c) \<Rightarrow> (case task of
       TaskConnect conn _ _ \<Rightarrow> (Some (Inr (Connecting (LookingUp conn))), c)
     | _ \<Rightarrow> (Some (Inl (Panics Unreachable)), c)))"
| "handler_part A D now timed_out pick (Connecting h) c = (case connect_step A D h c of
     (None, c) \<Rightarrow> (None, c)
   | (Some (Inl ended), c) \<Rightarrow> (Some (Inl (Returns ended)), c)
   | (Some (Inr h), c) \<Rightarrow> (Some (Inr (Connecting h)), c))"
| "handler_part A D now timed_out pick (Pending (SpawnDatagram dg)) c = (case pre_process_datagram A pick dg c of
     (Panics p, c) \<Rightarrow> (Some (Inl (Panics p)), c)
   | (Returns None, c) \<Rightarrow> (None, c)
   | (Returns (Some (Inl err)), c) \<Rightarrow> (Some (Inl (ends_with (Returns ()))), conn_close (ReasonWith
       ''A serious error occurred at datagram pre-process stage '' err) c)
   | (Returns (Some (Inr task)), c) \<Rightarrow> (case task of
       TaskPacket pkt src \<Rightarrow> (case packet_begin A pkt Native c of
         (Panics p, c) \<Rightarrow> (Some (Inl (Panics p)), c)
       | (Returns _, c) \<Rightarrow> (case packet_received A now pkt src c of
           (Inl r, c) \<Rightarrow> (Some (Inl (ends_with r)), c)
         | (Inr (session, payload, addr), c) \<Rightarrow> (Some (Inr (Resolving Native session payload addr)), c)))
     | TaskHeartbeat \<Rightarrow> (Some (Inl (ends_with (Returns ()))), c)
     | _ \<Rightarrow> (Some (Inl (Panics Unreachable)), c)))"

text \<open>The register is dropped when the handler ends, also by a panic.\<close>

definition handler_step ::
    "('u, 'q, 'e, 's, 'r) app \<Rightarrow> nat dialer \<Rightarrow> nat \<Rightarrow> bool \<Rightarrow> bool \<Rightarrow> ('s, 'r) running \<Rightarrow>
      ('u, 'q, ('e, 's, 'r) quinn_error) server_conn \<Rightarrow>
      (ended + ('s, 'r) running) option \<times> ('u, 'q, ('e, 's, 'r) quinn_error) server_conn" where
  "handler_step A D now timed_out pick h c = (case handler_part A D now timed_out pick h c of
     (next, c) \<Rightarrow> (next, case next of Some (Inl _) \<Rightarrow> drop_register h c | _ \<Rightarrow> c))"

text \<open>At most \<open>n\<close> parts, one right after the other.\<close>

fun handler_run ::
    "('u, 'q, 'e, 's, 'r) app \<Rightarrow> nat dialer \<Rightarrow> nat \<Rightarrow> bool \<Rightarrow> bool \<Rightarrow> nat \<Rightarrow> ('s, 'r) running \<Rightarrow>
      ('u, 'q, ('e, 's, 'r) quinn_error) server_conn \<Rightarrow>
      ended option \<times> ('u, 'q, ('e, 's, 'r) quinn_error) server_conn" where
  "handler_run A D now timed_out pick 0 h c = (None, c)"
| "handler_run A D now timed_out pick (Suc n) h c = (case handler_step A D now timed_out pick h c of
     (None, c) \<Rightarrow> (None, c)
   | (Some (Inl r), c) \<Rightarrow> (Some r, c)
   | (Some (Inr h), c) \<Rightarrow> handler_run A D now timed_out pick n h c)"

section \<open>The connection with its tasks\<close>

text \<open>Of the two timers, the first fires once, the second until it finds the connection closed.\<close>

record ('u, 'q, 'm, 's, 'r) serving =
  sv_conn :: "('u, 'q, 'm) server_conn"
  sv_running :: "('s, 'r) running list"
  sv_looping :: bool
  sv_auth_timer :: bool
  sv_collecting :: bool

text \<open>The start of \<open>handle\<close>: the connection with its timers, or the level at which the failed handshake is logged.\<close>

definition server_handle ::
    "bool \<Rightarrow> ('k \<Rightarrow> 'q option) \<Rightarrow> ('k \<Rightarrow> connection_error + 'q) \<Rightarrow> 'u \<Rightarrow> 'u restful \<Rightarrow> 'k \<Rightarrow>
      log_level + ('u, 'q, 'm, 's, 'r) serving" where
  "server_handle zero_rtt_handshake into_0rtt handshake nil rest conn =
     (case server_establish zero_rtt_handshake into_0rtt handshake nil rest conn of
        Inl err \<Rightarrow> Inl (error_log_level err)
      | Inr c \<Rightarrow> Inr \<lparr>sv_conn = c, sv_running = [], sv_looping = True, sv_auth_timer = True, sv_collecting = True\<rparr>)"

text \<open>
  The steps. Any of the handlers may do its next part, when what it waits for is there; \<open>other\<close> steps are those of the
  UDP sessions, of the transport and of the RESTful interface.
\<close>

inductive other_step ::
    "('u, 'q, ('e, 's, 'r) quinn_error) server_conn \<Rightarrow> ('u, 'q, ('e, 's, 'r) quinn_error) server_conn \<Rightarrow> bool"
  where
  other_relay_packet: "other_step c (snd (relay_packet A pkt addr assoc_id c))"
| other_listener: "udp = listener_timeout sid (sc_udp_sessions c) \<or> udp = listener_leave sid (sc_udp_sessions c) \<or>
    udp = listener_finish sid (sc_udp_sessions c) \<Longrightarrow> other_step c (c\<lparr>sc_udp_sessions := udp\<rparr>)"
| other_closed: "other_step c (c\<lparr>sc_closed := Some e\<rparr>)"
| other_restful: "other_step c (c\<lparr>sc_restful := rest\<rparr>)"
| other_quic: "other_step c (c\<lparr>sc_quic := q\<rparr>)"

inductive serving_step ::
    "('u, 'q, ('e, 's, 'r) quinn_error, 's, 'r) serving \<Rightarrow> ('u, 'q, ('e, 's, 'r) quinn_error, 's, 'r) serving \<Rightarrow> bool"
  where
  serve_spawn: "sv_looping s \<Longrightarrow> handle_turn inc (sv_conn s) = (LoopSpawns task, c) \<Longrightarrow>
    serving_step s (s\<lparr>sv_conn := c, sv_running := sv_running s @ [Pending task]\<rparr>)"
| serve_log: "sv_looping s \<Longrightarrow> handle_turn (inc :: ('s, 'r) incoming) (sv_conn s) = (LoopLogs level, c) \<Longrightarrow>
    serving_step s (s\<lparr>sv_conn := c\<rparr>)"
| serve_break: "sv_looping s \<Longrightarrow> handle_turn (inc :: ('s, 'r) incoming) (sv_conn s) = (LoopBreaks, c) \<Longrightarrow>
    serving_step s (s\<lparr>sv_conn := c, sv_looping := False\<rparr>)"
| serve_handler: "sv_running s = before @ h # after \<Longrightarrow>
    handler_step A D now timed_out pick h (sv_conn s) = (Some next, c) \<Longrightarrow>
    serving_step s (s\<lparr>sv_conn := c, sv_running := before @ (case next of Inl _ \<Rightarrow> [] | Inr h' \<Rightarrow> [h']) @ after\<rparr>)"
| serve_auth_timer: "sv_auth_timer s \<Longrightarrow>
    conn_timeout_authenticate (A :: ('u, 'q, 'e, 's, 'r) app) inner (sv_conn s) = (r, c) \<Longrightarrow>
    serving_step s (s\<lparr>sv_conn := c, sv_auth_timer := False\<rparr>)"
| serve_collect: "sv_collecting s \<Longrightarrow>
    conn_collect_garbage (A :: ('u, 'q, 'e, 's, 'r) app) now inner (sv_conn s) = (r, c) \<Longrightarrow>
    serving_step s (s\<lparr>sv_conn := c, sv_collecting := (r = Returns False)\<rparr>)"
| serve_other: "other_step (sv_conn s) c \<Longrightarrow> serving_step s (s\<lparr>sv_conn := c\<rparr>)"

section \<open>Registers are counted\<close>

definition counted :: "('u, 'q, 'm, 's, 'r) serving \<Rightarrow> bool" where
  "counted s \<longleftrightarrow> sc_uni_stream_cnt (sv_conn s) = length (filter holds_uni (sv_running s)) \<and>
     sc_bi_stream_cnt (sv_conn s) = length (filter holds_bi (sv_running s))"

text \<open>What an operation does to the two counters, to the close reason and to the mode.\<close>

definition same_streams :: "('u, 'q, 'm) server_conn \<Rightarrow> ('u, 'q, 'm) server_conn \<Rightarrow> bool" where
  "same_streams c c' \<longleftrightarrow> sc_uni_stream_cnt c' = sc_uni_stream_cnt c \<and> sc_bi_stream_cnt c' = sc_bi_stream_cnt c \<and>
     (is_closed c \<longrightarrow> is_closed c') \<and> (sc_udp_relay_mode c \<noteq> None \<longrightarrow> sc_udp_relay_mode c' \<noteq> None)"

named_theorems stream_frame \<open>operations that keep the counters of streams\<close>

lemma same_streams_trans: "same_streams a b \<Longrightarrow> same_streams b c \<Longrightarrow> same_streams a c"
  by (simp add: same_streams_def)

lemma same_streams_snd: "same_streams c (snd p) \<Longrightarrow> p = (r, c') \<Longrightarrow> same_streams c c'"
  by simp

lemma same_streams_updates [stream_frame]:
  "same_streams c c"
  "same_streams a (c\<lparr>sc_model := m\<rparr>) = same_streams a c" "same_streams a (c\<lparr>sc_restful := rest\<rparr>) = same_streams a c"
  "same_streams a (c\<lparr>sc_quic := q\<rparr>) = same_streams a c" "same_streams a (c\<lparr>sc_sent := w\<rparr>) = same_streams a c"
  "same_streams a (c\<lparr>sc_udp_sessions := udp\<rparr>) = same_streams a c"
  "same_streams a (c\<lparr>sc_auth := au\<rparr>) = same_streams a c"
  by (simp_all add: same_streams_def is_closed_def)

lemma same_streams_close: "same_streams a c \<Longrightarrow> same_streams a (conn_close reason c)"
  by (auto simp: same_streams_def conn_close_def is_closed_def split: option.split)

lemma same_streams_closed: "same_streams c (c\<lparr>sc_closed := Some e\<rparr>)"
  by (simp add: same_streams_def is_closed_def)

lemma same_streams_packet_parts:
  fixes c :: "('u, 'q, ('e, 's, 'r) quinn_error) server_conn" and A :: "('u, 'q, 'e, 's, 'r) app"
  shows "same_streams c (snd (packet_begin A pkt mode c))" "same_streams c (snd (packet_received A now pkt src c))"
    "same_streams c (snd (packet_resolved A session payload addr c))"
proof -
  show "same_streams c (snd (packet_begin A pkt mode c))"
    by (simp add: packet_begin_def same_streams_def is_closed_def split: outcome.split)
  show "same_streams c (snd (packet_received A now pkt src c))"
    by (simp add: packet_received_def stream_frame split: outcome.split prod.split sum.split option.split)
  show "same_streams c (snd (packet_resolved A session payload addr c))"
    by (simp add: packet_resolved_def Let_def stream_frame split: sum.split list.split option.split)
qed

lemma same_streams_relay_packet: "same_streams c (snd (relay_packet A pkt addr assoc_id c))"
  by (auto simp: relay_packet_def Let_def stream_frame split: option.split prod.split)

lemma same_streams_connect_step: "same_streams c (snd (connect_step A D h c))"
  by (cases "(A, D, h, c)" rule: connect_step.cases)
    (auto simp: stream_frame Let_def split: sum.split option.split prod.split)

lemma same_streams_grow:
  "same_streams c (snd (grow_uni_streams A c))" "same_streams c (snd (grow_bi_streams A c))"
  by (simp_all add: grow_uni_streams_def grow_bi_streams_def same_streams_def is_closed_def split: outcome.split)

lemma same_streams_authenticate: "same_streams c (snd (conn_authenticate A auth c))"
  by (simp add: conn_authenticate_def stream_frame split: prod.split)

lemma same_streams_pre_process:
  "same_streams c (snd (pre_process_uni A timed_out pick recv c))"
  "same_streams c (snd (pre_process_bi A timed_out pick send recv c))"
  "same_streams c (snd (pre_process_datagram A pick dg c))"
proof -
  have "same_streams c c'" if "conn_authenticate A auth (c\<lparr>sc_model := m\<rparr>) = (r, c')" for auth m r c'
    using same_streams_authenticate [of "c\<lparr>sc_model := m\<rparr>" A auth]
    by (simp add: that) (simp add: same_streams_def is_closed_def)
  then show "same_streams c (snd (pre_process_uni A timed_out pick recv c))"
    by (auto simp: pre_process_uni_def stream_frame split: prod.splits sum.splits task.splits waited.splits)
qed (simp_all add: pre_process_bi_def pre_process_datagram_def Let_def stream_frame
    split: prod.split sum.split waited.split outcome.split)

lemma same_streams_dissociate: "same_streams a c \<Longrightarrow> same_streams a (handle_dissociate assoc_id c)"
  by (simp add: handle_dissociate_def stream_frame)

lemma same_streams_timers:
  "same_streams c (snd (conn_timeout_authenticate A inner c))" "same_streams c (snd (conn_collect_garbage A now inner c))"
  by (simp_all add: conn_timeout_authenticate_def conn_collect_garbage_def stream_frame same_streams_close
      split: option.split prod.split)

lemma same_streams_other: "other_step c c' \<Longrightarrow> same_streams c c'"
  by (induction rule: other_step.induct) (simp_all add: same_streams_relay_packet stream_frame same_streams_closed)

text \<open>The parts of the handlers: each keeps the counters, and hands over to a part that holds the same register.\<close>

lemmas same_streams_results =
  same_streams_grow(1) [THEN same_streams_snd] same_streams_grow(2) [THEN same_streams_snd]
  same_streams_pre_process(1) [THEN same_streams_snd] same_streams_pre_process(2) [THEN same_streams_snd]
  same_streams_pre_process(3) [THEN same_streams_snd] same_streams_packet_parts(1) [THEN same_streams_snd]
  same_streams_packet_parts(2) [THEN same_streams_snd] same_streams_connect_step [THEN same_streams_snd]

lemma handler_part_streams:
  fixes c :: "('u, 'q, ('e, 's, 'r) quinn_error) server_conn" and A :: "('u, 'q, 'e, 's, 'r) app"
  assumes "handler_part A D now timed_out pick h c = (next, c')"
  shows "same_streams c c'"
proof (cases "(A, D, now, timed_out, pick, h, c)" rule: handler_part.cases)
  case (8 A D now timed_out pick dg c)
  obtain p c1 where pre: "pre_process_datagram A pick dg c = (p, c1)" by (rule prod.exhaust)
  have c1: "same_streams c c1" by (rule same_streams_results(5) [OF pre])
  have c2: "same_streams c c2" if "packet_begin A pkt Native c1 = (b, c2)" for pkt b c2
    by (rule same_streams_trans [OF c1 same_streams_results(6) [OF that]])
  have c3: "same_streams c c3" if "packet_begin A pkt Native c1 = (b, c2)"
    and "packet_received A now pkt src c2 = (res, c3)" for pkt src b c2 res c3
    by (rule same_streams_trans [OF c2 [OF that(1)] same_streams_results(7) [OF that(2)]])
  from assms 8 pre c1 c2 c3 same_streams_close [OF c1] show ?thesis
    by (auto split: outcome.splits option.splits sum.splits task.splits prod.splits)
next
  case (2 A D now timed_out pick recv c)
  obtain p c1 where pre: "pre_process_uni A timed_out pick recv c = (p, c1)" by (rule prod.exhaust)
  have c1: "same_streams c c1" by (rule same_streams_results(3) [OF pre])
  have c2: "same_streams c c2" if "packet_begin A pkt Quic c1 = (b, c2)" for pkt b c2
    by (rule same_streams_trans [OF c1 same_streams_results(6) [OF that]])
  from assms 2 pre c1 c2 same_streams_close [OF c1] same_streams_dissociate [OF c1] show ?thesis
    by (auto split: outcome.splits option.splits sum.splits task.splits prod.splits)
qed (use assms in \<open>auto simp: same_streams_packet_parts split: outcome.splits option.splits sum.splits task.splits prod.splits
    dest: same_streams_results intro: same_streams_close\<close>)

text \<open>What a handler may still do: its parts come in this order, and every address is dialled once.\<close>

fun phase :: "('s, 'r) running \<Rightarrow> nat" where
  "phase (Pending _) = 5"
| "phase (ReadingUni _) = 4"
| "phase (ReadingBi _ _) = 4"
| "phase (Receiving _ _) = 3"
| "phase (Resolving _ _ _ _) = 2"
| "phase (Connecting (LookingUp _)) = 2"
| "phase (Connecting (Dialling _ _ _)) = 1"
| "phase (Connecting (Exchanging _ _)) = 0"

fun addresses_left :: "('s, 'r) running \<Rightarrow> nat" where
  "addresses_left (Connecting (Dialling _ addrs _)) = length addrs"
| "addresses_left _ = 0"

definition phase_order :: "(('s, 'r) running \<times> ('s, 'r) running) set" where
  "phase_order = measures [phase, addresses_left]"

lemma wf_phase_order: "wf phase_order"
  by (simp add: phase_order_def)

fun receives :: "('s, 'r) running \<Rightarrow> bool" where
  "receives (Receiving _ _) = True"
| "receives _ = False"

lemma connect_step_next:
  assumes "connect_step A D h c = (Some (Inr h'), c')"
  shows "(Connecting h', Connecting h) \<in> phase_order"
  using assms by (cases "(A, D, h, c)" rule: connect_step.cases)
    (auto simp: phase_order_def Let_def split: sum.splits option.splits prod.splits)

lemma handler_part_next:
  assumes "handler_part A D now timed_out pick h c = (Some (Inr h'), c')"
  shows "holds_uni h' = holds_uni h \<and> holds_bi h' = holds_bi h" and "(h', h) \<in> phase_order"
    and "receives h' \<Longrightarrow> sc_udp_relay_mode c' \<noteq> None"
  using assms by (cases "(A, D, now, timed_out, pick, h, c)" rule: handler_part.cases;
      auto simp: packet_begin_def phase_order_def dest: connect_step_next [unfolded phase_order_def]
        split: outcome.splits option.splits sum.splits task.splits prod.splits)+

text \<open>A part is a sequence of steps of the connection, so all that holds under these holds here.\<close>

lemma server_step_result:
  "server_step c (snd p) \<Longrightarrow> p = (r, c') \<Longrightarrow> server_step\<^sup>*\<^sup>* c c'"
  by auto

lemmas part_steps =
  step_grow_uni [THEN server_step_result] step_grow_bi [THEN server_step_result]
  step_pre_process_uni [THEN server_step_result]
  step_pre_process_bi [THEN server_step_result]
  step_pre_process_datagram [THEN server_step_result]
  step_packet_begin [THEN server_step_result]
  step_connect_part [THEN server_step_result]

lemma packet_received_steps:
  assumes "packet_received A now pkt src c = (res, c')" and "sc_udp_relay_mode c \<noteq> None"
  shows "server_step\<^sup>*\<^sup>* c c'"
  by (rule server_step_result [OF step_packet_received [OF assms(2)] assms(1)])

lemma packet_begin_mode: "packet_begin A pkt mode c = (Returns u, c') \<Longrightarrow> sc_udp_relay_mode c' = Some mode"
  by (auto simp: packet_begin_def split: outcome.splits)

lemma handler_part_steps:
  fixes c :: "('u, 'q, ('e, 's, 'r) quinn_error) server_conn" and A :: "('u, 'q, 'e, 's, 'r) app"
  assumes "handler_part A D now timed_out pick h c = (next, c')" and "receives h \<longrightarrow> sc_udp_relay_mode c \<noteq> None"
  shows "server_step\<^sup>*\<^sup>* c c'"
proof (cases "(A, D, now, timed_out, pick, h, c)" rule: handler_part.cases)
  case (8 A D now timed_out pick dg c)
  obtain p c1 where pre: "pre_process_datagram A pick dg c = (p, c1)" by (rule prod.exhaust)
  have c1: "server_step\<^sup>*\<^sup>* c c1" by (rule part_steps(5) [OF pre])
  have c2: "server_step\<^sup>*\<^sup>* c c2" if "packet_begin A pkt Native c1 = (b, c2)" for pkt b c2
    by (rule rtranclp_trans [OF c1 part_steps(6) [OF that]])
  have c3: "server_step\<^sup>*\<^sup>* c c3" if "packet_begin A pkt Native c1 = (Returns b, c2)"
    and "packet_received A now pkt src c2 = (res, c3)" for pkt src b c2 res c3
    by (rule rtranclp_trans [OF c2 [OF that(1)] packet_received_steps [OF that(2)]]) (simp add: packet_begin_mode [OF that(1)])
  have closed: "server_step\<^sup>*\<^sup>* c (conn_close reason c1)" for reason
    using c1 step_close by (rule rtranclp.rtrancl_into_rtrancl)
  from assms(1) 8 pre c1 c2 c3 closed show ?thesis
    by (auto split: outcome.splits option.splits sum.splits task.splits prod.splits)
next
  case (2 A D now timed_out pick recv c)
  obtain p c1 where pre: "pre_process_uni A timed_out pick recv c = (p, c1)" by (rule prod.exhaust)
  have c1: "server_step\<^sup>*\<^sup>* c c1" by (rule part_steps(3) [OF pre])
  have c2: "server_step\<^sup>*\<^sup>* c c2" if "packet_begin A pkt Quic c1 = (b, c2)" for pkt b c2
    by (rule rtranclp_trans [OF c1 part_steps(6) [OF that]])
  have closed: "server_step\<^sup>*\<^sup>* c (conn_close reason c1)" for reason
    using c1 step_close by (rule rtranclp.rtrancl_into_rtrancl)
  have gone: "server_step\<^sup>*\<^sup>* c (handle_dissociate assoc_id c1)" for assoc_id
    using c1 step_dissociate by (rule rtranclp.rtrancl_into_rtrancl)
  from assms(1) 2 pre c1 c2 closed gone show ?thesis
    by (auto split: outcome.splits option.splits sum.splits task.splits prod.splits)
next
  case (6 A D now timed_out pick send recv c)
  obtain p c1 where pre: "pre_process_bi A timed_out pick send recv c = (p, c1)" by (rule prod.exhaust)
  have c1: "server_step\<^sup>*\<^sup>* c c1" by (rule part_steps(4) [OF pre])
  have closed: "server_step\<^sup>*\<^sup>* c (conn_close reason c1)" for reason
    using c1 step_close by (rule rtranclp.rtrancl_into_rtrancl)
  from assms(1) 6 pre c1 closed show ?thesis
    by (auto split: outcome.splits option.splits sum.splits task.splits prod.splits)
next
  case (4 A D now timed_out pick mode session payload addr c)
  with assms(1) show ?thesis by (auto intro: r_into_rtranclp step_packet_resolved)
qed (use assms in \<open>auto split: outcome.splits option.splits sum.splits prod.splits
    dest: part_steps packet_received_steps\<close>)

lemma handler_part_conn_ok:
  fixes c :: "('u, 'q, ('e, 's, 'r) quinn_error) server_conn" and A :: "('u, 'q, 'e, 's, 'r) app"
  assumes "handler_part A D now timed_out pick h c = (next, c')" and "conn_ok nil c"
    and "receives h \<longrightarrow> sc_udp_relay_mode c \<noteq> None"
  shows "conn_ok nil c'"
proof -
  have "server_step\<^sup>*\<^sup>* c c'" by (rule handler_part_steps [OF assms(1,3)])
  then show ?thesis using assms(2) by (rule server.steps_inv)
qed

lemma handler_step_part:
  assumes "handler_step A D now timed_out pick h c = (Some next, c')"
  obtains c1 where "handler_part A D now timed_out pick h c = (Some next, c1)"
    and "c' = (case next of Inl _ \<Rightarrow> drop_register h c1 | Inr _ \<Rightarrow> c1)"
proof -
  obtain n c1 where "handler_part A D now timed_out pick h c = (n, c1)" by (rule prod.exhaust)
  with assms that show thesis by (auto simp: handler_step_def split: sum.split)
qed

section \<open>The invariant\<close>

text \<open>
  The loop has ended only on a connection that is closed, and a connection stays closed. The mode is set as long as a
  handler waits for a payload.
\<close>

definition serving_ok :: "('u, 'q, 'm, 's, 'r) serving \<Rightarrow> bool" where
  "serving_ok s \<longleftrightarrow> counted s \<and> (\<not> sv_looping s \<longrightarrow> is_closed (sv_conn s)) \<and>
     (\<forall>h \<in> set (sv_running s). receives h \<longrightarrow> sc_udp_relay_mode (sv_conn s) \<noteq> None)"

text \<open>Each step of the tasks is one of the connection, or several, so its invariant holds beside this one.\<close>

lemma handle_turn_conn: "handle_turn (inc :: ('s, 'r) incoming) c = (t, c') \<Longrightarrow>
    c' = c \<or> c' = snd (handle_incoming inc (c :: ('u, 'q, ('e, 's, 'r) quinn_error) server_conn))"
  by (auto simp: handle_turn_def split: if_splits sum.splits prod.splits)

lemma other_step_server: "other_step c c' \<Longrightarrow> server_step c c'"
  by (induction rule: other_step.induct) (auto intro: server_step.intros)

lemma serving_step_server:
  fixes s :: "('u, 'q, ('e, 's, 'r) quinn_error, 's, 'r) serving"
  shows "serving_step s s' \<Longrightarrow> serving_ok s \<Longrightarrow> server_step\<^sup>*\<^sup>* (sv_conn s) (sv_conn s')"
proof (induction rule: serving_step.induct)
  case (serve_spawn s inc task c)
  with handle_turn_conn [OF serve_spawn.hyps(2)] show ?case by (auto intro: step_incoming)
next
  case (serve_log s inc level c)
  with handle_turn_conn [OF serve_log.hyps(2)] show ?case by (auto intro: step_incoming)
next
  case (serve_break s inc c)
  with handle_turn_conn [OF serve_break.hyps(2)] show ?case by (auto intro: step_incoming)
next
  case (serve_handler s before h after A D now timed_out pick "next" c)
  obtain c1 where part: "handler_part A D now timed_out pick h (sv_conn s) = (Some next, c1)"
    and c: "c = (case next of Inl _ \<Rightarrow> drop_register h c1 | Inr _ \<Rightarrow> c1)"
    by (rule handler_step_part [OF serve_handler.hyps(2)])
  have "receives h \<longrightarrow> sc_udp_relay_mode (sv_conn s) \<noteq> None"
    using serve_handler.prems serve_handler.hyps(1) by (simp add: serving_ok_def)
  from handler_part_steps [OF part this] have "server_step\<^sup>*\<^sup>* (sv_conn s) c1" .
  moreover have "server_step\<^sup>*\<^sup>* c1 (drop_register h c1)"
    by (auto simp: drop_register_def intro: step_drop_uni step_drop_bi)
  ultimately show ?case by (cases "next") (auto simp: c intro: rtranclp_trans)
next
  case (serve_auth_timer s A inner r c)
  with server_step_result [OF step_auth_timeout serve_auth_timer.hyps(2)] show ?case by simp
next
  case (serve_collect s A now inner r c)
  with server_step_result [OF step_collect_garbage serve_collect.hyps(2)] show ?case by simp
next
  case (serve_other s c)
  then show ?case by (auto intro: other_step_server)
qed

lemma serving_ok_conn:
  assumes "serving_ok s" and "same_streams (sv_conn s) c"
  shows "serving_ok (s\<lparr>sv_conn := c\<rparr>)"
  using assms by (auto simp: serving_ok_def counted_def same_streams_def)

lemma handle_turn_spawns:
  assumes "handle_turn inc c = (LoopSpawns task, c')"
  shows "sc_uni_stream_cnt c' = sc_uni_stream_cnt c + (if holds_uni (Pending task) then 1 else 0)"
    and "sc_bi_stream_cnt c' = sc_bi_stream_cnt c + (if holds_bi (Pending task) then 1 else 0)"
    and "\<not> is_closed c" and "is_closed c' = is_closed c" and "sc_udp_relay_mode c' = sc_udp_relay_mode c"
  using assms by (auto simp: handle_turn_def handle_incoming_def is_closed_def
      split: if_splits incoming.splits sum.splits prod.splits)

lemma handle_turn_else:
  assumes "handle_turn inc c = (t, c')" and "\<not> (\<exists>task. t = LoopSpawns task)"
  shows "c' = c" and "t = LoopBreaks \<longleftrightarrow> is_closed c"
  using assms by (auto simp: handle_turn_def handle_incoming_def
      split: if_splits incoming.splits sum.splits prod.splits)

lemma serving_step_ok: "serving_step s s' \<Longrightarrow> serving_ok s \<Longrightarrow> serving_ok s'"
proof (induction rule: serving_step.induct)
  case (serve_spawn s inc task c)
  from handle_turn_spawns [OF serve_spawn.hyps(2)] serve_spawn show ?case
    by (auto simp: serving_ok_def counted_def)
next
  case (serve_log s inc level c)
  from handle_turn_else(1) [OF serve_log.hyps(2)] serve_log.prems show ?case by simp
next
  case (serve_break s inc c)
  from handle_turn_else [OF serve_break.hyps(2)] serve_break.prems show ?case
    by (simp add: serving_ok_def counted_def)
next
  case (serve_handler s before h after A D now timed_out pick "next" c)
  obtain c1 where part: "handler_part A D now timed_out pick h (sv_conn s) = (Some next, c1)"
    and c: "c = (case next of Inl _ \<Rightarrow> drop_register h c1 | Inr _ \<Rightarrow> c1)"
    by (rule handler_step_part [OF serve_handler.hyps(2)])
  note same = handler_part_streams [OF part]
  show ?case
  proof (cases "next")
    case (Inl r)
    with same serve_handler.prems serve_handler.hyps(1) holds_one [of h] show ?thesis
      by (auto simp: c serving_ok_def counted_def same_streams_def drop_register_def drop_uni_register_def
          drop_bi_register_def is_closed_def)
  next
    case (Inr h')
    from handler_part_next [OF part [unfolded Inr]] same serve_handler.prems serve_handler.hyps(1) Inr show ?thesis
      by (auto simp: c serving_ok_def counted_def same_streams_def)
  qed
next
  case (serve_auth_timer s A inner r c)
  with same_streams_timers(1) [of "sv_conn s" A inner] serving_ok_conn [of s c] show ?case
    by (simp add: serving_ok_def counted_def)
next
  case (serve_collect s A now inner r c)
  with same_streams_timers(2) [of "sv_conn s" A now inner] serving_ok_conn [of s c] show ?case
    by (simp add: serving_ok_def counted_def)
next
  case (serve_other s c)
  then show ?case using same_streams_other serving_ok_conn by blast
qed

definition serving_start :: "'u \<Rightarrow> ('u, 'q, 'm, 's, 'r) serving \<Rightarrow> bool" where
  "serving_start nil s \<longleftrightarrow> (\<exists>zero_rtt into_0rtt handshake rest (conn :: nat).
     server_handle zero_rtt into_0rtt handshake nil rest conn = Inr s)"

lemma serving_start_conn:
  assumes "serving_start nil s"
  obtains q rest where "sv_conn s = server_conn_new nil q rest" and "sv_running s = []" and "sv_looping s"
  using assms by (auto simp: serving_start_def server_handle_def server_establish_def try_bind_def
      split: sum.splits if_splits option.splits)

lemma serving_start_ok:
  assumes "serving_start nil s" shows "serving_ok s \<and> conn_ok nil (sv_conn s)"
proof -
  obtain q rest where s: "sv_conn s = server_conn_new nil q rest" "sv_running s = []" "sv_looping s"
    by (rule serving_start_conn [OF assms])
  have "serving_ok s" unfolding serving_ok_def counted_def s by (simp add: server_conn_new_def s(3))
  moreover have "conn_ok nil (sv_conn s)" unfolding s by (rule conn_ok_new)
  ultimately show ?thesis by simp
qed

interpretation serving: invariant_system "serving_start nil" serving_step
  "\<lambda>s. serving_ok s \<and> conn_ok nil (sv_conn s)"
proof unfold_locales
  show "serving_ok s \<and> conn_ok nil (sv_conn s)" if "serving_start nil s" for s
    using that by (rule serving_start_ok)
  show "serving_ok s' \<and> conn_ok nil (sv_conn s')"
    if "serving_ok s \<and> conn_ok nil (sv_conn s)" and "serving_step s s'" for s s'
    using that(1) serving_step_ok [OF that(2)] server.steps_inv [OF serving_step_server [OF that(2)]] by simp
qed

section \<open>Properties\<close>

text \<open>
  C15: the counters of streams are exact. Whatever order the tasks of a connection run in, the two counters are
  at every moment the numbers of handlers of unidirectional and of bidirectional streams that run, exchanges with
  targets included; the limits told to the transport are the initial one doubled some times; and the loop has
  ended only when the connection is closed.
\<close>

theorem stream_registers_counted:
  assumes "reachable (serving_start nil) serving_step s"
  shows "sc_uni_stream_cnt (sv_conn s) = length (filter holds_uni (sv_running s)) \<and>
    sc_bi_stream_cnt (sv_conn s) = length (filter holds_bi (sv_running s)) \<and>
    limits_ok (sv_conn s) \<and> (sv_looping s \<or> is_closed (sv_conn s))"
  using serving.reachable_inv [OF assms] by (auto simp: serving_ok_def counted_def conn_ok_def)

lemma connect_step_waits:
  "connect_step A D h c = (None, c') \<Longrightarrow>
    c' = c \<and> (\<exists>conn k. h = Exchanging conn k \<and> exchange_tcp (tcp_turns D k) = None)"
  by (cases "(A, D, h, c)" rule: connect_step.cases)
    (auto simp: Let_def split: sum.splits option.splits prod.splits)

lemma handler_part_waits:
  fixes c :: "('u, 'q, ('e, 's, 'r) quinn_error) server_conn" and A :: "('u, 'q, 'e, 's, 'r) app"
  assumes "handler_part A D now timed_out pick h c = (None, c')" and "conn_ok nil c"
  shows "c' = c \<and> (\<exists>conn k. h = Connecting (Exchanging conn k) \<and> exchange_tcp (tcp_turns D k) = None)"
proof (cases "(A, D, now, timed_out, pick, h, c)" rule: handler_part.cases)
  case (2 A D now timed_out pick recv c)
  obtain p c1 where pre: "pre_process_uni A timed_out pick recv c = (p, c1)" by (rule prod.exhaust)
  from pre_process_uni_settled(1) [OF _ this, of nil] 2 assms(2) have "p \<noteq> None" by simp
  with assms(1) 2 pre show ?thesis
    by (auto split: outcome.splits option.splits sum.splits task.splits prod.splits)
next
  case (6 A D now timed_out pick send recv c)
  obtain p c1 where pre: "pre_process_bi A timed_out pick send recv c = (p, c1)" by (rule prod.exhaust)
  from pre_process_bi_settled(1) [OF _ this, of nil] 6 assms(2) have "p \<noteq> None" by simp
  with assms(1) 6 pre show ?thesis
    by (auto split: outcome.splits option.splits sum.splits task.splits prod.splits)
next
  case (8 A D now timed_out pick dg c)
  obtain p c1 where pre: "pre_process_datagram A pick dg c = (p, c1)" by (rule prod.exhaust)
  from pre_process_datagram_settled(1) [OF _ this, of nil] 8 assms(2) have "p \<noteq> Returns None" by simp
  with assms(1) 8 pre show ?thesis
    by (auto split: outcome.splits option.splits sum.splits task.splits prod.splits)
qed (use assms(1) in \<open>auto split: outcome.splits option.splits sum.splits prod.splits dest: connect_step_waits\<close>)

lemma handler_step_waits:
  fixes c :: "('u, 'q, ('e, 's, 'r) quinn_error) server_conn" and A :: "('u, 'q, 'e, 's, 'r) app"
  assumes "handler_step A D now timed_out pick h c = (None, c')" and "conn_ok nil c"
  shows "c' = c \<and> (\<exists>conn k. h = Connecting (Exchanging conn k) \<and> exchange_tcp (tcp_turns D k) = None)"
proof -
  have "handler_part A D now timed_out pick h c = (None, c')"
    using assms(1) by (auto simp: handler_step_def split: prod.splits)
  then show ?thesis using assms(2) by (rule handler_part_waits)
qed

section \<open>The parts of a handler and the handler\<close>

text \<open>With nothing in between, the parts are the handlers of \<^verbatim>\<open>Server_Stream\<close>.\<close>

lemma handle_uni_stream_parts:
  "handler_run A D now timed_out pick 4 (Pending (SpawnUni recv)) c =
    (case handle_uni_stream A now timed_out pick recv c of (r, c) \<Rightarrow> (map_option ends_with r, c))"
proof -
  obtain g c1 where grown: "grow_uni_streams A c = (g, c1)" by (rule prod.exhaust)
  obtain p c2 where pre: "pre_process_uni A timed_out pick recv c1 = (p, c2)" by (rule prod.exhaust)
  show ?thesis
    by (auto simp: numeral_eq_Suc handler_step_def handle_uni_stream_def handle_packet_def drop_register_def
        ends_with_def grown pre split: outcome.splits option.splits sum.splits task.splits prod.splits)
qed

lemma handle_datagram_parts:
  "handler_run A D now timed_out pick 2 (Pending (SpawnDatagram dg)) c =
    (case handle_datagram A now pick dg c of (r, c) \<Rightarrow> (map_option ends_with r, c))"
proof -
  obtain p c2 where pre: "pre_process_datagram A pick dg c = (p, c2)" by (rule prod.exhaust)
  show ?thesis
    by (auto simp: numeral_eq_Suc handler_step_def handle_datagram_def handle_packet_def drop_register_def
        ends_with_def pre split: outcome.splits option.splits sum.splits task.splits prod.splits)
qed

lemma connecting_parts:
  "handler_run A D now timed_out pick n (Connecting h) c =
    (case connect_run A D n h c of (None, c) \<Rightarrow> (None, c) | (Some ended, c) \<Rightarrow> (Some (Returns ended), drop_bi_register c))"
proof (induction n arbitrary: h c)
  case (Suc n)
  obtain x c1 where "connect_step A D h c = (x, c1)" by (rule prod.exhaust)
  with Suc show ?case by (auto simp: handler_step_def drop_register_def split: option.split sum.split)
qed simp

lemma handle_bi_stream_parts:
  "\<exists>n. handler_run A D now timed_out pick n (Pending (SpawnBi send recv)) c =
    handle_bi_stream A D timed_out pick send recv c"
proof -
  obtain g c1 where grown: "grow_bi_streams A c = (g, c1)" by (rule prod.exhaust)
  obtain p c2 where pre: "pre_process_bi A timed_out pick send recv c1 = (p, c2)" by (rule prod.exhaust)
  define n where "n = (case p of Some (Inr (TaskConnect conn _ _)) \<Rightarrow>
    (case resolve_dns (lib_lookup_host A) (crx_addr conn) of Inr addrs \<Rightarrow> length addrs | Inl _ \<Rightarrow> 0) + 3 | _ \<Rightarrow> 0)"
  have run: "handler_run A D now timed_out pick n (Connecting (LookingUp conn)) c2 =
      (case handle_connect A D conn c2 of (None, c) \<Rightarrow> (None, c) | (Some ended, c) \<Rightarrow> (Some (Returns ended), drop_bi_register c))"
    if "p = Some (Inr (TaskConnect conn send' recv'))" for conn send' recv'
    using handle_connect_parts [of A conn n D c2] that by (simp add: connecting_parts n_def)
  have "handler_run A D now timed_out pick (Suc (Suc n)) (Pending (SpawnBi send recv)) c =
      handle_bi_stream A D timed_out pick send recv c"
    using run by (auto simp: handler_step_def handle_bi_stream_def drop_register_def ends_with_def grown pre
        split: outcome.splits option.splits sum.splits task.splits prod.splits)
  then show ?thesis by blast
qed

lemma handler_run_ends:
  fixes s :: "('u, 'q, ('e, 's, 'r) quinn_error, 's, 'r) serving" and A :: "('u, 'q, 'e, 's, 'r) app"
  assumes "\<forall>k. exchange_tcp (tcp_turns D k) \<noteq> None" and "reachable (serving_start nil) serving_step s"
    and "sv_running s = before @ h # after"
  shows "\<exists>n r c. handler_run A D now timed_out pick n h (sv_conn s) = (Some r, c) \<and>
    reachable (serving_start nil) serving_step (s\<lparr>sv_conn := c, sv_running := before @ after\<rparr>)"
  using wf_phase_order assms(2,3)
proof (induction h arbitrary: s rule: wf_induct_rule)
  case (less h)
  note reach = less.prems(1) and running = less.prems(2)
  have ok: "conn_ok nil (sv_conn s)" using serving.reachable_inv [OF reach] by simp
  obtain x c where step: "handler_step A D now timed_out pick h (sv_conn s) = (x, c)" by (rule prod.exhaust)
  with handler_step_waits [OF _ ok] assms(1) obtain "next" where x: "x = Some next" by (cases x) blast+
  note after = reachable_step [OF reach serve_handler [OF running step [unfolded x]]]
  show ?case
  proof (cases "next")
    case (Inl r)
    with after step x show ?thesis by (intro exI [of _ "Suc 0"]) auto
  next
    case (Inr h')
    from handler_step_part [OF step [unfolded x Inr]] have "(h', h) \<in> phase_order"
      by (metis handler_part_next(2))
    from less.IH [OF this after] Inr obtain n r c2 where "handler_run A D now timed_out pick n h' c = (Some r, c2)"
      and "reachable (serving_start nil) serving_step (s\<lparr>sv_conn := c2, sv_running := before @ after\<rparr>)" by auto
    with step x Inr show ?thesis by (intro exI [of _ "Suc n"]) auto
  qed
qed

text \<open>So a handler that meets no wait runs as a whole, from any state.\<close>

lemma handler_run_reachable:
  fixes s :: "('u, 'q, ('e, 's, 'r) quinn_error, 's, 'r) serving" and A :: "('u, 'q, 'e, 's, 'r) app"
  assumes "reachable (serving_start nil) serving_step s" and "sv_running s = before @ h # after"
    and "handler_run A D now timed_out pick n h (sv_conn s) = (Some r, c)"
  shows "reachable (serving_start nil) serving_step (s\<lparr>sv_conn := c, sv_running := before @ after\<rparr>)"
  using assms
proof (induction n arbitrary: h s)
  case (Suc n)
  obtain x c1 where step: "handler_step A D now timed_out pick h (sv_conn s) = (x, c1)" by (rule prod.exhaust)
  with Suc.prems(3) obtain "next" where x: "x = Some next" by (cases x) auto
  note after = reachable_step [OF Suc.prems(1) serve_handler [OF Suc.prems(2) step [unfolded x]]]
  show ?case
  proof (cases "next")
    case (Inl r')
    with after step x Suc.prems(3) show ?thesis by simp
  next
    case (Inr h')
    with Suc.IH [OF after] step x Suc.prems(3) show ?thesis by simp
  qed
qed simp

text \<open>
  C17: every handler that was spawned goes on as soon as the outside answers, and gives its register back. In every state a
  connection reaches, a running handler has its next part for whatever it reads, looks up or dials: no part waits for an
  authentication, for another handler or for anything but its own answer, except that an exchange of bytes goes on
  until one side ends it. The part hands over to a later one, in an order that is well-founded, with the same register
  held, or it ends the handler, and then the handler is gone and its counter one less. So a handler that is answered each time,
  and whose exchange ends, runs to its end. One that waits for a payload, a lookup, a target or an exchange that
  never answers stays: these waits have no timer.
\<close>

theorem spawned_handlers_end:
  fixes s :: "('u, 'q, ('e, 's, 'r) quinn_error, 's, 'r) serving" and A :: "('u, 'q, 'e, 's, 'r) app"
  assumes "reachable (serving_start nil) serving_step s" and "sv_running s = before @ h # after"
  shows "(case handler_step A D now timed_out pick h (sv_conn s) of
      (None, c) \<Rightarrow> c = sv_conn s \<and>
        (\<exists>conn k. h = Connecting (Exchanging conn k) \<and> exchange_tcp (tcp_turns D k) = None)
    | (Some (Inr h'), c) \<Rightarrow> serving_step s (s\<lparr>sv_conn := c, sv_running := before @ h' # after\<rparr>) \<and>
        (h', h) \<in> phase_order \<and> holds_uni h' = holds_uni h \<and> holds_bi h' = holds_bi h
    | (Some (Inl r), c) \<Rightarrow> serving_step s (s\<lparr>sv_conn := c, sv_running := before @ after\<rparr>) \<and>
        sc_uni_stream_cnt (sv_conn s) = sc_uni_stream_cnt c + (if holds_uni h then 1 else 0) \<and>
        sc_bi_stream_cnt (sv_conn s) = sc_bi_stream_cnt c + (if holds_bi h then 1 else 0)) \<and>
    wf (phase_order :: (('s, 'r) running \<times> ('s, 'r) running) set) \<and>
    ((\<forall>k. exchange_tcp (tcp_turns D k) \<noteq> None) \<longrightarrow>
      (\<exists>n r c. handler_run A D now timed_out pick n h (sv_conn s) = (Some r, c) \<and>
        reachable (serving_start nil) serving_step (s\<lparr>sv_conn := c, sv_running := before @ after\<rparr>)))"
proof (intro conjI)
  have ok: "conn_ok nil (sv_conn s)" and counted: "counted s"
    using serving.reachable_inv [OF assms(1)] by (simp_all add: serving_ok_def)
  obtain x c where step: "handler_step A D now timed_out pick h (sv_conn s) = (x, c)" by (rule prod.exhaust)
  show "case handler_step A D now timed_out pick h (sv_conn s) of
      (None, c) \<Rightarrow> c = sv_conn s \<and>
        (\<exists>conn k. h = Connecting (Exchanging conn k) \<and> exchange_tcp (tcp_turns D k) = None)
    | (Some (Inr h'), c) \<Rightarrow> serving_step s (s\<lparr>sv_conn := c, sv_running := before @ h' # after\<rparr>) \<and>
        (h', h) \<in> phase_order \<and> holds_uni h' = holds_uni h \<and> holds_bi h' = holds_bi h
    | (Some (Inl r), c) \<Rightarrow> serving_step s (s\<lparr>sv_conn := c, sv_running := before @ after\<rparr>) \<and>
        sc_uni_stream_cnt (sv_conn s) = sc_uni_stream_cnt c + (if holds_uni h then 1 else 0) \<and>
        sc_bi_stream_cnt (sv_conn s) = sc_bi_stream_cnt c + (if holds_bi h then 1 else 0)"
  proof (cases x)
    case None
    with handler_step_waits [OF step [unfolded None] ok] step show ?thesis by simp
  next
    case (Some "next")
    note after = serve_handler [OF assms(2) step [unfolded Some]]
    obtain c1 where part: "handler_part A D now timed_out pick h (sv_conn s) = (Some next, c1)"
      and c: "c = (case next of Inl _ \<Rightarrow> drop_register h c1 | Inr _ \<Rightarrow> c1)"
      by (rule handler_step_part [OF step [unfolded Some]])
    show ?thesis
    proof (cases "next")
      case (Inl r)
      with handler_part_streams [OF part] counted assms(2) holds_one [of h]
      have "sc_uni_stream_cnt (sv_conn s) = sc_uni_stream_cnt c + (if holds_uni h then 1 else 0) \<and>
        sc_bi_stream_cnt (sv_conn s) = sc_bi_stream_cnt c + (if holds_bi h then 1 else 0)"
        by (auto simp: c counted_def same_streams_def drop_register_def drop_uni_register_def drop_bi_register_def)
      with after step Some Inl show ?thesis by simp
    next
      case (Inr h')
      with handler_part_next(1,2) [OF part [unfolded Inr]] after step Some show ?thesis by simp
    qed
  qed
  show "(\<forall>k. exchange_tcp (tcp_turns D k) \<noteq> None) \<longrightarrow>
      (\<exists>n r c. handler_run A D now timed_out pick n h (sv_conn s) = (Some r, c) \<and>
        reachable (serving_start nil) serving_step (s\<lparr>sv_conn := c, sv_running := before @ after\<rparr>))"
    using handler_run_ends [OF _ assms] by blast
qed (rule wf_phase_order)

text \<open>
  Every connection counts as that of the nil user. With a RESTful interface that does not know this user, the task
  that would list the connection panics, and no traffic of the connection is counted.
\<close>

lemma restful_without_nil_user:
  assumes "reachable (server_fresh nil) server_step c" and "cfg_restful A = Some cfg"
    and "online_counter (sc_restful c) nil = None" and "traffic_stats (sc_restful c) nil = None"
  shows "conn_timeout_authenticate A inner c = (Panics UnwrapNone, c)" and "authenticated_get (sc_auth c) = Some nil"
    and "traffic_tx (cfg_restful A) nil n (sc_restful c) = sc_restful c"
    and "traffic_rx (cfg_restful A) nil n (sc_restful c) = sc_restful c"
proof -
  have get: "authenticated_get (sc_auth c) = Some nil"
    using server.reachable_inv [OF assms(1)] by (rule conn_ok_get)
  then show "authenticated_get (sc_auth c) = Some nil" .
  show "conn_timeout_authenticate A inner c = (Panics UnwrapNone, c)"
    using get assms(2,3)
    by (simp add: conn_timeout_authenticate_def timeout_authenticate_def restful_client_connect_def)
  show "traffic_tx (cfg_restful A) nil n (sc_restful c) = sc_restful c"
    and "traffic_rx (cfg_restful A) nil n (sc_restful c) = sc_restful c"
    using assms(2,4) by (simp_all add: traffic_tx_def traffic_rx_def)
qed

section \<open>A concrete connection that runs a handler\<close>

definition demo_serving :: "(bytes, bytes list, (string, unit, recv_stream) quinn_error, unit, recv_stream) serving" where
  "demo_serving = \<lparr>sv_conn = demo_new, sv_running = [], sv_looping = True, sv_auth_timer = True, sv_collecting = True\<rparr>"

definition demo_dissociate :: recv_stream where
  "demo_dissociate = \<lparr>stream_chunks = [[5, 3, 0], [3]], stream_end = UnexpectedEof\<rparr>"

definition demo_running :: "(bytes, bytes list, (string, unit, recv_stream) quinn_error, unit, recv_stream) serving" where
  "demo_running = demo_serving\<lparr>sv_conn := demo_new\<lparr>sc_uni_stream_cnt := sc_uni_stream_cnt demo_new + 1\<rparr>,
     sv_running := [Pending (SpawnUni demo_dissociate)]\<rparr>"

lemma demo_running_reachable: "reachable (serving_start (replicate 16 0)) serving_step demo_running"
proof -
  have "server_handle False (\<lambda>_. None) (\<lambda>_. Inr []) (replicate 16 0) (restful_start [replicate 16 1 \<mapsto> [7 :: u8]]) (0 :: nat) =
      Inr demo_serving"
    by (simp add: server_handle_def server_establish_def demo_serving_def demo_new_def)
  then have start: "reachable (serving_start (replicate 16 0)) serving_step demo_serving"
    unfolding serving_start_def by (intro reachable_init) blast
  have "handle_turn (IncomingUni (Inr demo_dissociate) :: (unit, recv_stream) incoming) (sv_conn demo_serving) =
      (LoopSpawns (SpawnUni demo_dissociate), demo_new\<lparr>sc_uni_stream_cnt := sc_uni_stream_cnt demo_new + 1\<rparr>)"
    by (simp add: handle_turn_def handle_incoming_def demo_serving_def is_closed_def demo_new_def server_conn_new_def)
  from serve_spawn [OF _ this] have "serving_step demo_serving demo_running"
    by (simp add: demo_running_def demo_serving_def)
  then show ?thesis by (rule reachable_step [OF start])
qed

theorem stream_registers_counted_witness:
  "sc_uni_stream_cnt (sv_conn demo_running) = 1 \<and> limits_ok (sv_conn demo_running)"
proof -
  have "length (filter holds_uni (sv_running demo_running)) = 1" by (simp add: demo_running_def)
  with stream_registers_counted [OF demo_running_reachable] show ?thesis by metis
qed

definition demo_target :: "nat dialer" where
  "demo_target = \<lparr>tcp_connect = (\<lambda>_. Inr 0), set_nodelay = (\<lambda>_. Inr ()), tcp_turns = (\<lambda>_. [ReadTarget (Inr []) (Inr ())])\<rparr>"

theorem spawned_handlers_end_witness:
  "\<exists>n r c. handler_run demo_app demo_target 0 False True n (Pending (SpawnUni demo_dissociate)) (sv_conn demo_running) =
      (Some r, c) \<and>
    reachable (serving_start (replicate 16 0)) serving_step (demo_running\<lparr>sv_conn := c, sv_running := []\<rparr>)"
proof -
  have running: "sv_running demo_running = [] @ Pending (SpawnUni demo_dissociate) # []" by (simp add: demo_running_def)
  have "\<forall>k. exchange_tcp (tcp_turns demo_target k) \<noteq> None" by (simp add: demo_target_def exchange_tcp_def)
  with spawned_handlers_end [OF demo_running_reachable running, where D = demo_target and A = demo_app and now = 0
      and timed_out = False and pick = True] show ?thesis by simp
qed

end
