(* ===== verification/Server_Safety.thy ===== *)
theory Server_Safety
  imports Server_Loop
begin

text \<open>
  How the handlers of a server connection can panic, in every state the connection and its tasks reach. The
  invariant of the protocol's state is kept by all of them, so what was proved of \<^verbatim>\<open>tuic/src/model\<close> holds in the server.
\<close>

section \<open>The state of the protocol\<close>

definition model_kept :: "('u, 'q, 'm) server_conn \<Rightarrow> ('u, 'q, 'm) server_conn \<Rightarrow> bool" where
  "model_kept c c' \<longleftrightarrow> (connection_ok (sc_model c) \<longrightarrow> connection_ok (sc_model c'))"

named_theorems keeps_model \<open>operations that keep the invariant of the protocol's state\<close>

lemma model_kept_same [keeps_model]: "sc_model c' = sc_model c \<Longrightarrow> model_kept c c'"
  by (simp add: model_kept_def)

lemma model_kept_trans: "model_kept a b \<Longrightarrow> model_kept b c \<Longrightarrow> model_kept a c"
  by (simp add: model_kept_def)

lemmas connection_ok_steps =
  step_recv_packet_unrestricted [THEN connection_step_ok] step_recv_connect [THEN connection_step_ok]
  step_recv_dissociate [THEN connection_step_ok] step_send_packet [THEN connection_step_ok]
  step_assemble [THEN connection_step_ok] step_drop_connect [THEN connection_step_ok]
  connection_step.step_collect_garbage [THEN connection_step_ok]

lemma connection_ok_accepts:
  "connection_ok m \<Longrightarrow> server_accept_uni_stream U rd recv m = (r, m') \<Longrightarrow> connection_ok m'"
  "connection_ok m \<Longrightarrow> server_accept_bi_stream U rd send recv m = (r, m') \<Longrightarrow> connection_ok m'"
  "connection_ok m \<Longrightarrow> server_accept_datagram U dg m = (r', m') \<Longrightarrow> connection_ok m'"
  by (auto simp: server_accept_uni_stream_def server_accept_bi_stream_def server_accept_datagram_def Let_def
      split: prod.splits sum.splits header.splits intro: connection_ok_steps)

lemma connection_ok_packet_accept:
  "connection_ok m \<Longrightarrow> packet_accept oc rd now rx src m = (r, m') \<Longrightarrow> connection_ok m'"
  by (auto simp: packet_accept_def split: sum.splits prod.splits intro: connection_ok_steps)

lemma connection_ok_sends:
  "connection_ok m \<Longrightarrow> packet_native oc U Q pkt addr a (m, q) = (r, m', q') \<Longrightarrow> connection_ok m'"
  "connection_ok m \<Longrightarrow> packet_quic oc U Q pkt addr a (m, q) = (r, m', q') \<Longrightarrow> connection_ok m'"
  by (auto simp: packet_native_def packet_quic_def split: option.splits prod.splits outcome.splits
      intro: connection_ok_steps)

lemma model_kept_process_packet: "model_kept c (snd (process_packet A pkt addr assoc_id c))"
  by (simp add: process_packet_unfold Let_def model_kept_def split: prod.split sum.split list.split option.split)

lemma model_kept_handle_packet:
  fixes A :: "('u, 'q, 'e, 's, 'r) app"
  shows "model_kept c (snd (handle_packet A now rx src mode c))"
proof -
  obtain r m where acc: "(packet_accept (overflow_checks A) (lib_read A) now rx src (sc_model c) ::
      ('e, 's, 'r) receipt \<times> connection) = (r, m)" by (rule prod.exhaust)
  have "model_kept c (snd (process_packet A pkt addr a (c\<lparr>sc_udp_relay_mode := mode', sc_model := m\<rparr>)))" for pkt addr a mode'
    by (rule model_kept_trans [OF _ model_kept_process_packet])
      (use connection_ok_packet_accept [OF _ acc] in \<open>simp add: model_kept_def\<close>)
  moreover have "model_kept c (c\<lparr>sc_udp_relay_mode := mode', sc_model := m\<rparr>)" for mode'
    using connection_ok_packet_accept [OF _ acc] by (simp add: model_kept_def)
  ultimately show ?thesis
    using acc by (simp add: handle_packet_unfold Let_def keeps_model split: outcome.split sum.split option.split prod.split)
qed

lemma model_kept_relay_packet: "model_kept c (snd (relay_packet A pkt addr assoc_id c))"
  by (auto simp: relay_packet_def Let_def model_kept_def split: option.splits prod.splits udp_relay_mode.splits
      dest: connection_ok_sends)

lemma model_kept_handle_connect: "model_kept c (snd (handle_connect A D conn c))"
  by (simp add: handle_connect_def Let_def model_kept_def connection_ok_steps
      split: option.split prod.split sum.split dialled.split)

lemma model_kept_conn_authenticate: "sc_model (snd (conn_authenticate A auth c)) = sc_model c"
  by (simp add: conn_authenticate_def split: prod.split)

lemma model_kept_pre_process:
  "model_kept c (snd (pre_process_uni A timed_out pick recv c))"
  "model_kept c (snd (pre_process_bi A timed_out pick send recv c))"
  "model_kept c (snd (pre_process_datagram A pick dg c))"
proof -
  have auth: "sc_model c' = m" if "conn_authenticate A auth (c\<lparr>sc_model := m\<rparr>) = (r, c')" for auth m r c'
    using model_kept_conn_authenticate [of A auth "c\<lparr>sc_model := m\<rparr>"] that by simp
  show "model_kept c (snd (pre_process_uni A timed_out pick recv c))"
    using auth by (fastforce simp: pre_process_uni_def model_kept_def dest: connection_ok_accepts
        split: prod.splits sum.splits task.splits waited.splits)
  show "model_kept c (snd (pre_process_bi A timed_out pick send recv c))"
    by (auto simp: pre_process_bi_def model_kept_def dest: connection_ok_accepts intro: connection_ok_steps
        split: prod.splits sum.splits waited.splits)
  show "model_kept c (snd (pre_process_datagram A pick dg c))"
    by (auto simp: pre_process_datagram_def Let_def model_kept_def dest: connection_ok_accepts
        split: prod.splits sum.splits waited.splits outcome.splits)
qed

lemma model_kept_updates [keeps_model]:
  "model_kept c (conn_close reason c') = model_kept c c'" "model_kept c (drop_uni_register c') = model_kept c c'"
  "model_kept c (drop_bi_register c') = model_kept c c'" "model_kept c (handle_dissociate a c') = model_kept c c'"
  by (simp_all add: model_kept_def conn_close_def drop_uni_register_def drop_bi_register_def handle_dissociate_def)

lemma model_kept_grow:
  "sc_model (snd (grow_uni_streams A c)) = sc_model c" "sc_model (snd (grow_bi_streams A c)) = sc_model c"
  by (simp_all add: grow_uni_streams_def grow_bi_streams_def split: outcome.split)

lemma model_kept_handlers:
  "model_kept c (snd (handle_uni_stream A now timed_out pick recv c))"
  "model_kept c (snd (handle_bi_stream A D timed_out pick send recv c))"
  "model_kept c (snd (handle_datagram A now pick dg c))"
proof -
  obtain g c1 where c1: "grow_uni_streams A c = (g, c1)" by (rule prod.exhaust)
  then have k1: "model_kept c c1" using model_kept_grow(1) [of A c] by (simp add: keeps_model)
  obtain p c2 where c2: "pre_process_uni A timed_out pick recv c1 = (p, c2)" by (rule prod.exhaust)
  then have k2: "model_kept c c2" using model_kept_trans [OF k1 model_kept_pre_process(1) [of c1 A timed_out pick recv]] by simp
  have packet: "model_kept c c3" if "handle_packet A now pkt src Quic c2 = (r, c3)" for pkt src r c3
    using model_kept_trans [OF k2 model_kept_handle_packet [of c2 A now pkt src Quic]] that by simp
  show "model_kept c (snd (handle_uni_stream A now timed_out pick recv c))"
    using c1 c2 k1 k2 packet
    by (auto simp: handle_uni_stream_def keeps_model split: outcome.split option.split sum.split task.split prod.split)
next
  obtain g c1 where c1: "grow_bi_streams A c = (g, c1)" by (rule prod.exhaust)
  then have k1: "model_kept c c1" using model_kept_grow(2) [of A c] by (simp add: keeps_model)
  obtain p c2 where c2: "pre_process_bi A timed_out pick send recv c1 = (p, c2)" by (rule prod.exhaust)
  then have k2: "model_kept c c2" using model_kept_trans [OF k1 model_kept_pre_process(2) [of c1 A timed_out pick send recv]] by simp
  have connect: "model_kept c c3" if "handle_connect A D conn c2 = (r, c3)" for conn r c3
    using model_kept_trans [OF k2 model_kept_handle_connect [of c2 A D conn]] that by simp
  show "model_kept c (snd (handle_bi_stream A D timed_out pick send recv c))"
    using c1 c2 k1 k2 connect
    by (auto simp: handle_bi_stream_def keeps_model split: outcome.split option.split sum.split task.split prod.split)
next
  obtain p c2 where c2: "pre_process_datagram A pick dg c = (p, c2)" by (rule prod.exhaust)
  then have k2: "model_kept c c2" using model_kept_pre_process(3) [of c A pick dg] by simp
  have packet: "model_kept c c3" if "handle_packet A now pkt src Native c2 = (r, c3)" for pkt src r c3
    using model_kept_trans [OF k2 model_kept_handle_packet [of c2 A now pkt src Native]] that by simp
  show "model_kept c (snd (handle_datagram A now pick dg c))"
    using c2 k2 packet
    by (auto simp: handle_datagram_def keeps_model split: outcome.split option.split sum.split task.split prod.split)
qed

lemma model_kept_timers:
  "model_kept c (snd (conn_timeout_authenticate A inner c))" "model_kept c (snd (conn_collect_garbage A now inner c))"
  by (auto simp: conn_timeout_authenticate_def conn_collect_garbage_def model_kept_def conn_close_def
      split: option.splits prod.splits intro: connection_ok_steps)



lemma model_kept_packet_parts:
  fixes A :: "('u, 'q, 'e, 's, 'r) app" and c :: "('u, 'q, ('e, 's, 'r) quinn_error) server_conn"
  shows "model_kept c (snd (packet_begin A rx mode c))" "model_kept c (snd (packet_received A now rx src c))"
    "model_kept c (snd (packet_resolved A session payload addr c))"
proof -
  obtain r m where acc: "(packet_accept (overflow_checks A) (lib_read A) now rx src (sc_model c) ::
      ('e, 's, 'r) receipt \<times> connection) = (r, m)" by (rule prod.exhaust)
  show "model_kept c (snd (packet_received A now rx src c))"
    using connection_ok_packet_accept [OF _ acc]
    by (simp add: packet_received_def acc model_kept_def split: outcome.split sum.split option.split prod.split)
qed (simp_all add: packet_begin_def packet_resolved_def Let_def model_kept_def
    split: outcome.split sum.split list.split option.split)

lemma model_kept_connect_step: "model_kept c (snd (connect_step A D h c))"
  by (cases "(A, D, h, c)" rule: connect_step.cases)
    (auto simp: model_kept_def Let_def split: sum.split option.split prod.split intro: connection_ok_steps)

lemma model_kept_incoming: "model_kept c (snd (handle_incoming inc c))"
  by (simp add: handle_incoming_def keeps_model split: incoming.split sum.split prod.split)

lemma server_step_model: "server_step c c' \<Longrightarrow> model_kept c c'"
  by (induction rule: server_step.induct)
    (simp_all add: model_kept_handlers model_kept_handle_packet model_kept_handle_connect model_kept_relay_packet
      model_kept_timers model_kept_pre_process model_kept_packet_parts model_kept_connect_step model_kept_incoming
      model_kept_grow keeps_model)

lemma serving_step_model:
  assumes "serving_step s s'" and "serving_ok s"
  shows "model_kept (sv_conn s) (sv_conn s')"
  using serving_step_server [OF assms]
  by (induction rule: rtranclp_induct) (auto simp: keeps_model intro: model_kept_trans server_step_model)

section \<open>What the server accepts\<close>

text \<open>A datagram whose packet announces more bytes than the datagram has left.\<close>

definition announces_too_much :: "'u uuid_lib \<Rightarrow> bytes \<Rightarrow> bool" where
  "announces_too_much U dg \<longleftrightarrow> (case unmarshal U cursor_read_exact (cursor_new dg) of
     (Inr (Packet h), rest) \<Rightarrow> length (cursor_inner rest) < cursor_position rest + unat (ph_size h)
   | _ \<Rightarrow> False)"

lemma server_accepts_uni:
  assumes "server_accept_uni_stream U rd recv m = (Inr (TaskPacket rx src), m')"
  shows "\<exists>recv'. src = SourceQuic recv'" and "fragment_beyond m' rx = fragment_beyond m rx"
  using assms by (auto simp: server_accept_uni_stream_def fragment_beyond_def recv_packet_unrestricted_buffer(2)
      split: prod.splits sum.splits header.splits)

lemma server_accepts_datagram:
  assumes "server_accept_datagram U dg m = (Returns (Inr (TaskPacket rx src)), m')"
  shows "\<exists>data. src = SourceNative data \<and> length data = unat (prx_size rx)"
    and "fragment_beyond m' rx = fragment_beyond m rx"
  using assms by (auto simp: server_accept_datagram_def bytes_slice_def Let_def outcome_bind_eq_Returns fragment_beyond_def
      recv_packet_unrestricted_buffer(2) split: prod.splits sum.splits header.splits if_splits)

lemma server_accept_datagram_panics:
  assumes "server_accept_datagram U dg m = (Panics p, m')"
  shows "p = SliceOutOfRange \<and> announces_too_much U dg"
proof -
  have "prx_size rx = ph_size h" if "connection_recv_packet_unrestricted h m = (rx, m')" for h rx m'
    using recv_packet_unrestricted_buffer(1) [OF that] by (simp add: packet_rx_new_def)
  with assms show ?thesis
    by (fastforce simp: server_accept_datagram_def announces_too_much_def bytes_slice_def Let_def
        split: prod.splits sum.splits header.splits if_splits)
qed

lemma pre_process_accepts:
  fixes A :: "('u, 'q, 'e, 's, 'r) app"
  shows "pre_process_uni A timed_out pick recv c = (Some (Inr (TaskPacket rx src)), c') \<Longrightarrow>
      (server_accept_uni_stream (lib_uuid A) (lib_read A) recv (sc_model c) ::
        (('e, 's, 'r) quinn_error + ('u, 's, 'r) task) \<times> connection) = (Inr (TaskPacket rx src), sc_model c')"
    and "pre_process_datagram A pick dg c = (Returns (Some (Inr (TaskPacket rx src))), c') \<Longrightarrow>
      (server_accept_datagram (lib_uuid A) dg (sc_model c) ::
        (('e, 's, 'r) quinn_error + ('u, 's, 'r) task) outcome \<times> connection) =
      (Returns (Inr (TaskPacket rx src)), sc_model c')"
    and "pre_process_datagram A pick dg c = (Panics p, c') \<Longrightarrow>
      (server_accept_datagram (lib_uuid A) dg (sc_model c) ::
        (('e, 's, 'r) quinn_error + ('u, 's, 'r) task) outcome \<times> connection) = (Panics p, sc_model c')"
  by (auto simp: pre_process_uni_def pre_process_datagram_def Let_def
      split: if_splits prod.splits sum.splits task.splits waited.splits outcome.splits)

section \<open>The invariant of the tasks\<close>

text \<open>A handler that waits for a payload waits for that of a stream.\<close>

fun from_stream :: "('s, 'r) running \<Rightarrow> bool" where
  "from_stream (Receiving _ (SourceNative _)) = False"
| "from_stream _ = True"

lemma handler_part_from_stream:
  fixes c :: "('u, 'q, ('e, 's, 'r) quinn_error) server_conn" and A :: "('u, 'q, 'e, 's, 'r) app"
  assumes "handler_part A D now timed_out pick h c = (Some (Inr h'), c')"
  shows "from_stream h'"
proof (cases "(A, D, now, timed_out, pick, h, c)" rule: handler_part.cases)
  case (2 A D now timed_out pick recv c)
  have src: "\<exists>recv'. src = SourceQuic recv'"
    if "pre_process_uni A timed_out pick recv c = (Some (Inr (TaskPacket rx src)), c1)" for rx src c1
    using server_accepts_uni(1) [OF pre_process_accepts(1) [OF that]] .
  from assms 2 show ?thesis
    by (auto split: outcome.splits option.splits sum.splits task.splits prod.splits dest: src)
qed (use assms in \<open>auto split: outcome.splits option.splits sum.splits task.splits prod.splits\<close>)

lemma serving_step_from_stream:
  "serving_step s s' \<Longrightarrow> \<forall>h \<in> set (sv_running s). from_stream h \<Longrightarrow> \<forall>h \<in> set (sv_running s'). from_stream h"
proof (induction rule: serving_step.induct)
  case (serve_handler s before h after A D now timed_out pick "next" c)
  obtain c1 where "handler_part A D now timed_out pick h (sv_conn s) = (Some next, c1)"
    by (rule handler_step_part [OF serve_handler.hyps(2)])
  with serve_handler.prems serve_handler.hyps(1) show ?case
    by (auto split: sum.split dest: handler_part_from_stream)
qed auto

interpretation serving_model: invariant_system "serving_start nil" serving_step
  "\<lambda>s. connection_ok (sc_model (sv_conn s)) \<and> serving_ok s \<and> (\<forall>h \<in> set (sv_running s). from_stream h)"
proof unfold_locales
  show "connection_ok (sc_model (sv_conn s)) \<and> serving_ok s \<and> (\<forall>h \<in> set (sv_running s). from_stream h)"
    if start: "serving_start nil s" for s
  proof -
    obtain q rest where s: "sv_conn s = server_conn_new nil q rest" "sv_running s = []"
      by (rule serving_start_conn [OF start])
    with serving_start_ok [OF start] conn.inv_init show ?thesis by (simp add: server_conn_new_def)
  qed
  show "connection_ok (sc_model (sv_conn s')) \<and> serving_ok s' \<and> (\<forall>h \<in> set (sv_running s'). from_stream h)"
    if "connection_ok (sc_model (sv_conn s)) \<and> serving_ok s \<and> (\<forall>h \<in> set (sv_running s). from_stream h)"
      and "serving_step s s'" for s s'
    using serving_step_model [OF that(2)] serving_step_ok [OF that(2)] serving_step_from_stream [OF that(2)] that(1)
    by (simp add: model_kept_def)
qed

section \<open>Panics\<close>

text \<open>
  The panics that are left when a packet is handled: it is numbered beyond the buffer that waits for it, or its number is the last of a
  byte and logged plus one.
\<close>

definition packet_panic :: "('u, 'q, 'e, 's, 'r) app \<Rightarrow> connection \<Rightarrow> packet_rx \<Rightarrow> panic \<Rightarrow> bool" where
  "packet_panic A m rx p \<longleftrightarrow> p = IndexOutOfBounds \<and> fragment_beyond m rx \<or>
     p = ArithmeticOverflow \<and> overflow_checks A \<and> (logs_info A \<or> logs_warn A) \<and> prx_frag_id rx = 255"

lemma handle_packet_panics:
  fixes A :: "('u, 'q, 'e, 's, 'r) app"
  assumes "connection_ok (sc_model c)" and "source_has_size (lib_read A) rx src"
    and "handle_packet A now rx src mode c = (Panics p, c')"
  shows "packet_panic A (sc_model c) rx p"
proof -
  obtain r m where acc: "(packet_accept (overflow_checks A) (lib_read A) now rx src (sc_model c) ::
      ('e, 's, 'r) receipt \<times> connection) = (r, m)" by (rule prod.exhaust)
  show ?thesis
    using assms(3) acc packet_accept_outcome(1) [OF assms(1,2) acc]
    by (auto simp: handle_packet_unfold Let_def log_fragment_def packet_panic_def
        split: if_splits outcome.splits sum.splits option.splits prod.splits)
qed

lemma grow_panics:
  "grow_uni_streams A c = (Panics p, c') \<Longrightarrow> p = ArithmeticOverflow \<and> overflow_checks A \<and> 2 ^ 31 \<le> sc_max_uni_streams c"
  "grow_bi_streams A c = (Panics p, c') \<Longrightarrow> p = ArithmeticOverflow \<and> overflow_checks A \<and> 2 ^ 31 \<le> sc_max_bi_streams c"
  by (auto simp: grow_uni_streams_def grow_bi_streams_def u32_double_def split: if_splits outcome.splits)

lemma uni_handler_panics:
  fixes A :: "('u, 'q, 'e, 's, 'r) app" and c :: "('u, 'q, ('e, 's, 'r) quinn_error) server_conn"
  assumes "conn_ok nil c" and "connection_ok (sc_model c)"
    and "\<forall>n recv data recv'. lib_read A n recv = (Inr data, recv') \<longrightarrow> length data = n"
    and "fst (handle_uni_stream A now timed_out pick recv c) = Some (Panics p)"
  shows "p = ArithmeticOverflow \<and> overflow_checks A \<and> 2 ^ 31 \<le> sc_max_uni_streams c \<or>
    (\<exists>rx src m. (server_accept_uni_stream (lib_uuid A) (lib_read A) recv (sc_model c) ::
        (('e, 's, 'r) quinn_error + ('u, 's, 'r) task) \<times> connection) = (Inr (TaskPacket rx src), m) \<and>
      packet_panic A (sc_model c) rx p)"
proof -
  obtain g c1 where grown: "grow_uni_streams A c = (g, c1)" by (rule prod.exhaust)
  obtain r c2 where pre: "pre_process_uni A timed_out pick recv c1 = (r, c2)" by (rule prod.exhaust)
  have c1: "sc_model c1 = sc_model c" using model_kept_grow(1) [of A c] grown by simp
  have "conn_ok nil c1" using conn_ok_grow(1) [OF assms(1), of A] grown by simp
  note settled = pre_process_uni_settled [OF this pre]
  show ?thesis
  proof (cases g)
    case (Panics p')
    with grow_panics(1) [of A c] grown assms(4) show ?thesis by (simp add: handle_uni_stream_def)
  next
    case (Returns x)
    with assms(4) grown pre settled obtain rx src where task: "r = Some (Inr (TaskPacket rx src))"
      and handled: "fst (handle_packet A now rx src Quic c2) = Panics p"
      by (auto simp: handle_uni_stream_def split: option.splits sum.splits task.splits prod.splits)
    note accepted = pre_process_accepts(1) [OF pre [unfolded task], unfolded c1]
    have "connection_ok (sc_model c2)" by (rule connection_ok_accepts(1) [OF assms(2) accepted])
    moreover have "source_has_size (lib_read A) rx src"
      using server_accepts_uni(1) [OF accepted] assms(3) by (auto simp: source_has_size_def)
    ultimately have "packet_panic A (sc_model c2) rx p"
      by (rule handle_packet_panics) (use handled in \<open>simp add: prod_eq_iff\<close>)
    then have "packet_panic A (sc_model c) rx p"
      using server_accepts_uni(2) [OF accepted] by (simp add: packet_panic_def)
    with accepted show ?thesis by blast
  qed
qed

lemma bi_handler_panics:
  fixes A :: "('u, 'q, 'e, 's, 'r) app" and c :: "('u, 'q, ('e, 's, 'r) quinn_error) server_conn"
  assumes "conn_ok nil c" and "fst (handle_bi_stream A D timed_out pick send recv c) = Some (Panics p)"
  shows "p = ArithmeticOverflow \<and> overflow_checks A \<and> 2 ^ 31 \<le> sc_max_bi_streams c"
proof -
  obtain g c1 where grown: "grow_bi_streams A c = (g, c1)" by (rule prod.exhaust)
  obtain r c2 where pre: "pre_process_bi A timed_out pick send recv c1 = (r, c2)" by (rule prod.exhaust)
  have "conn_ok nil c1" using conn_ok_grow(2) [OF assms(1), of A] grown by simp
  note settled = pre_process_bi_settled [OF this pre]
  show ?thesis
    using assms(2) grown pre settled grow_panics(2) [of A c p]
    by (auto simp: handle_bi_stream_def split: outcome.splits option.splits sum.splits task.splits prod.splits)
qed

lemma datagram_handler_panics:
  fixes A :: "('u, 'q, 'e, 's, 'r) app" and c :: "('u, 'q, ('e, 's, 'r) quinn_error) server_conn"
  assumes "conn_ok nil c" and "connection_ok (sc_model c)"
    and "fst (handle_datagram A now pick dg c) = Some (Panics p)"
  shows "p = SliceOutOfRange \<and> announces_too_much (lib_uuid A) dg \<or>
    (\<exists>rx src m. (server_accept_datagram (lib_uuid A) dg (sc_model c) ::
        (('e, 's, 'r) quinn_error + ('u, 's, 'r) task) outcome \<times> connection) = (Returns (Inr (TaskPacket rx src)), m) \<and>
      packet_panic A (sc_model c) rx p)"
proof -
  obtain r c2 where pre: "pre_process_datagram A pick dg c = (r, c2)" by (rule prod.exhaust)
  note settled = pre_process_datagram_settled [OF assms(1) pre]
  show ?thesis
  proof (cases r)
    case (Panics p')
    with assms(3) pre have "p' = p" by (simp add: handle_datagram_def)
    with server_accept_datagram_panics [OF pre_process_accepts(3) [OF pre [unfolded Panics]]] show ?thesis by simp
  next
    case (Returns x)
    with assms(3) pre settled obtain rx src where task: "r = Returns (Some (Inr (TaskPacket rx src)))"
      and handled: "fst (handle_packet A now rx src Native c2) = Panics p"
      by (auto simp: handle_datagram_def split: option.splits sum.splits task.splits prod.splits)
    note accepted = pre_process_accepts(2) [OF pre [unfolded task]]
    have "connection_ok (sc_model c2)" by (rule connection_ok_accepts(3) [OF assms(2) accepted])
    moreover have "source_has_size (lib_read A) rx src"
      using server_accepts_datagram(1) [OF accepted] by (auto simp: source_has_size_def)
    ultimately have "packet_panic A (sc_model c2) rx p"
      by (rule handle_packet_panics) (use handled in \<open>simp add: prod_eq_iff\<close>)
    then have "packet_panic A (sc_model c) rx p"
      using server_accepts_datagram(2) [OF accepted] by (simp add: packet_panic_def)
    with accepted show ?thesis by blast
  qed
qed

text \<open>The panics of one part of a handler.\<close>

definition part_panic ::
    "('u, 'q, 'e, 's, 'r) app \<Rightarrow> nat \<Rightarrow> bool \<Rightarrow> ('s, 'r) running \<Rightarrow>
      ('u, 'q, ('e, 's, 'r) quinn_error) server_conn \<Rightarrow> panic \<Rightarrow> bool" where
  "part_panic A now pick h c p \<longleftrightarrow> (case h of
     Pending (SpawnUni _) \<Rightarrow> p = ArithmeticOverflow \<and> overflow_checks A \<and> 2 ^ 31 \<le> sc_max_uni_streams c
   | Pending (SpawnBi _ _) \<Rightarrow> p = ArithmeticOverflow \<and> overflow_checks A \<and> 2 ^ 31 \<le> sc_max_bi_streams c
   | Pending (SpawnDatagram dg) \<Rightarrow> fst (handle_datagram A now pick dg c) = Some (Panics p)
   | ReadingUni _ \<Rightarrow> p = ArithmeticOverflow \<and> overflow_checks A \<and> logs_info A
   | Receiving rx _ \<Rightarrow> packet_panic A (sc_model c) rx p
   | _ \<Rightarrow> False)"

lemma ends_with_panics [simp]: "ends_with r = Panics p \<longleftrightarrow> r = Panics p"
  by (cases r) (simp_all add: ends_with_def)

lemma handler_part_panics:
  fixes c :: "('u, 'q, ('e, 's, 'r) quinn_error) server_conn" and A :: "('u, 'q, 'e, 's, 'r) app"
  assumes "handler_part A D now timed_out pick h c = (Some (Inl (Panics p)), c')" and "conn_ok nil c"
    and "connection_ok (sc_model c)" and "from_stream h"
    and "\<forall>n recv data recv'. lib_read A n recv = (Inr data, recv') \<longrightarrow> length data = n"
  shows "part_panic A now pick h c p"
proof (cases "(A, D, now, timed_out, pick, h, c)" rule: handler_part.cases)
  case (1 A D now timed_out pick recv c)
  with assms(1) grow_panics(1) [of A c p] show ?thesis
    by (auto simp: part_panic_def split: outcome.splits prod.splits)
next
  case (2 A D now timed_out pick recv c)
  obtain q c1 where pre: "pre_process_uni A timed_out pick recv c = (q, c1)" by (rule prod.exhaust)
  from pre_process_uni_settled [OF _ this, of nil] 2 assms(2) have known: "q \<noteq> None"
    "\<And>task. q = Some (Inr task) \<Longrightarrow> (\<exists>rx src. task = TaskPacket rx src) \<or> (\<exists>assoc_id. task = TaskDissociate assoc_id)"
    by simp_all
  from assms(1) 2 pre known show ?thesis
    by (auto simp: part_panic_def packet_begin_def log_fragment_def
        split: outcome.splits option.splits sum.splits task.splits prod.splits if_splits)
next
  case (3 A D now timed_out pick pkt src c)
  have "source_has_size (lib_read A) pkt src"
    using assms(4,5) 3 by (cases src) (auto simp: source_has_size_def)
  moreover obtain r m where acc: "(packet_accept (overflow_checks A) (lib_read A) now pkt src (sc_model c) ::
      ('e, 's, 'r) receipt \<times> connection) = (r, m)" by (rule prod.exhaust)
  ultimately have "r = Panics p' \<Longrightarrow> p' = IndexOutOfBounds \<and> fragment_beyond (sc_model c) pkt" for p'
    using packet_accept_outcome(1) [OF _ _ acc] assms(3) 3 by simp
  with assms(1) 3 acc show ?thesis
    by (auto simp: part_panic_def packet_received_def packet_panic_def log_fragment_def
        split: outcome.splits sum.splits option.splits prod.splits if_splits)
next
  case (5 A D now timed_out pick send recv c)
  with assms(1) grow_panics(2) [of A c p] show ?thesis
    by (auto simp: part_panic_def split: outcome.splits prod.splits)
next
  case (6 A D now timed_out pick send recv c)
  obtain q c1 where pre: "pre_process_bi A timed_out pick send recv c = (q, c1)" by (rule prod.exhaust)
  from pre_process_bi_settled [OF _ this, of nil] 6 assms(2) have known: "q \<noteq> None"
    "\<And>task. q = Some (Inr task) \<Longrightarrow> \<exists>conn s r. task = TaskConnect conn s r"
    by simp_all
  from assms(1) 6 pre known show ?thesis
    by (auto simp: ends_with_def split: option.splits sum.splits task.splits prod.splits)
next
  case (8 A D now timed_out pick dg c)
  from 8 assms(1) have "fst (handler_run A D now timed_out pick 2 (Pending (SpawnDatagram dg)) c) = Some (Panics p)"
    by (simp add: numeral_eq_Suc handler_step_def)
  with 8 show ?thesis
    by (auto simp: handle_datagram_parts part_panic_def split: prod.splits)
qed (use assms(1) in \<open>auto simp: ends_with_def split: option.splits sum.splits prod.splits\<close>)

section \<open>Properties\<close>

text \<open>
  C9: how a handler of the server can panic. In every state that a connection and its tasks reach, a handler of a
  unidirectional stream panics only when the limit of streams would exceed 32 bits, or on a packet that it accepted, in one
  of the two ways of \<open>packet_panic\<close>; a handler of a bidirectional stream only because of the limit; a handler of a
  datagram only on an accepted packet, in these two ways, or when the datagram announces more than it holds. The same
  holds of the single parts of the handlers that run, whatever came in between (\<open>part_panic\<close>). So none meets an unknown task, a missing fragment, an authentication that never comes, or a packet of another size than announced.
\<close>

theorem server_handlers_panic_only:
  fixes A :: "('u, 'q, 'e, 's, 'r) app" and s :: "('u, 'q, ('e, 's, 'r) quinn_error, 's, 'r) serving"
  assumes "reachable (serving_start nil) serving_step s"
    and "\<forall>n recv data recv'. lib_read A n recv = (Inr data, recv') \<longrightarrow> length data = n"
  shows "(\<forall>p. fst (handle_uni_stream A now timed_out pick recv (sv_conn s)) = Some (Panics p) \<longrightarrow>
      p = ArithmeticOverflow \<and> overflow_checks A \<and> 2 ^ 31 \<le> sc_max_uni_streams (sv_conn s) \<or>
      (\<exists>rx src m. (server_accept_uni_stream (lib_uuid A) (lib_read A) recv (sc_model (sv_conn s)) ::
          (('e, 's, 'r) quinn_error + ('u, 's, 'r) task) \<times> connection) = (Inr (TaskPacket rx src), m) \<and>
        packet_panic A (sc_model (sv_conn s)) rx p)) \<and>
    (\<forall>p. fst (handle_bi_stream A D timed_out pick send recv (sv_conn s)) = Some (Panics p) \<longrightarrow>
      p = ArithmeticOverflow \<and> overflow_checks A \<and> 2 ^ 31 \<le> sc_max_bi_streams (sv_conn s)) \<and>
    (\<forall>p. fst (handle_datagram A now pick dg (sv_conn s)) = Some (Panics p) \<longrightarrow>
      p = SliceOutOfRange \<and> announces_too_much (lib_uuid A) dg \<or>
      (\<exists>rx src m. (server_accept_datagram (lib_uuid A) dg (sc_model (sv_conn s)) ::
          (('e, 's, 'r) quinn_error + ('u, 's, 'r) task) outcome \<times> connection) = (Returns (Inr (TaskPacket rx src)), m) \<and>
        packet_panic A (sc_model (sv_conn s)) rx p)) \<and>
    (\<forall>h \<in> set (sv_running s). \<forall>p. fst (handler_step A D' now timed_out pick h (sv_conn s)) = Some (Inl (Panics p)) \<longrightarrow>
      part_panic A now pick h (sv_conn s) p)"
proof -
  have ok: "conn_ok nil (sv_conn s)" using serving.reachable_inv [OF assms(1)] by simp
  have model: "connection_ok (sc_model (sv_conn s))" using serving_model.reachable_inv [OF assms(1)] by simp
  have "part_panic A now pick h (sv_conn s) p"
    if running: "h \<in> set (sv_running s)"
      and panics: "fst (handler_step A D' now timed_out pick h (sv_conn s)) = Some (Inl (Panics p))" for h p
  proof -
    obtain c1 where part: "handler_part A D' now timed_out pick h (sv_conn s) = (Some (Inl (Panics p)), c1)"
      using panics by (auto simp: handler_step_def split: prod.splits)
    have "from_stream h" using serving_model.reachable_inv [OF assms(1)] running by blast
    from handler_part_panics [OF part ok model this assms(2)] show ?thesis .
  qed
  then show ?thesis
    using uni_handler_panics [OF ok model assms(2), of now timed_out pick recv] bi_handler_panics [OF ok, of A D timed_out pick send recv]
      datagram_handler_panics [OF ok model, of A now pick dg] by blast
qed

theorem server_handlers_panic_only_witness:
  "\<not> (\<exists>p. fst (handle_uni_stream demo_app 0 False True demo_dissociate (sv_conn demo_running)) = Some (Panics p)) \<and>
    fst (handle_datagram demo_app 0 True [5, 4] (sv_conn demo_running)) \<noteq> Some (Panics SliceOutOfRange)"
proof -
  have reads: "\<forall>n recv data recv'. lib_read demo_app n recv = (Inr data, recv') \<longrightarrow> length data = n"
    using stream_read_exact_length by (simp add: demo_app_def)
  have none: "\<not> packet_panic demo_app (sc_model (sv_conn demo_running)) rx p" for rx p
    by (simp add: packet_panic_def fragment_beyond_def demo_app_def demo_running_def demo_new_def server_conn_new_def
        connection_new_def udp_sessions_new_def buffer_at_def)
  have limit: "\<not> 2 ^ 31 \<le> sc_max_uni_streams (sv_conn demo_running)"
    by (simp add: demo_running_def demo_new_def server_conn_new_def INIT_CONCURRENT_STREAMS_def)
  have short: "\<not> announces_too_much (lib_uuid demo_app) [5, 4]"
    unfolding demo_app_def by code_simp
  from server_handlers_panic_only [OF demo_running_reachable reads, where now = 0 and timed_out = False and pick = True and
      recv = demo_dissociate and dg = "[5, 4]"] none limit short
  show ?thesis by blast
qed

end
