(* ===== verification/Spec2Isabelle.thy ===== *)
theory Spec2Isabelle
  imports Proxy_Streams Tuic_Commands Tuic_Order Tuic_Sides Client_Loop Config_Server Tls_Files Server_Safety
begin

text \<open>
  A verification library for TUIC-JLS: the TUIC protocol (\<^verbatim>\<open>src/tuic\<close>), its use over QUIC
  (\<^verbatim>\<open>src/tuic-quinn\<close>), the client with its SOCKS5 server (\<^verbatim>\<open>src/tuic-client\<close>) and the server with its RESTful
  interface (\<^verbatim>\<open>src/tuic-server\<close>).

  \<^bold>\<open>The program.\<close> A SOCKS5 client connects to \<open>tuic-client\<close>. A \<open>CONNECT\<close> becomes a TUIC \<open>Connect\<close> on a stream of
  a QUIC connection to \<open>tuic-server\<close>, which dials the target and copies bytes both ways. A
  UDP \<open>ASSOCIATE\<close> opens a socket; each datagram of the application becomes a TUIC \<open>Packet\<close>, cut into
  fragments that travel in QUIC datagrams (native mode) or streams (quic mode), is put together by the server and
  sent to its target from a UDP session; what comes back goes the same way. The JLS handshake replaces
  authentication: the server treats a connection as authenticated from its start, the client closes one whose peer did
  not answer it. Each side keeps the state of the protocol in a \<open>Connection\<close> of \<^verbatim>\<open>tuic/src/model\<close>.

  \<^bold>\<open>Theories and sources.\<close>
  \<^item> \<open>Tuic_Prelude\<close>: machine types, errors as the left of a sum, panics as values of \<open>outcome\<close>, checked and wrapping
    arithmetic, reachability and the locales \<open>invariant_system\<close> and \<open>refinement\<close>. \<open>Tuic_Wire\<close>: bytes, cursors and streams in
    chunks; the locale \<open>byte_reader\<close> is what a parser relies on, interpreted for both.
  \<^item> \<open>Tuic_Protocol\<close>, \<open>Tuic_Marshal\<close>, \<open>Tuic_Unmarshal\<close>: \<^verbatim>\<open>tuic/src/protocol\<close>, \<^verbatim>\<open>marshal.rs\<close>, \<^verbatim>\<open>unmarshal.rs\<close>. A header
    is as long as \<open>len\<close> says, parses back to itself from any chunking, and whatever parses is its own encoding.
    \<open>Tuic_Order\<close>: the order of addresses, as instances of \<open>linorder\<close>.
  \<^item> \<open>Tuic_Fragments\<close>, \<open>Tuic_Commands\<close>: the sending half of \<^verbatim>\<open>tuic/src/model/packet.rs\<close>. The loop over the
    fragments equals a reference cut of the payload, ends, and hands out commands that can be read.
  \<^item> \<open>Tuic_Assembly\<close>, \<open>Tuic_Sessions\<close>, \<open>Tuic_Reassembly\<close>, \<open>Tuic_Refinement\<close>: \<^verbatim>\<open>tuic/src/model\<close>. The invariant of a
    connection under all its operations; fragments complete a packet in any order, interleaved with any others; the
    connection refines a map of waiting fragments.
  \<^item> \<open>Tuic_Quinn\<close>, \<open>Tuic_Streams\<close>: \<^verbatim>\<open>tuic-quinn/src/lib.rs\<close>. Packets arrive as they were sent, in datagrams and on streams cut
    into any pieces (the locale \<open>fragment_receiver\<close>, interpreted for both), and each side refuses what is not for it.
    \<open>Tuic_Sides\<close>: the typed commands of \<^verbatim>\<open>tuic/src/model\<close> and \<^verbatim>\<open>tuic-quinn\<close> and why their accessors never reach \<open>unreachable!()\<close>.
  \<^item> \<open>Server_Auth\<close>, \<open>Server_Udp\<close>, \<open>Server_Io\<close>, \<open>Server_Restful\<close>, \<open>Server_Conn\<close>, \<open>Server_Stream\<close>: the files
    \<^verbatim>\<open>authenticated.rs\<close>, \<^verbatim>\<open>udp_session.rs\<close>, \<^verbatim>\<open>io.rs\<close>, \<^verbatim>\<open>restful.rs\<close>, \<^verbatim>\<open>connection/mod.rs\<close> and \<^verbatim>\<open>handle_task.rs\<close>,
    \<^verbatim>\<open>handle_stream.rs\<close> of the server. \<open>Server_Invariant\<close> has the invariant of a connection under every order of its
    handlers; \<open>Server_Packets\<close> (with the locale \<open>packet_handler\<close> for its two modes) and \<open>Server_Handlers\<close> what the handlers do in every
    state it reaches; \<open>Server_Loop\<close> the loop with all the tasks it spawns, \<open>Server_Safety\<close> how these can panic.
  \<^item> \<open>Client_Udp\<close>, \<open>Client_Conn\<close>, \<open>Client_Endpoint\<close>, \<open>Client_Socks\<close>: \<^verbatim>\<open>socks5/udp_session.rs\<close>, \<^verbatim>\<open>connection/handle_task.rs\<close>
    and \<^verbatim>\<open>handle_stream.rs\<close>, \<^verbatim>\<open>connection/mod.rs\<close> with \<^verbatim>\<open>utils.rs\<close>, \<^verbatim>\<open>socks5/mod.rs\<close> and \<^verbatim>\<open>handle_task.rs\<close> of the client.
    \<open>Client_Answers\<close>: answers reach the session of their association, in both modes (the locale \<open>answer_receiver\<close>).
    \<open>Client_Relay\<close>: a hijacked connection relays nothing. \<open>Client_Loop\<close>: the connection with its loop and the tasks it spawns, the
    limits of its streams, and how its handlers can panic.
    \<open>Client_Associations\<close>: the associations that run at the same time, as a step relation with its invariant.
  \<^item> \<open>Config_Text\<close>, \<open>Config_Args\<close>, \<open>Config_Server\<close>, \<open>Client_Start\<close>: \<^verbatim>\<open>config.rs\<close>, \<^verbatim>\<open>old_config.rs\<close>, \<^verbatim>\<open>server.rs\<close> and
    \<^verbatim>\<open>main.rs\<close> of both programs: the texts of the configuration, its defaults, the command lines, and what the
    programs start with. \<open>Tls_Files\<close>: \<^verbatim>\<open>tls.rs\<close> of the server, which reloads its certificate, and the client's root certificates.
  \<^item> \<open>Proxy_Streams\<close> and this theory, through both programs: a TCP stream to its target and back, the end of an
    association, and a UDP packet from the application to its target and the answer back, in both modes.

  \<^bold>\<open>How state and code correspond.\<close> A struct is a record with one field per field of the source; a handler is one
  function on the record it shares with the other tasks, from its entry to its end, and what it awaits
  (sockets, name lookups, streams, timers, the log level) is an argument: the answer, when it comes. On the server a handler is
  also cut into the parts between which it may wait (\<open>handler_part\<close>), and shown to be these parts with nothing in between. A static is a field that is \<open>None\<close> before it is
  set. \<open>Arc\<close> and locks are the shared record; an operation that holds the lock is one step. A register of a
  counter is a number that is lowered where the source drops the register. A panic is the value \<open>Panics\<close> with its
  cause; where the build decides (overflow checks) the build is a parameter. Log lines count where they can panic.

  \<^bold>\<open>Interleaving.\<close> Reachability is by step relations whose steps are the operations in any order with any arguments:
  \<open>connection_step\<close> (the protocol state), \<open>relay_step\<close> (the server's UDP sessions and their listeners), \<open>auth_step\<close>,
  \<open>server_step\<close> (all handlers of a server connection and all their parts), \<open>serving_step\<close> (the connection of the server with its
  loop, its timers and every handler that runs, which waits after each part for as long as its answer takes),
  \<open>client_serving_step\<close> (the same of the client, whose handlers run as a whole), \<open>assoc_step\<close> (the client's
  associations) and \<open>statics_step\<close> (the statics of the client's connection). Where a theorem runs the handlers of several datagrams or streams,
  it does so one after the other in every order of arrival.

  \<^bold>\<open>Bounds.\<close> Integers have their width. The loop over the fragments needs at most 256 calls of \<open>next\<close>, because the
  number and the total are bytes; \<open>take_fragments\<close> has that as fuel and the theorem says that it is enough. The loops over
  arguments are \<open>partial_function\<close>s, shown to return when the parser consumes its input. All other loops recurse on their data.
  The theorems on whole packets ask that a fragment holds some payload (\<open>11 < sz\<close>), that the count of fragments fits a byte and
  that the source counts them right (\<open>splits_evenly_into_last\<close> is the case in which it does not); these are limits of the code, and
  what it does beyond them is in \<open>exact_multiple_announces_too_many\<close> and \<open>undersized_datagram_limit\<close>. \<open>associations_do_not_mix\<close> asks
  that no association outlives the next 65535, and \<open>reused_association_number_panics\<close> shows what happens otherwise. \<open>client_bounded_step\<close>
  bounds the handlers that run at a time by \<open>2 ^ 31\<close>, where the limit of streams no longer doubles in 32 bits. The two byte counts of
  \<open>exchange_tcp\<close> are natural numbers where the source has \<open>usize\<close>.

  \<^bold>\<open>Library code\<close> is an argument of what uses it: the \<open>uuid\<close> crate (\<open>uuid_lib\<close>), quinn (\<open>quic\<close>, \<open>quinn_endpoint\<close>), chashmap
  (\<open>upsert\<close>), the sockets (\<open>sockets\<close>, \<open>socks_sockets\<close>, \<open>tcp_sockets\<close>), lexopt, serde and figment (the fields as they are read),
  humantime, rustls (\<open>client_setup\<close>, \<open>server_setup\<close>). What a theorem relies on is a hypothesis of it, such as \<open>takes_datagrams\<close> (a
  datagram that is sent is on the wire) or \<open>consumes\<close> (an argument parser makes progress), and its witness has an instance.

  \<^bold>\<open>Not modelled.\<close> Logging and the \<open>Display\<close> and \<open>Debug\<close> texts, but for panics in the arguments of a log line; the log
  subscribers of the two \<open>main\<close> functions, which are library code; the hash of an address; routing and JSON of the RESTful
  interface (axum). The time between the steps is not modelled: a timer fires as a step or is an argument, so the durations
  of the configuration are stored and not used. A lock, a send on a UDP socket and the shutdown of a stream end at once. A QUIC
  connection is open when connecting returns it, so one that is lost before \<open>get_conn\<close> tests it, for which the client
  connects again, does not occur. The statics of the RESTful interface are there from the start of a connection, though the
  task that sets them only runs beside the loop that accepts connections.
\<close>

section \<open>From the SOCKS5 client to the target and back\<close>

text \<open>
  A payload that the fragments of one packet can carry over a connection with datagrams of up to \<open>sz\<close> bytes:
  the address is written, some payload fits beside it, and there are at most 255 fragments, counted right.
\<close>

definition sendable :: "nat \<Rightarrow> address \<Rightarrow> bytes \<Rightarrow> bool" where
  "sendable sz addr payload \<longleftrightarrow> packet_header_len addr \<le> sz \<and> 11 < sz \<and> sz \<le> 65535 \<and>
     length payload + sz < usize_modulus \<and> payload \<noteq> [] \<and> \<not> splits_evenly_into_last sz addr payload \<and>
     frag_count sz addr payload \<le> 255 \<and> wf_address addr"

text \<open>
  A server connection that relays: it is open and not in the other mode, sockets can be opened, the
  target's name resolves to an IPv4 address first, and the socket takes the packet.
\<close>

definition server_ready ::
    "udp_relay_mode \<Rightarrow> ('u, 'q, 'e, 's, 'r) app \<Rightarrow> address \<Rightarrow> bytes \<Rightarrow> socket_addr \<Rightarrow> ('u, 'q, 'm) server_conn \<Rightarrow> bool" where
  "server_ready mode A addr payload dest v \<longleftrightarrow> sc_closed v = None \<and>
     (sc_udp_relay_mode v = None \<or> sc_udp_relay_mode v = Some mode) \<and>
     \<not> overflow_checks A \<and> can_deliver A payload addr dest"

lemma server_ready_relays:
  assumes "server_ready mode A addr payload dest v" and "reachable (server_fresh nil) server_step v"
  shows "\<not> overflow_checks A" and "can_deliver A payload addr dest" and "relays_as nil mode v"
  using assms(1) server.reachable_inv [OF assms(2)] by (simp_all add: server_ready_def relays_as_def)

text \<open>
  C1: a UDP packet goes from the SOCKS5 client to its target. An application sends an unfragmented SOCKS5
  datagram to the socket of its association \<open>a\<close>, and the client forwards it over its connection; when the
  datagrams this puts on the wire reach the server, in any order, each once, with nothing buffered under the
  packet's number, then every one is handled without error, and the server hands exactly one packet to
  the UDP session of association \<open>a\<close>: the application's payload, for the first address the target
  resolves to. Its bytes are counted once.
\<close>

theorem socks_packet_reaches_target:
  fixes B :: "('u, 'q, 'e, 's, 'r) client_lib" and A :: "('u, 'p, 'f, 't, 'v) app"
    and v :: "('u, 'p, ('f, 't, 'v) quinn_error) server_conn"
  assumes "takes_datagrams (cb_quic B) sent" and "max_datagram_size (cb_quic B) (cl_conn c) = Some sz"
    and "sendable sz (tuic_address_of target) payload" and "client_ready RelayNative B s c"
    and "su_sessions u sid = Some session" and "sk_peer session = None \<or> sk_peer session = Some src"
    and "connect src = Inr peer"
    and "associate_recv display connect (Inr (payload, 0, target, src)) sid u = (Some pkt, u')"
    and "associate_forward B (True, g) a pkt s = (res, s')"
    and "st_connection s' = Some c'" and "sent (cl_conn c') = sent (cl_conn c) @ dgs"
    and "distinct is" and "set is = {..<length dgs}" and "length ts = length is"
    and "lib_uuid A = cb_uuid B" and "reachable (server_fresh nil) server_step v"
    and "server_ready Native A (tuic_address_of target) payload dest v"
    and "buffer_at (cn_udp_sessions (sc_model v)) (a, next_pkt_id (cl_model c) a) = None"
    and "run_all (handle_datagram_event A) (map2 (\<lambda>(t, pick) i. (t, pick, dgs ! i)) ts is) v = (rs, v')"
  shows "res = Returns (Inr ()) \<and> rs = replicate (length dgs) (Some (Returns ())) \<and>
    delivered A nil payload a dest v v'"
proof -
  note ready = assms(4) [unfolded client_ready_def] and sendable = assms(3) [unfolded sendable_def]
  have forwards: "client_conn_packet B payload (tuic_address_of target) a c = (res, c')"
    and addr: "\<not> address_is_none (tuic_address_of target)"
    using ready by (intro associate_forwards_packet [OF assms(5-7) _ _ assms(8-10)], simp, simp)+
  obtain r model q where send: "packet_native (cb_overflow_checks B) (cb_uuid B) (cb_quic B) payload
      (tuic_address_of target) a (cl_model c, cl_conn c) = (r, model, q)" by (metis prod.collapse)
  with forwards ready have res: "res = outcome_bind r (\<lambda>r. Returns (map_err ClientModel r))" "cl_conn c' = q"
    by (auto simp: client_conn_packet_def)
  have "length (map fst ts) = length is" using assms(14) by simp
  with assms(11) res(2) sendable have received: "r = Returns (Inr ()) \<and> dgs \<noteq> [] \<and>
    fst (receive_datagrams (overflow_checks A) (cb_uuid B) (lib_read A) (map2 (\<lambda>t i. (t, dgs ! i)) (map fst ts) is) (sc_model v)) =
      (replicate (length dgs - 1) (Returns (Inr None)) @ [Returns (Inr (Some (payload, tuic_address_of target, a)))]
        :: ('f, 't, 'v) receipt list)"
    by (intro native_packet_received [OF assms(1,2) _ _ _ _ _ _ _ _ addr send _ assms(12,13) _ assms(18)]) simp_all
  have "fst (run_all (receive_datagram_event A) (map2 (\<lambda>(t, pick) i. (t, pick, dgs ! i)) ts is) (sc_model v)) =
      (replicate (length dgs - 1) (Returns (Inr None)) @ [Returns (Inr (Some (payload, tuic_address_of target, a)))]
        :: ('f, 't, 'v) receipt list)"
    using received by (simp add: receive_datagram_events assms(15))
  from datagram_handler.run_all_sends [OF server_ready_relays [OF assms(17,16)] this assms(19)]
  show ?thesis using res(1) received by (cases dgs) simp_all
qed

theorem socks_packet_reaches_target_witness:
  "let dgs = cl_conn (the (st_connection (snd demo_forwarded)))
   in length dgs = 3 \<and>
    (\<exists>session. sc_sent (snd (run_all (handle_datagram_event demo_app)
       (map2 (\<lambda>(t, pick) i. (t, pick, dgs ! i)) [(0, True), (0, True), (1, False)] [1, 2, 0]) demo_new)) =
         [(session, [1, 2, 3, 4, 5, 6, 7, 8], localhost)])"
proof -
  let ?payload = "[1, 2, 3, 4, 5, 6, 7, 8] :: bytes"
  let ?target = "SocksDomain [97] 53"
  let ?src = "SocketV4 (Ipv4 127 0 0 1) 5000"
  let ?s = "\<lparr>st_endpoint = None :: bytes client_endpoint option, st_connection = Some demo_relay_conn, st_timeout = 0\<rparr>"
  let ?u = "\<lparr>su_map = Some [3 \<mapsto> 0], su_sessions = [0 \<mapsto> demo_session], su_next = 1\<rparr>"
  obtain c' where c': "st_connection (snd demo_forwarded) = Some c'" and len: "length (cl_conn c') = 3"
    by (rule demo_forwarded_sent)
  have sendable: "sendable 16 (tuic_address_of ?target) ?payload"
    by (simp add: sendable_def packet_header_len_eq frag_count_def cut_payload_def chunk_step usize_modulus_def
        splits_evenly_into_last_def)
  have lib: "takes_datagrams (cb_quic (demo_lib None)) (\<lambda>q. q)"
    "max_datagram_size (cb_quic (demo_lib None)) (cl_conn demo_relay_conn) = Some 16"
    by (simp_all add: demo_lib_def loopback_takes) (simp add: loopback_def)
  have ready: "client_ready RelayNative (demo_lib None) ?s demo_relay_conn"
    by (simp add: client_ready_def demo_lib_def)
  have session: "su_sessions ?u 0 = Some demo_session" "sk_peer demo_session = None \<or> sk_peer demo_session = Some ?src"
    by (simp_all add: demo_session_def)
  have recv: "associate_recv (\<lambda>_. []) Inr (Inr (?payload, 0, ?target, ?src)) 0 ?u =
      (Some (?payload, ?target), snd (associate_recv (\<lambda>_. []) Inr (Inr (?payload, 0, ?target, ?src)) 0 ?u))"
    by (simp add: associate_recv_def socks_session_recv_def demo_session_def)
  have forwarded: "associate_forward (demo_lib None) (True, None, None :: (bytes list, nat) quinn_endpoint option) 3
      (?payload, ?target) ?s = (fst demo_forwarded, snd demo_forwarded)" by (simp add: demo_forwarded_def)
  have sent: "cl_conn c' = cl_conn demo_relay_conn @ cl_conn c'" by simp
  have order: "distinct [1, 2, 0 :: nat]" "set [1, 2, 0] = {..<length (cl_conn c')}" unfolding len by auto
  have uuid: "lib_uuid demo_app = cb_uuid (demo_lib None)" by (simp add: demo_app_def demo_lib_def)
  have new: "sc_closed demo_new = None" "sc_udp_relay_mode demo_new = None" "sc_sent demo_new = []"
    "sc_model demo_new = connection_new" by (simp_all add: demo_new_def server_conn_new_def)
  have server: "server_ready Native demo_app (tuic_address_of ?target) ?payload localhost demo_new"
    by (simp add: server_ready_def new demo_deliver)
  have none: "buffer_at (cn_udp_sessions (sc_model demo_new)) k = None" for k by (simp add: new connection_new_def)
  have "\<exists>session. sc_sent (snd (run_all (handle_datagram_event demo_app)
       (map2 (\<lambda>(t, pick) i. (t, pick, cl_conn c' ! i)) [(0, True), (0, True), (1, False)] [1, 2, 0]) demo_new)) =
         sc_sent demo_new @ [(session, ?payload, localhost)]"
    using socks_packet_reaches_target [OF lib sendable ready session _ recv forwarded c' sent order _ uuid
        demo_reachable(1) server none surjective_pairing, of ?src "[(0, True), (0, True), (1, False)]"]
    by (auto simp: delivered_def)
  then show ?thesis by (simp add: Let_def c' len new)
qed

text \<open>
  C2: the answer goes back to the SOCKS5 client. In every state a server connection reaches with a UDP session
  that is not gone, in the native mode, a packet that the session received from outside is sent off, its
  bytes are counted, and when its datagrams reach a client that has the association open, in any order,
  each once, every one is handled without error and exactly one packet is sent on the association's
  SOCKS5 socket: the payload, with the address the server received it from.
\<close>

theorem target_answer_reaches_socks_client:
  fixes B :: "('u, 'q, 'e, 's, 'r) client_lib" and A :: "('u, 'p, 'f, 't, 'v) app"
    and v :: "('u, 'p, ('f, 't, 'v) quinn_error) server_conn"
  assumes "takes_datagrams (lib_quic A) sent" and "max_datagram_size (lib_quic A) (sc_quic v) = Some sz"
    and "sendable sz (SocketAddress src) payload" and "lib_uuid A = cb_uuid B"
    and "reachable (server_fresh nil) server_step v" and "relays (sc_udp_sessions v) sid = Some r"
    and "sc_udp_relay_mode v = Some Native"
    and "relay_packet A payload (SocketAddress src) (relay_assoc_id r) v = (res, v')"
    and "sent (sc_quic v') = sent (sc_quic v) @ dgs"
    and "distinct is" and "set is = {..<length dgs}" and "length ts = length is"
    and "relays_in RelayNative c (relay_assoc_id r)" and "serves_session u (relay_assoc_id r) k session"
    and "buffer_at (cn_udp_sessions (cl_model c)) (relay_assoc_id r, next_pkt_id (sc_model v) (relay_assoc_id r)) = None"
  shows "res = Returns (Inr ()) \<and>
    sc_restful v' = traffic_rx (cfg_restful A) nil (of_nat (length payload)) (sc_restful v) \<and>
    (\<exists>c'. run_all (client_datagram_event B) (map2 (\<lambda>t i. (t, dgs ! i)) ts is) (c, u) =
      ((replicate (length dgs) (Returns (Inr ())), c', sends_on k session [(payload, SocksSocket src)] u)
       :: ('e, 's, 'r) client_result list \<times> _))"
proof -
  let ?a = "relay_assoc_id r"
  note sendable = assms(3) [unfolded sendable_def]
  have get: "authenticated_get (sc_auth v) = Some nil"
    using server.reachable_inv [OF assms(5)] by (rule conn_ok_get)
  obtain sent_res m q where send: "packet_native (overflow_checks A) (lib_uuid A) (lib_quic A) payload
      (SocketAddress src) ?a (sc_model v, sc_quic v) = (sent_res, m, q)" by (metis prod.collapse)
  have v': "res = outcome_bind sent_res (\<lambda>_. Returns (Inr ()))" "sc_quic v' = q"
    "sc_restful v' = traffic_rx (cfg_restful A) nil (of_nat (length payload)) (sc_restful v)"
    using assms(8) get send by (auto simp: relay_packet_def assms(7))
  with assms(9) sendable
    native_answer_reaches_socks_client [OF assms(1,2) _ _ _ _ _ _ _ _ _ send [unfolded assms(4)] _ assms(10-15)]
  show ?thesis by simp
qed

theorem target_answer_reaches_socks_client_witness:
  "let dgs = sc_quic (snd (relay_packet demo_app [1, 2, 3] (SocketAddress localhost) 3 demo_relaying));
     u = \<lparr>su_map = Some [3 \<mapsto> 0], su_sessions = [0 \<mapsto> demo_session], su_next = 1\<rparr>
   in length dgs = 1 \<and> (\<exists>c'. run_all (client_datagram_event (demo_lib None)) [(0, dgs ! 0)] (demo_relay_conn, u) =
     (([Returns (Inr ())], c', u\<lparr>su_sessions := [0 \<mapsto> demo_session\<lparr>sk_sent := [([1, 2, 3], SocksSocket localhost)]\<rparr>]\<rparr>)
       :: (string, unit, unit) client_result list \<times> _))"
proof -
  let ?r = "\<lparr>relay_assoc_id = 3, relay_socket_v6 = False, relay_close = True, relay_told = False,
    relay_listener = Listening\<rparr>"
  let ?u = "\<lparr>su_map = Some [3 \<mapsto> 0], su_sessions = [0 \<mapsto> demo_session], su_next = 1\<rparr>"
  let ?p = "relay_packet demo_app [1, 2, 3] (SocketAddress localhost) (relay_assoc_id ?r) demo_relaying"
  let ?dgs = "sc_quic (snd ?p)"
  have lib: "takes_datagrams (lib_quic demo_app) (\<lambda>q. q)"
    "max_datagram_size (lib_quic demo_app) (sc_quic demo_relaying) = Some 1200"
    by (simp_all add: demo_app_def demo_quic_def takes_datagrams_def)
  have sendable: "sendable 1200 (SocketAddress localhost) [1, 2, 3]"
    by (simp add: sendable_def localhost_def packet_header_len_eq frag_count_def cut_payload_def chunk_step
        usize_modulus_def splits_evenly_into_last_def)
  have uuid: "lib_uuid demo_app = cb_uuid (demo_lib None)" by (simp add: demo_app_def demo_lib_def)
  have session: "relays (sc_udp_sessions demo_relaying) 0 = Some ?r" by code_simp
  have mode: "sc_udp_relay_mode demo_relaying = Some Native" by code_simp
  have quic: "sc_quic demo_relaying = []" by code_simp
  have sent: "?dgs = sc_quic demo_relaying @ ?dgs" by (simp add: quic)
  let ?sent = "packet_native (overflow_checks demo_app) (lib_uuid demo_app) (lib_quic demo_app) [1, 2, 3]
    (SocketAddress localhost) (relay_assoc_id ?r) (sc_model demo_relaying, sc_quic demo_relaying)"
  have split: "?sent = (fst ?sent, fst (snd ?sent), snd (snd ?sent))" by simp
  have "authenticated_get (sc_auth demo_relaying) = Some (replicate 16 0)"
    using server.reachable_inv [OF demo_reachable(2)] by (rule conn_ok_get)
  then have "?dgs = snd (snd ?sent)" by (simp add: relay_packet_def mode split_beta)
  then have len: "length ?dgs = 1"
    using packet_native_sent(2) [OF lib _ _ _ _ _ _ split] sendable
    by (simp add: quic sendable_def cut_payload_def chunk_step packet_header_len_eq localhost_def)
  have order: "distinct [0 :: nat]" "set [0] = {..<length ?dgs}" unfolding len by auto
  have relays: "relays_in RelayNative demo_relay_conn (relay_assoc_id ?r)"
    unfolding relays_in_def demo_relay_conn_def by code_simp
  have serves: "serves_session ?u (relay_assoc_id ?r) 0 demo_session" by (simp add: serves_session_def demo_session_def)
  have none: "buffer_at (cn_udp_sessions (cl_model demo_relay_conn))
      (relay_assoc_id ?r, next_pkt_id (sc_model demo_relaying) (relay_assoc_id ?r)) = None"
    unfolding demo_relay_conn_def by code_simp
  have ts: "length [0 :: nat] = length [0 :: nat]" by simp
  from target_answer_reaches_socks_client [OF lib sendable uuid demo_reachable(2) session mode surjective_pairing sent
      order ts relays serves none]
  show ?thesis using len by (simp add: demo_session_def Let_def sends_on_def)
qed


section \<open>The same on streams\<close>

text \<open>
  C3: a UDP packet in the quic mode. The packet that the client forwards goes out on streams of its own, one for
  each fragment; when each stream reaches the server, cut into any pieces, in any order, then every handler ends
  without error, and exactly one packet is handed to the UDP session of the association: the
  application's payload, for the first address the target resolves to. Its bytes are counted once.
\<close>

theorem socks_packet_reaches_target_on_streams:
  fixes B :: "('u, 'q, 'e, 's, 'r) client_lib" and A :: "('u, 'p, 'f, 't, recv_stream) app"
    and v :: "('u, 'p, ('f, 't, recv_stream) quinn_error) server_conn"
  assumes "takes_streams (cb_quic B) opened sent"
    and "sendable 65535 (tuic_address_of target) payload" and "client_ready RelayQuic B s c"
    and "su_sessions u sid = Some session" and "sk_peer session = None \<or> sk_peer session = Some src"
    and "connect src = Inr peer"
    and "associate_recv display connect (Inr (payload, 0, target, src)) sid u = (Some pkt, u')"
    and "associate_forward B (True, g) a pkt s = (res, s')"
    and "st_connection s' = Some c'" and "opened (cl_conn c') = opened (cl_conn c) @ new"
    and "list_all2 (\<lambda>s recv. stream_of (sent (cl_conn c') s) recv) new recvs"
    and "distinct is" and "set is = {..<length new}" and "length ts = length is"
    and "lib_uuid A = cb_uuid B" and "lib_read A = stream_read_exact"
    and "reachable (server_fresh nil) server_step v"
    and "server_ready Quic A (tuic_address_of target) payload dest v"
    and "buffer_at (cn_udp_sessions (sc_model v)) (a, next_pkt_id (cl_model c) a) = None"
    and "run_all (handle_stream_event A) (map2 (\<lambda>(t, pick) i. (t, pick, recvs ! i)) ts is) v = (rs, v')"
  shows "res = Returns (Inr ()) \<and> rs = replicate (length new) (Some (Returns ())) \<and>
    delivered A nil payload a dest v v'"
proof -
  note ready = assms(3) [unfolded client_ready_def] and sendable = assms(2) [unfolded sendable_def]
  have forwards: "client_conn_packet B payload (tuic_address_of target) a c = (res, c')"
    and addr: "\<not> address_is_none (tuic_address_of target)"
    using ready by (intro associate_forwards_packet [OF assms(4-6) _ _ assms(7-9)], simp, simp)+
  obtain r model q where send: "packet_quic (cb_overflow_checks B) (cb_uuid B) (cb_quic B) payload
      (tuic_address_of target) a (cl_model c, cl_conn c) = (r, model, q)" by (metis prod.collapse)
  with forwards ready have res: "res = outcome_bind r (\<lambda>r. Returns (map_err ClientModel r))" "cl_conn c' = q"
    by (auto simp: client_conn_packet_def)
  have "length (map fst ts) = length is" using assms(14) by simp
  with assms(10,11) res(2) sendable have received: "r = Returns (Inr ()) \<and> new \<noteq> [] \<and>
    fst (receive_all (receive_stream (overflow_checks A) (cb_uuid B) stream_read_exact)
        (map2 (\<lambda>t i. (t, recvs ! i)) (map fst ts) is) (sc_model v)) =
      (replicate (length new - 1) (Returns (Inr None)) @ [Returns (Inr (Some (payload, tuic_address_of target, a)))]
        :: ('f, 't, recv_stream) receipt list)"
    by (intro quic_packet_received [OF assms(1) _ _ _ _ _ _ addr send _ _ assms(12,13) _ assms(19)]) simp_all
  have "fst (run_all (receive_stream_event A) (map2 (\<lambda>(t, pick) i. (t, pick, recvs ! i)) ts is) (sc_model v)) =
      (replicate (length new - 1) (Returns (Inr None)) @ [Returns (Inr (Some (payload, tuic_address_of target, a)))]
        :: ('f, 't, recv_stream) receipt list)"
    using received by (simp add: receive_stream_events assms(15,16))
  from stream_handler.run_all_sends [OF server_ready_relays [OF assms(18,17)] this assms(20)]
  show ?thesis using res(1) received by (cases new) simp_all
qed

text \<open>A packet that such a client forwards.\<close>

definition demo_stream_forwarded ::
    "((string, nat, recv_stream) quinn_error client_error + unit) outcome \<times> (bytes, bytes list) client_statics" where
  "demo_stream_forwarded = associate_forward demo_stream_lib (True, None, None :: (bytes list, nat) quinn_endpoint option) 3
     ([8, 9], SocksDomain [97] 53) \<lparr>st_endpoint = None, st_connection = Some demo_stream_conn, st_timeout = 0\<rparr>"

lemma sendable_small:
  assumes "packet_header_len addr \<le> 300" and "wf_address addr" and "payload \<noteq> []" and "length payload \<le> 1000"
  shows "sendable 65535 addr payload"
proof -
  have "length payload \<le> 65535 - packet_header_len addr" using assms(1,4) by linarith
  then have "frag_count 65535 addr payload = 1" "\<not> splits_evenly_into_last 65535 addr payload"
    by (simp_all add: frag_count_def splits_evenly_into_last_def)
  with assms show ?thesis by (simp add: sendable_def usize_modulus_def)
qed

theorem socks_packet_reaches_target_on_streams_witness:
  "let q = cl_conn (the (st_connection (snd demo_stream_forwarded)))
   in \<exists>session. sc_sent (snd (run_all (handle_stream_event demo_app)
       (map2 (\<lambda>(t, pick) i. (t, pick, arriving q ! i)) (replicate (length q) (0, True)) [0..<length q]) demo_new)) =
         [(session, [8, 9], localhost)]"
proof -
  let ?target = "SocksDomain [97] 53"
  let ?src = "SocketV4 (Ipv4 127 0 0 1) 5000"
  let ?s = "\<lparr>st_endpoint = None :: bytes client_endpoint option, st_connection = Some demo_stream_conn, st_timeout = 0\<rparr>"
  let ?u = "\<lparr>su_map = Some [3 \<mapsto> 0], su_sessions = [0 \<mapsto> demo_session], su_next = 1\<rparr>"
  obtain c' where c': "st_connection (snd demo_stream_forwarded) = Some c'"
    by (simp add: demo_stream_forwarded_def associate_forward_def on_connection_def get_conn_def split_beta)
  let ?q = "cl_conn c'"
  have sendable: "sendable 65535 (tuic_address_of ?target) [8, 9]"
    by (intro sendable_small) (simp_all add: packet_header_len_eq)
  have takes: "takes_streams (cb_quic demo_stream_lib) net_opened net_sent"
    by (simp add: demo_stream_lib_def stream_net_takes)
  have ready: "client_ready RelayQuic demo_stream_lib ?s demo_stream_conn"
    by (simp add: client_ready_def demo_stream_lib_def)
  have session: "su_sessions ?u 0 = Some demo_session" "sk_peer demo_session = None \<or> sk_peer demo_session = Some ?src"
    by (simp_all add: demo_session_def)
  have recv: "associate_recv (\<lambda>_. []) Inr (Inr ([8, 9], 0, ?target, ?src)) 0 ?u =
      (Some ([8, 9], ?target), snd (associate_recv (\<lambda>_. []) Inr (Inr ([8, 9], 0, ?target, ?src)) 0 ?u))"
    by (simp add: associate_recv_def socks_session_recv_def demo_session_def)
  have forwarded: "associate_forward demo_stream_lib (True, None, None :: (bytes list, nat) quinn_endpoint option) 3
      ([8, 9], ?target) ?s = (fst demo_stream_forwarded, snd demo_stream_forwarded)"
    by (simp add: demo_stream_forwarded_def)
  have opened: "net_opened ?q = net_opened (cl_conn demo_stream_conn) @ net_opened ?q" by (simp add: net_opened_def)
  have order: "distinct [0..<length ?q]" "set [0..<length ?q] = {..<length (net_opened ?q)}"
    "length (replicate (length ?q) (0 :: nat, True)) = length [0..<length ?q]" by (auto simp: net_opened_def)
  have lib: "lib_uuid demo_app = cb_uuid demo_stream_lib" "lib_read demo_app = stream_read_exact"
    by (simp_all add: demo_app_def demo_stream_lib_def)
  have new: "sc_closed demo_new = None" "sc_udp_relay_mode demo_new = None" "sc_sent demo_new = []"
    "sc_model demo_new = connection_new" by (simp_all add: demo_new_def server_conn_new_def)
  have server: "server_ready Quic demo_app (tuic_address_of ?target) [8, 9] localhost demo_new"
    by (simp add: server_ready_def new demo_deliver)
  have none: "buffer_at (cn_udp_sessions (sc_model demo_new)) k = None" for k by (simp add: new connection_new_def)
  show ?thesis
    using socks_packet_reaches_target_on_streams [OF takes sendable ready session _ recv forwarded c' opened
        arriving_streams order lib demo_reachable(1) server none surjective_pairing]
    by (auto simp: delivered_def new c')
qed

text \<open>
  C4: the answer in the quic mode. In every state a server connection reaches with a UDP session that is
  not gone, in the quic mode, a packet that the session received from outside goes out on streams, its bytes are
  counted, and when each stream reaches a client that has the association open, cut into any pieces, in any
  order, exactly one packet is sent on the association's SOCKS5 socket: the payload, with the address the server
  received it from.
\<close>

theorem target_answer_reaches_socks_client_on_streams:
  fixes B :: "('u, 'q, 'e, 's, recv_stream) client_lib" and A :: "('u, 'p, 'f, 't, 'v) app"
    and v :: "('u, 'p, ('f, 't, 'v) quinn_error) server_conn"
  assumes "takes_streams (lib_quic A) opened sent"
    and "sendable 65535 (SocketAddress src) payload" and "lib_uuid A = cb_uuid B" and "cb_read B = stream_read_exact"
    and "reachable (server_fresh nil) server_step v" and "relays (sc_udp_sessions v) sid = Some r"
    and "sc_udp_relay_mode v = Some Quic"
    and "relay_packet A payload (SocketAddress src) (relay_assoc_id r) v = (res, v')"
    and "opened (sc_quic v') = opened (sc_quic v) @ new"
    and "list_all2 (\<lambda>s recv. stream_of (sent (sc_quic v') s) recv) new recvs"
    and "distinct is" and "set is = {..<length new}" and "length ts = length is"
    and "relays_in RelayQuic c (relay_assoc_id r)" and "serves_session u (relay_assoc_id r) k session"
    and "buffer_at (cn_udp_sessions (cl_model c)) (relay_assoc_id r, next_pkt_id (sc_model v) (relay_assoc_id r)) = None"
  shows "res = Returns (Inr ()) \<and>
    sc_restful v' = traffic_rx (cfg_restful A) nil (of_nat (length payload)) (sc_restful v) \<and>
    (\<exists>c'. run_all (client_stream_event B) (map2 (\<lambda>t i. (t, recvs ! i)) ts is) (c, u) =
      ((replicate (length new) (Returns (Inr ())), c', sends_on k session [(payload, SocksSocket src)] u)
       :: ('e, 's, recv_stream) client_result list \<times> _))"
proof -
  let ?a = "relay_assoc_id r"
  note sendable = assms(2) [unfolded sendable_def]
  have get: "authenticated_get (sc_auth v) = Some nil"
    using server.reachable_inv [OF assms(5)] by (rule conn_ok_get)
  obtain sent_res m q where send: "packet_quic (overflow_checks A) (lib_uuid A) (lib_quic A) payload
      (SocketAddress src) ?a (sc_model v, sc_quic v) = (sent_res, m, q)" by (metis prod.collapse)
  have v': "res = outcome_bind sent_res (\<lambda>_. Returns (Inr ()))" "sc_quic v' = q"
    "sc_restful v' = traffic_rx (cfg_restful A) nil (of_nat (length payload)) (sc_restful v)"
    using assms(8) get send by (auto simp: relay_packet_def assms(7))
  with assms(9,10) sendable
    quic_answer_reaches_socks_client [OF assms(1) _ _ _ _ _ _ _ send [unfolded assms(3)] _ _ assms(11-15,4,16)]
  show ?thesis by simp
qed

text \<open>A server over the same kind of transport, after a packet of association 3 in the quic mode.\<close>

definition demo_stream_app :: "(bytes, bytes list, string, nat, recv_stream) app" where
  "demo_stream_app = \<lparr>overflow_checks = False, logs_info = True, logs_warn = True,
     cfg_users = [replicate 16 1 \<mapsto> [7]], cfg_restful = None, cfg_udp_relay_ipv6 = False,
     cfg_gc_lifetime = 15, lib_uuid = bytes_uuid_lib, lib_quic = stream_net,
     lib_read = stream_read_exact, lib_upsert = map_upsert, lib_sockets = open_sockets,
     lib_lookup_host = (\<lambda>_ _. Inr [localhost]), lib_send_to = (\<lambda>pkt _. Inr (length pkt))\<rparr>"

definition demo_stream_relaying :: "(bytes, bytes list, (string, nat, recv_stream) quinn_error) server_conn" where
  "demo_stream_relaying = snd (handle_packet demo_stream_app 0 demo_packet (SourceNative [8, 9]) Quic
     (server_conn_new (replicate 16 0) [] (restful_start [replicate 16 1 \<mapsto> [7 :: u8]])))"

lemma demo_stream_reachable: "reachable (server_fresh (replicate 16 0)) server_step demo_stream_relaying"
  unfolding demo_stream_relaying_def
  by (rule reachable_step, rule reachable_init, auto simp: server_fresh_def intro: step_packet)

theorem target_answer_reaches_socks_client_on_streams_witness:
  "let q = sc_quic (snd (relay_packet demo_stream_app [1, 2, 3] (SocketAddress localhost) 3 demo_stream_relaying));
     u = \<lparr>su_map = Some [3 \<mapsto> 0], su_sessions = [0 \<mapsto> demo_session], su_next = 1\<rparr>
   in \<exists>c'. run_all (client_stream_event demo_stream_lib) (map2 (\<lambda>t i. (t, arriving q ! i)) (replicate (length q) 0)
       [0..<length q]) (demo_stream_conn, u) =
     ((replicate (length q) (Returns (Inr ())), c', sends_on 0 demo_session [([1, 2, 3], SocksSocket localhost)] u)
       :: (string, nat, recv_stream) client_result list \<times> _)"
proof -
  let ?r = "\<lparr>relay_assoc_id = 3, relay_socket_v6 = False, relay_close = True, relay_told = False,
    relay_listener = Listening\<rparr>"
  let ?u = "\<lparr>su_map = Some [3 \<mapsto> 0], su_sessions = [0 \<mapsto> demo_session], su_next = 1\<rparr>"
  let ?p = "relay_packet demo_stream_app [1, 2, 3] (SocketAddress localhost) (relay_assoc_id ?r) demo_stream_relaying"
  let ?q = "sc_quic (snd ?p)"
  have takes: "takes_streams (lib_quic demo_stream_app) net_opened net_sent"
    by (simp add: demo_stream_app_def stream_net_takes)
  have sendable: "sendable 65535 (SocketAddress localhost) [1, 2, 3]"
    by (intro sendable_small) (simp_all add: packet_header_len_eq localhost_def)
  have lib: "lib_uuid demo_stream_app = cb_uuid demo_stream_lib" "cb_read demo_stream_lib = stream_read_exact"
    by (simp_all add: demo_stream_app_def demo_stream_lib_def)
  have session: "relays (sc_udp_sessions demo_stream_relaying) 0 = Some ?r"
    and mode: "sc_udp_relay_mode demo_stream_relaying = Some Quic"
    and quic: "sc_quic demo_stream_relaying = []"
    by code_simp+
  have opened: "net_opened ?q = net_opened (sc_quic demo_stream_relaying) @ net_opened ?q"
    by (simp add: quic net_opened_def)
  have order: "distinct [0..<length ?q]" "set [0..<length ?q] = {..<length (net_opened ?q)}"
    "length (replicate (length ?q) (0 :: nat)) = length [0..<length ?q]" by (auto simp: net_opened_def)
  have relays: "relays_in RelayQuic demo_stream_conn (relay_assoc_id ?r)"
    unfolding relays_in_def demo_stream_conn_def by code_simp
  have serves: "serves_session ?u (relay_assoc_id ?r) 0 demo_session" by (simp add: serves_session_def demo_session_def)
  have none: "buffer_at (cn_udp_sessions (cl_model demo_stream_conn))
      (relay_assoc_id ?r, next_pkt_id (sc_model demo_stream_relaying) (relay_assoc_id ?r)) = None"
    unfolding demo_stream_conn_def by code_simp
  from target_answer_reaches_socks_client_on_streams [OF takes sendable lib demo_stream_reachable session mode
      surjective_pairing opened arriving_streams order relays serves none]
  show ?thesis by (simp add: Let_def net_opened_def)
qed

end
